(* ===== verification/Prelude.thy ===== *)
theory Prelude
  imports Main "HOL-Library.Word" "HOL-Library.Char_ord" "HOL-Library.List_Lexorder"
    "HOL-Library.Multiset"
begin

text \<open>
  Shared ground of the development: names for Go's machine integers and byte slices, the
  outcome type of code that can panic, the big-endian byte order of \<open>encoding/binary\<close>, the
  builtin \<open>copy\<close>, and two interfaces that several components have in common: fixed-width
  codecs and systems whose steps keep an invariant.
\<close>

named_theorems go_simps \<open>unfolding rules for outcomes of code that can panic\<close>
named_theorems width_simps \<open>lengths of encoded values\<close>

type_synonym u8 = "8 word"
type_synonym u16 = "16 word"
type_synonym u32 = "32 word"
type_synonym u64 = "64 word"
type_synonym bytes = "u8 list"

section \<open>Outcomes\<close>

text \<open>A Go call either returns or panics; \<open>error\<close> results are values of the returned type.\<close>

datatype 'a go = Ret 'a | Panic string

primrec go_bind :: "'a go \<Rightarrow> ('a \<Rightarrow> 'b go) \<Rightarrow> 'b go" where
  "go_bind (Ret a) f = f a"
| "go_bind (Panic s) f = Panic s"

primrec returns :: "'a go \<Rightarrow> bool" where
  "returns (Ret a) = True"
| "returns (Panic s) = False"

lemma go_bind_Ret [go_simps]: "go_bind m f = Ret b \<longleftrightarrow> (\<exists>a. m = Ret a \<and> f a = Ret b)"
  by (cases m) auto

lemma go_bind_Panic [go_simps]:
  "go_bind m f = Panic s \<longleftrightarrow> m = Panic s \<or> (\<exists>a. m = Ret a \<and> f a = Panic s)"
  by (cases m) auto

lemma returns_iff: "returns m \<longleftrightarrow> (\<exists>a. m = Ret a)"
  by (cases m) auto

section \<open>Options of pairs\<close>

lemma not_Some_pair_eq [simp]: "(\<forall>a b. x \<noteq> Some (a, b)) \<longleftrightarrow> x = None"
  by (cases x) auto

section \<open>Words from small numbers\<close>

lemma unat_word_of_nat:
  "n < 2 ^ LENGTH('a) \<Longrightarrow> unat (word_of_nat n :: 'a::len word) = n"
  by (simp add: unat_of_nat)

lemma unat_add_word_of_nat:
  assumes "a + b < 2 ^ LENGTH('a)"
  shows "unat (word_of_nat a + word_of_nat b :: 'a::len word) = a + b"
  using unat_word_of_nat [OF assms] by simp

section \<open>Big-endian byte order\<close>

fun be_put :: "nat \<Rightarrow> nat \<Rightarrow> bytes" where
  "be_put 0 v = []"
| "be_put (Suc n) v = be_put n (v div 256) @ [word_of_nat (v mod 256)]"

definition be_get :: "bytes \<Rightarrow> nat" where
  "be_get bs = foldl (\<lambda>a b. a * 256 + unat b) 0 bs"

lemma length_be_put [simp]: "length (be_put n v) = n"
  by (induction n arbitrary: v) auto

lemma be_get_snoc [simp]: "be_get (bs @ [b]) = be_get bs * 256 + unat b"
  by (simp add: be_get_def)

lemma be_get_Nil [simp]: "be_get [] = 0"
  by (simp add: be_get_def)

lemma unat_byte_of_nat [simp]: "unat (word_of_nat (v mod 256) :: u8) = v mod 256"
  by (simp add: unat_of_nat)

lemma be_get_put: "v < 256 ^ n \<Longrightarrow> be_get (be_put n v) = v"
proof (induction n arbitrary: v)
  case 0
  then show ?case by simp
next
  case (Suc n)
  from Suc.prems have "v div 256 < 256 ^ n"
    by (simp add: less_mult_imp_div_less mult.commute)
  then have "be_get (be_put n (v div 256)) = v div 256"
    by (rule Suc.IH)
  then show ?case by simp
qed

lemma be_get_bound: "be_get bs < 256 ^ length bs"
proof (induction bs rule: rev_induct)
  case Nil
  then show ?case by simp
next
  case (snoc b bs)
  have "unat b < 256" using unsigned_less [of b] by simp
  with snoc show ?case by simp
qed

lemma be_put_get: "be_put (length bs) (be_get bs) = bs"
proof (induction bs rule: rev_induct)
  case Nil
  then show ?case by simp
next
  case (snoc b bs)
  have b: "unat b < 256" using unsigned_less [of b] by simp
  then have "(be_get bs * 256 + unat b) div 256 = be_get bs"
    by simp
  moreover from b have "(be_get bs * 256 + unat b) mod 256 = unat b"
    by (metis mod_less mod_mult_self3)
  ultimately show ?case using snoc by simp
qed

section \<open>The builtin copy\<close>

text \<open>
  \<open>copy(dst[i:], src)\<close> writes as much of \<open>src\<close> as fits and returns the number of elements
  written. The encoders of the wire format are sequences \<open>i += copy(data[i:], x)\<close>.
\<close>

definition go_copy :: "'a list \<Rightarrow> nat \<Rightarrow> 'a list \<Rightarrow> 'a list \<times> nat" where
  "go_copy dst i src =
     (let n = min (length dst - i) (length src)
      in (take i dst @ take n src @ drop (i + n) dst, n))"

fun copy_seq :: "'a list \<Rightarrow> nat \<Rightarrow> 'a list list \<Rightarrow> 'a list \<times> nat" where
  "copy_seq dst i [] = (dst, i)"
| "copy_seq dst i (src # srcs) =
     (let (dst', n) = go_copy dst i src in copy_seq dst' (i + n) srcs)"

lemma go_copy_fits:
  "i + length src \<le> length dst \<Longrightarrow>
     go_copy dst i src = (take i dst @ src @ drop (i + length src) dst, length src)"
  by (simp add: go_copy_def min_absorb2 Let_def)

lemma copy_seq_fits:
  "i + length (concat srcs) \<le> length dst \<Longrightarrow>
     copy_seq dst i srcs =
       (take i dst @ concat srcs @ drop (i + length (concat srcs)) dst, i + length (concat srcs))"
proof (induction srcs arbitrary: dst i)
  case Nil
  then show ?case by simp
next
  case (Cons src srcs)
  let ?dst = "take i dst @ src @ drop (i + length src) dst"
  from Cons.prems have fit: "i + length src \<le> length dst" by simp
  from Cons.prems have "i + length src + length (concat srcs) \<le> length ?dst" by simp
  then have "copy_seq ?dst (i + length src) srcs =
      (take (i + length src) ?dst @ concat srcs @ drop (i + length src + length (concat srcs)) ?dst,
       i + length src + length (concat srcs))"
    by (rule Cons.IH)
  with fit show ?case by (simp add: go_copy_fits ac_simps)
qed

section \<open>Distinctness by partition\<close>

text \<open>A test for distinctness that splits the list at its head, for tables of names.\<close>

function pivot_distinct :: "'a::linorder list \<Rightarrow> bool" where
  "pivot_distinct [] = True"
| "pivot_distinct (x # xs) =
     (let l = filter (\<lambda>y. y < x) xs; g = filter (\<lambda>y. x < y) xs
      in length l + length g = length xs \<and> pivot_distinct l \<and> pivot_distinct g)"
  by pat_completeness auto
termination
  by (relation "measure length") (auto simp: less_Suc_eq_le)

lemma filters_cover:
  fixes x :: "'a::linorder"
  assumes "length (filter (\<lambda>y. y < x) xs) + length (filter (\<lambda>y. x < y) xs) = length xs"
  shows "x \<notin> set xs"
  using assms
proof (induction xs)
  case (Cons a xs)
  have "length (filter (\<lambda>y. y < x) xs) + length (filter (\<lambda>y. x < y) xs) \<le> length xs"
    by (induction xs) (auto split: if_splits)
  with Cons show ?case by (auto split: if_splits)
qed simp

lemma distinct_filters:
  fixes x :: "'a::linorder"
  shows "distinct (filter (\<lambda>y. y < x) xs) \<Longrightarrow> distinct (filter (\<lambda>y. x < y) xs) \<Longrightarrow>
    x \<notin> set xs \<Longrightarrow> distinct xs"
  by (induction xs) (auto split: if_splits)

lemma pivot_distinct_sound: "pivot_distinct xs \<Longrightarrow> distinct xs"
proof (induction xs rule: pivot_distinct.induct)
  case (2 x xs)
  then show ?case
    using filters_cover [of x xs] distinct_filters [of x xs] by (auto simp: Let_def)
qed simp

section \<open>Fixed-width codecs\<close>

text \<open>
  The wire format is a concatenation of fields of fixed width. What a decoder relies on is
  that an encoder produces exactly \<open>w\<close> bytes and that the decoder inverts it.
\<close>

locale fixed_width =
  fixes enc :: "'v \<Rightarrow> bytes" and dec :: "bytes \<Rightarrow> 'v" and w :: nat
  assumes length_enc: "length (enc v) = w"
    and dec_enc: "dec (enc v) = v"
begin

lemma enc_eq_iff: "enc v = enc v' \<longleftrightarrow> v = v'"
  by (metis dec_enc)

lemma dec_field: "length pre = i \<Longrightarrow> dec (take w (drop i (pre @ enc v @ post))) = v"
  by (simp add: length_enc dec_enc)

end

section \<open>Systems that keep an invariant\<close>

text \<open>
  An object whose methods run one at a time (each takes the object's lock) is a step function
  over the calls. \<open>ok s e\<close> is the condition under which the call \<open>e\<close> keeps the invariant.
\<close>

fun run_ok :: "('s \<Rightarrow> 'e \<Rightarrow> 's) \<Rightarrow> ('s \<Rightarrow> 'e \<Rightarrow> bool) \<Rightarrow> 's \<Rightarrow> 'e list \<Rightarrow> bool" where
  "run_ok step ok s [] = True"
| "run_ok step ok s (e # es) = (ok s e \<and> run_ok step ok (step s e) es)"

locale guarded_system =
  fixes step :: "'s \<Rightarrow> 'e \<Rightarrow> 's" and ok :: "'s \<Rightarrow> 'e \<Rightarrow> bool" and inv :: "'s \<Rightarrow> bool"
  assumes step_keeps: "inv s \<Longrightarrow> ok s e \<Longrightarrow> inv (step s e)"
begin

lemma run_keeps: "inv s \<Longrightarrow> run_ok step ok s es \<Longrightarrow> inv (foldl step s es)"
  by (induction es arbitrary: s) (auto intro: step_keeps)

end

locale invariant_system =
  fixes step :: "'s \<Rightarrow> 'e \<Rightarrow> 's" and inv :: "'s \<Rightarrow> bool"
  assumes keeps: "inv s \<Longrightarrow> inv (step s e)"
begin

lemma run_always: "inv s \<Longrightarrow> inv (foldl step s es)"
  by (induction es arbitrary: s) (auto intro: keeps)

end

sublocale invariant_system \<subseteq> guarded_system step "\<lambda>_ _. True" inv
  by unfold_locales (simp add: keeps)

end
