(* ===== verification/Msg_Types.thy ===== *)
theory Msg_Types
  imports Prelude
begin

text \<open>
  The message types of the protocol (\<open>framework/msg/header/header.go\<close>): the numbered ids, the
  registration of one variable per message type at package initialisation, the lookup of a type
  by id, and the table that pairs a response id with the id of the request it answers.
\<close>

section \<open>Message ids\<close>

definition MSG_ID_INVALID :: u8 where
  "MSG_ID_INVALID = 0"

definition MSG_ID_REQ_GET_SPLIST :: u8 where
  "MSG_ID_REQ_GET_SPLIST = 1"

definition MSG_ID_RSP_GET_SPLIST :: u8 where
  "MSG_ID_RSP_GET_SPLIST = 2"

definition MSG_ID_REQ_GET_PPSTATUS :: u8 where
  "MSG_ID_REQ_GET_PPSTATUS = 3"

definition MSG_ID_RSP_GET_PPSTATUS :: u8 where
  "MSG_ID_RSP_GET_PPSTATUS = 4"

definition MSG_ID_REQ_GET_PPDOWNGRADEINFO :: u8 where
  "MSG_ID_REQ_GET_PPDOWNGRADEINFO = 5"

definition MSG_ID_RSP_GET_PPDOWNGRADEINFO :: u8 where
  "MSG_ID_RSP_GET_PPDOWNGRADEINFO = 6"

definition MSG_ID_REQ_GET_WALLETOZ :: u8 where
  "MSG_ID_REQ_GET_WALLETOZ = 7"

definition MSG_ID_RSP_GET_WALLETOZ :: u8 where
  "MSG_ID_RSP_GET_WALLETOZ = 8"

definition MSG_ID_REQ_REGISTER :: u8 where
  "MSG_ID_REQ_REGISTER = 9"

definition MSG_ID_RSP_REGISTER :: u8 where
  "MSG_ID_RSP_REGISTER = 10"

definition MSG_ID_REQ_ACTIVATE_PP :: u8 where
  "MSG_ID_REQ_ACTIVATE_PP = 11"

definition MSG_ID_RSP_ACTIVATE_PP :: u8 where
  "MSG_ID_RSP_ACTIVATE_PP = 12"

definition MSG_ID_NOTICE_ACTIVATED_SP :: u8 where
  "MSG_ID_NOTICE_ACTIVATED_SP = 13"

definition MSG_ID_REQ_UPDATE_STAKE_PP :: u8 where
  "MSG_ID_REQ_UPDATE_STAKE_PP = 14"

definition MSG_ID_RSP_UPDATE_STAKE_PP :: u8 where
  "MSG_ID_RSP_UPDATE_STAKE_PP = 15"

definition MSG_ID_NOTICE_STATE_CHANGE_PP :: u8 where
  "MSG_ID_NOTICE_STATE_CHANGE_PP = 16"

definition MSG_ID_REQ_STATE_CHANGE_PP :: u8 where
  "MSG_ID_REQ_STATE_CHANGE_PP = 17"

definition MSG_ID_RSP_STATE_CHANGE_PP :: u8 where
  "MSG_ID_RSP_STATE_CHANGE_PP = 18"

definition MSG_ID_REQ_UPDATED_STAKE_SP :: u8 where
  "MSG_ID_REQ_UPDATED_STAKE_SP = 19"

definition MSG_ID_REQ_DEACTIVATE_PP :: u8 where
  "MSG_ID_REQ_DEACTIVATE_PP = 20"

definition MSG_ID_RSP_DEACTIVATE_PP :: u8 where
  "MSG_ID_RSP_DEACTIVATE_PP = 21"

definition MSG_ID_NOTICE_UNBONDING_PP :: u8 where
  "MSG_ID_NOTICE_UNBONDING_PP = 22"

definition MSG_ID_NOTICE_ACTIVATE_PP :: u8 where
  "MSG_ID_NOTICE_ACTIVATE_PP = 23"

definition MSG_ID_RSP_PPREGISTERED_TO_SP :: u8 where
  "MSG_ID_RSP_PPREGISTERED_TO_SP = 24"

definition MSG_ID_REQ_PREPAY :: u8 where
  "MSG_ID_REQ_PREPAY = 25"

definition MSG_ID_RSP_PREPAY :: u8 where
  "MSG_ID_RSP_PREPAY = 26"

definition MSG_ID_REQ_PREPAID :: u8 where
  "MSG_ID_REQ_PREPAID = 27"

definition MSG_ID_RSP_PREPAID :: u8 where
  "MSG_ID_RSP_PREPAID = 28"

definition MSG_ID_REQ_MINING :: u8 where
  "MSG_ID_REQ_MINING = 29"

definition MSG_ID_RSP_MINING :: u8 where
  "MSG_ID_RSP_MINING = 30"

definition MSG_ID_REQ_START_MAINTENANCE :: u8 where
  "MSG_ID_REQ_START_MAINTENANCE = 31"

definition MSG_ID_RSP_START_MAINTENANCE :: u8 where
  "MSG_ID_RSP_START_MAINTENANCE = 32"

definition MSG_ID_REQ_STOP_MAINTENANCE :: u8 where
  "MSG_ID_REQ_STOP_MAINTENANCE = 33"

definition MSG_ID_RSP_STOP_MAINTENANCE :: u8 where
  "MSG_ID_RSP_STOP_MAINTENANCE = 34"

definition MSG_ID_REQ_UPLOAD_FILE :: u8 where
  "MSG_ID_REQ_UPLOAD_FILE = 35"

definition MSG_ID_RSP_UPLOAD_FILE :: u8 where
  "MSG_ID_RSP_UPLOAD_FILE = 36"

definition MSG_ID_REQ_UPLOAD_FILESLICE :: u8 where
  "MSG_ID_REQ_UPLOAD_FILESLICE = 37"

definition MSG_ID_RSP_UPLOAD_FILESLICE :: u8 where
  "MSG_ID_RSP_UPLOAD_FILESLICE = 38"

definition MSG_ID_REQ_BACKUP_FILESLICE :: u8 where
  "MSG_ID_REQ_BACKUP_FILESLICE = 39"

definition MSG_ID_RSP_BACKUP_FILESLICE :: u8 where
  "MSG_ID_RSP_BACKUP_FILESLICE = 40"

definition MSG_ID_REQ_UPLOAD_SLICES_WRONG :: u8 where
  "MSG_ID_REQ_UPLOAD_SLICES_WRONG = 41"

definition MSG_ID_RSP_UPLOAD_SLICES_WRONG :: u8 where
  "MSG_ID_RSP_UPLOAD_SLICES_WRONG = 42"

definition MSG_ID_REQ_REPORT_UPLOAD_SLICE_RESULT :: u8 where
  "MSG_ID_REQ_REPORT_UPLOAD_SLICE_RESULT = 43"

definition MSG_ID_RSP_REPORT_UPLOAD_SLICE_RESULT :: u8 where
  "MSG_ID_RSP_REPORT_UPLOAD_SLICE_RESULT = 44"

definition MSG_ID_UPLOAD_SPEED_OF_PROGRESS :: u8 where
  "MSG_ID_UPLOAD_SPEED_OF_PROGRESS = 45"

definition MSG_ID_REQ_FIND_MY_FILELIST :: u8 where
  "MSG_ID_REQ_FIND_MY_FILELIST = 46"

definition MSG_ID_RSP_FIND_MY_FILELIST :: u8 where
  "MSG_ID_RSP_FIND_MY_FILELIST = 47"

definition MSG_ID_REQ_DELETE_FILE :: u8 where
  "MSG_ID_REQ_DELETE_FILE = 48"

definition MSG_ID_RSP_DELETE_FILE :: u8 where
  "MSG_ID_RSP_DELETE_FILE = 49"

definition MSG_ID_REQ_GET_HDINFO :: u8 where
  "MSG_ID_REQ_GET_HDINFO = 50"

definition MSG_ID_RSP_GET_HDINFO :: u8 where
  "MSG_ID_RSP_GET_HDINFO = 51"

definition MSG_ID_REQ_FILE_STORAGEINFO :: u8 where
  "MSG_ID_REQ_FILE_STORAGEINFO = 52"

definition MSG_ID_RSP_FILE_STORAGEINFO :: u8 where
  "MSG_ID_RSP_FILE_STORAGEINFO = 53"

definition MSG_ID_REQ_DOWNLOAD_SLICE :: u8 where
  "MSG_ID_REQ_DOWNLOAD_SLICE = 54"

definition MSG_ID_RSP_DOWNLOAD_SLICE :: u8 where
  "MSG_ID_RSP_DOWNLOAD_SLICE = 55"

definition MSG_ID_REQ_REPORT_DOWNLOAD_RESULT :: u8 where
  "MSG_ID_REQ_REPORT_DOWNLOAD_RESULT = 56"

definition MSG_ID_RSP_REPORT_DOWNLOAD_RESULT :: u8 where
  "MSG_ID_RSP_REPORT_DOWNLOAD_RESULT = 57"

definition MSG_ID_REQ_DOWNLOAD_TASKINFO :: u8 where
  "MSG_ID_REQ_DOWNLOAD_TASKINFO = 58"

definition MSG_ID_RSP_DOWNLOAD_TASKINFO :: u8 where
  "MSG_ID_RSP_DOWNLOAD_TASKINFO = 59"

definition MSG_ID_REQ_DOWNLOAD_FILE_WRONG :: u8 where
  "MSG_ID_REQ_DOWNLOAD_FILE_WRONG = 60"

definition MSG_ID_RSP_DOWNLOAD_FILE_WRONG :: u8 where
  "MSG_ID_RSP_DOWNLOAD_FILE_WRONG = 61"

definition MSG_ID_REQ_CLEAR_DOWNLOAD_TASK :: u8 where
  "MSG_ID_REQ_CLEAR_DOWNLOAD_TASK = 62"

definition MSG_ID_REQ_REGISTER_NEWPP :: u8 where
  "MSG_ID_REQ_REGISTER_NEWPP = 63"

definition MSG_ID_RSP_REGISTER_NEWPP :: u8 where
  "MSG_ID_RSP_REGISTER_NEWPP = 64"

definition MSG_ID_NOTICE_FILESLICE_BACKUP :: u8 where
  "MSG_ID_NOTICE_FILESLICE_BACKUP = 65"

definition MSG_ID_REQ_TRANSFER_DOWNLOAD :: u8 where
  "MSG_ID_REQ_TRANSFER_DOWNLOAD = 66"

definition MSG_ID_RSP_TRANSFER_DOWNLOAD :: u8 where
  "MSG_ID_RSP_TRANSFER_DOWNLOAD = 67"

definition MSG_ID_REQ_TRANSFER_DOWNLOAD_WRONG :: u8 where
  "MSG_ID_REQ_TRANSFER_DOWNLOAD_WRONG = 68"

definition MSG_ID_RSP_TRANSFER_DOWNLOAD_WRONG :: u8 where
  "MSG_ID_RSP_TRANSFER_DOWNLOAD_WRONG = 69"

definition MSG_ID_RSP_TRANSFER_DOWNLOAD_RESULT :: u8 where
  "MSG_ID_RSP_TRANSFER_DOWNLOAD_RESULT = 70"

definition MSG_ID_REQ_REPORT_BACKUP_SLICE_RESULT :: u8 where
  "MSG_ID_REQ_REPORT_BACKUP_SLICE_RESULT = 71"

definition MSG_ID_RSP_REPORT_BACKUP_SLICE_RESULT :: u8 where
  "MSG_ID_RSP_REPORT_BACKUP_SLICE_RESULT = 72"

definition MSG_ID_REQ_FILE_BACKUP_STATUS :: u8 where
  "MSG_ID_REQ_FILE_BACKUP_STATUS = 73"

definition MSG_ID_RSP_FILE_BACKUP_STATUS :: u8 where
  "MSG_ID_RSP_FILE_BACKUP_STATUS = 74"

definition MSG_ID_REQ_FILE_REPLICA_INFO :: u8 where
  "MSG_ID_REQ_FILE_REPLICA_INFO = 75"

definition MSG_ID_RSP_FILE_REPLICA_INFO :: u8 where
  "MSG_ID_RSP_FILE_REPLICA_INFO = 76"

definition MSG_ID_REQ_FILE_STATUS :: u8 where
  "MSG_ID_REQ_FILE_STATUS = 77"

definition MSG_ID_RSP_FILE_STATUS :: u8 where
  "MSG_ID_RSP_FILE_STATUS = 78"

definition MSG_ID_REQ_SHARELINK :: u8 where
  "MSG_ID_REQ_SHARELINK = 79"

definition MSG_ID_RSP_SHARELINK :: u8 where
  "MSG_ID_RSP_SHARELINK = 80"

definition MSG_ID_REQ_SHARE_FILE :: u8 where
  "MSG_ID_REQ_SHARE_FILE = 81"

definition MSG_ID_RSP_SHARE_FILE :: u8 where
  "MSG_ID_RSP_SHARE_FILE = 82"

definition MSG_ID_REQ_DELETE_SHARE :: u8 where
  "MSG_ID_REQ_DELETE_SHARE = 83"

definition MSG_ID_RSP_DELETE_SHARE :: u8 where
  "MSG_ID_RSP_DELETE_SHARE = 84"

definition MSG_ID_REQ_GET_SHAREFILE :: u8 where
  "MSG_ID_REQ_GET_SHAREFILE = 85"

definition MSG_ID_RSP_GET_SHAREFILE :: u8 where
  "MSG_ID_RSP_GET_SHAREFILE = 86"

definition MSG_ID_REQ_SP_LATENCY_CHECK :: u8 where
  "MSG_ID_REQ_SP_LATENCY_CHECK = 87"

definition MSG_ID_RSP_SP_LATENCY_CHECK :: u8 where
  "MSG_ID_RSP_SP_LATENCY_CHECK = 88"

definition MSG_ID_REQ_REPORT_NODESTATUS :: u8 where
  "MSG_ID_REQ_REPORT_NODESTATUS = 89"

definition MSG_ID_RSP_REPORT_NODESTATUS :: u8 where
  "MSG_ID_RSP_REPORT_NODESTATUS = 90"

definition MSG_ID_REQ_SP_STATUS :: u8 where
  "MSG_ID_REQ_SP_STATUS = 91"

definition MSG_ID_RSP_SP_STATUS :: u8 where
  "MSG_ID_RSP_SP_STATUS = 92"

definition MSG_ID_REQ_BLS_SIGNATURE :: u8 where
  "MSG_ID_REQ_BLS_SIGNATURE = 93"

definition MSG_ID_RSP_BLS_SIGNATURE :: u8 where
  "MSG_ID_RSP_BLS_SIGNATURE = 94"

definition MSG_ID_RSP_BADVERSION :: u8 where
  "MSG_ID_RSP_BADVERSION = 95"

definition MSG_ID_NOTICE_SP_UNDERMAINTENANCE :: u8 where
  "MSG_ID_NOTICE_SP_UNDERMAINTENANCE = 96"

definition MSG_ID_REQ_CLEAR_EXPIRED_SHARE_LINKS :: u8 where
  "MSG_ID_REQ_CLEAR_EXPIRED_SHARE_LINKS = 97"

definition MSG_ID_RSP_CLEAR_EXPIRED_SHARE_LINKS :: u8 where
  "MSG_ID_RSP_CLEAR_EXPIRED_SHARE_LINKS = 98"

definition MSG_ID_NOTICE_RELOCATE_SP :: u8 where
  "MSG_ID_NOTICE_RELOCATE_SP = 99"

definition MSG_ID_NOTICE_FILESLICE_VERIFY :: u8 where
  "MSG_ID_NOTICE_FILESLICE_VERIFY = 100"

definition MSG_ID_REQ_VERIFY_DOWNLOAD :: u8 where
  "MSG_ID_REQ_VERIFY_DOWNLOAD = 101"

definition MSG_ID_RSP_VERIFY_DOWNLOAD :: u8 where
  "MSG_ID_RSP_VERIFY_DOWNLOAD = 102"

definition MSG_ID_REQ_VERIFY_RESULT :: u8 where
  "MSG_ID_REQ_VERIFY_RESULT = 103"

definition MSG_ID_RSP_VERIFY_RESULT :: u8 where
  "MSG_ID_RSP_VERIFY_RESULT = 104"

definition MSG_ID_RSP_VERIFY_DOWNLOAD_RESULT :: u8 where
  "MSG_ID_RSP_VERIFY_DOWNLOAD_RESULT = 105"

definition NUMBER_MESSAGE_TYPES :: u8 where
  "NUMBER_MESSAGE_TYPES = 106"

text \<open>The constants in the order of their declaration, which \<open>iota\<close> numbers from 0.\<close>

definition msg_ids :: "u8 list" where
  "msg_ids =
    [MSG_ID_INVALID, MSG_ID_REQ_GET_SPLIST, MSG_ID_RSP_GET_SPLIST,
     MSG_ID_REQ_GET_PPSTATUS, MSG_ID_RSP_GET_PPSTATUS, MSG_ID_REQ_GET_PPDOWNGRADEINFO,
     MSG_ID_RSP_GET_PPDOWNGRADEINFO, MSG_ID_REQ_GET_WALLETOZ, MSG_ID_RSP_GET_WALLETOZ,
     MSG_ID_REQ_REGISTER, MSG_ID_RSP_REGISTER, MSG_ID_REQ_ACTIVATE_PP,
     MSG_ID_RSP_ACTIVATE_PP, MSG_ID_NOTICE_ACTIVATED_SP, MSG_ID_REQ_UPDATE_STAKE_PP,
     MSG_ID_RSP_UPDATE_STAKE_PP, MSG_ID_NOTICE_STATE_CHANGE_PP, MSG_ID_REQ_STATE_CHANGE_PP,
     MSG_ID_RSP_STATE_CHANGE_PP, MSG_ID_REQ_UPDATED_STAKE_SP, MSG_ID_REQ_DEACTIVATE_PP,
     MSG_ID_RSP_DEACTIVATE_PP, MSG_ID_NOTICE_UNBONDING_PP, MSG_ID_NOTICE_ACTIVATE_PP,
     MSG_ID_RSP_PPREGISTERED_TO_SP, MSG_ID_REQ_PREPAY, MSG_ID_RSP_PREPAY,
     MSG_ID_REQ_PREPAID, MSG_ID_RSP_PREPAID, MSG_ID_REQ_MINING,
     MSG_ID_RSP_MINING, MSG_ID_REQ_START_MAINTENANCE, MSG_ID_RSP_START_MAINTENANCE,
     MSG_ID_REQ_STOP_MAINTENANCE, MSG_ID_RSP_STOP_MAINTENANCE, MSG_ID_REQ_UPLOAD_FILE,
     MSG_ID_RSP_UPLOAD_FILE, MSG_ID_REQ_UPLOAD_FILESLICE, MSG_ID_RSP_UPLOAD_FILESLICE,
     MSG_ID_REQ_BACKUP_FILESLICE, MSG_ID_RSP_BACKUP_FILESLICE, MSG_ID_REQ_UPLOAD_SLICES_WRONG,
     MSG_ID_RSP_UPLOAD_SLICES_WRONG, MSG_ID_REQ_REPORT_UPLOAD_SLICE_RESULT, MSG_ID_RSP_REPORT_UPLOAD_SLICE_RESULT,
     MSG_ID_UPLOAD_SPEED_OF_PROGRESS, MSG_ID_REQ_FIND_MY_FILELIST, MSG_ID_RSP_FIND_MY_FILELIST,
     MSG_ID_REQ_DELETE_FILE, MSG_ID_RSP_DELETE_FILE, MSG_ID_REQ_GET_HDINFO,
     MSG_ID_RSP_GET_HDINFO, MSG_ID_REQ_FILE_STORAGEINFO, MSG_ID_RSP_FILE_STORAGEINFO,
     MSG_ID_REQ_DOWNLOAD_SLICE, MSG_ID_RSP_DOWNLOAD_SLICE, MSG_ID_REQ_REPORT_DOWNLOAD_RESULT,
     MSG_ID_RSP_REPORT_DOWNLOAD_RESULT, MSG_ID_REQ_DOWNLOAD_TASKINFO, MSG_ID_RSP_DOWNLOAD_TASKINFO,
     MSG_ID_REQ_DOWNLOAD_FILE_WRONG, MSG_ID_RSP_DOWNLOAD_FILE_WRONG, MSG_ID_REQ_CLEAR_DOWNLOAD_TASK,
     MSG_ID_REQ_REGISTER_NEWPP, MSG_ID_RSP_REGISTER_NEWPP, MSG_ID_NOTICE_FILESLICE_BACKUP,
     MSG_ID_REQ_TRANSFER_DOWNLOAD, MSG_ID_RSP_TRANSFER_DOWNLOAD, MSG_ID_REQ_TRANSFER_DOWNLOAD_WRONG,
     MSG_ID_RSP_TRANSFER_DOWNLOAD_WRONG, MSG_ID_RSP_TRANSFER_DOWNLOAD_RESULT, MSG_ID_REQ_REPORT_BACKUP_SLICE_RESULT,
     MSG_ID_RSP_REPORT_BACKUP_SLICE_RESULT, MSG_ID_REQ_FILE_BACKUP_STATUS, MSG_ID_RSP_FILE_BACKUP_STATUS,
     MSG_ID_REQ_FILE_REPLICA_INFO, MSG_ID_RSP_FILE_REPLICA_INFO, MSG_ID_REQ_FILE_STATUS,
     MSG_ID_RSP_FILE_STATUS, MSG_ID_REQ_SHARELINK, MSG_ID_RSP_SHARELINK,
     MSG_ID_REQ_SHARE_FILE, MSG_ID_RSP_SHARE_FILE, MSG_ID_REQ_DELETE_SHARE,
     MSG_ID_RSP_DELETE_SHARE, MSG_ID_REQ_GET_SHAREFILE, MSG_ID_RSP_GET_SHAREFILE,
     MSG_ID_REQ_SP_LATENCY_CHECK, MSG_ID_RSP_SP_LATENCY_CHECK, MSG_ID_REQ_REPORT_NODESTATUS,
     MSG_ID_RSP_REPORT_NODESTATUS, MSG_ID_REQ_SP_STATUS, MSG_ID_RSP_SP_STATUS,
     MSG_ID_REQ_BLS_SIGNATURE, MSG_ID_RSP_BLS_SIGNATURE, MSG_ID_RSP_BADVERSION,
     MSG_ID_NOTICE_SP_UNDERMAINTENANCE, MSG_ID_REQ_CLEAR_EXPIRED_SHARE_LINKS, MSG_ID_RSP_CLEAR_EXPIRED_SHARE_LINKS,
     MSG_ID_NOTICE_RELOCATE_SP, MSG_ID_NOTICE_FILESLICE_VERIFY, MSG_ID_REQ_VERIFY_DOWNLOAD,
     MSG_ID_RSP_VERIFY_DOWNLOAD, MSG_ID_REQ_VERIFY_RESULT, MSG_ID_RSP_VERIFY_RESULT,
     MSG_ID_RSP_VERIFY_DOWNLOAD_RESULT, NUMBER_MESSAGE_TYPES]"

lemmas msg_id_defs =
  MSG_ID_INVALID_def
  MSG_ID_REQ_GET_SPLIST_def
  MSG_ID_RSP_GET_SPLIST_def
  MSG_ID_REQ_GET_PPSTATUS_def
  MSG_ID_RSP_GET_PPSTATUS_def
  MSG_ID_REQ_GET_PPDOWNGRADEINFO_def
  MSG_ID_RSP_GET_PPDOWNGRADEINFO_def
  MSG_ID_REQ_GET_WALLETOZ_def
  MSG_ID_RSP_GET_WALLETOZ_def
  MSG_ID_REQ_REGISTER_def
  MSG_ID_RSP_REGISTER_def
  MSG_ID_REQ_ACTIVATE_PP_def
  MSG_ID_RSP_ACTIVATE_PP_def
  MSG_ID_NOTICE_ACTIVATED_SP_def
  MSG_ID_REQ_UPDATE_STAKE_PP_def
  MSG_ID_RSP_UPDATE_STAKE_PP_def
  MSG_ID_NOTICE_STATE_CHANGE_PP_def
  MSG_ID_REQ_STATE_CHANGE_PP_def
  MSG_ID_RSP_STATE_CHANGE_PP_def
  MSG_ID_REQ_UPDATED_STAKE_SP_def
  MSG_ID_REQ_DEACTIVATE_PP_def
  MSG_ID_RSP_DEACTIVATE_PP_def
  MSG_ID_NOTICE_UNBONDING_PP_def
  MSG_ID_NOTICE_ACTIVATE_PP_def
  MSG_ID_RSP_PPREGISTERED_TO_SP_def
  MSG_ID_REQ_PREPAY_def
  MSG_ID_RSP_PREPAY_def
  MSG_ID_REQ_PREPAID_def
  MSG_ID_RSP_PREPAID_def
  MSG_ID_REQ_MINING_def
  MSG_ID_RSP_MINING_def
  MSG_ID_REQ_START_MAINTENANCE_def
  MSG_ID_RSP_START_MAINTENANCE_def
  MSG_ID_REQ_STOP_MAINTENANCE_def
  MSG_ID_RSP_STOP_MAINTENANCE_def
  MSG_ID_REQ_UPLOAD_FILE_def
  MSG_ID_RSP_UPLOAD_FILE_def
  MSG_ID_REQ_UPLOAD_FILESLICE_def
  MSG_ID_RSP_UPLOAD_FILESLICE_def
  MSG_ID_REQ_BACKUP_FILESLICE_def
  MSG_ID_RSP_BACKUP_FILESLICE_def
  MSG_ID_REQ_UPLOAD_SLICES_WRONG_def
  MSG_ID_RSP_UPLOAD_SLICES_WRONG_def
  MSG_ID_REQ_REPORT_UPLOAD_SLICE_RESULT_def
  MSG_ID_RSP_REPORT_UPLOAD_SLICE_RESULT_def
  MSG_ID_UPLOAD_SPEED_OF_PROGRESS_def
  MSG_ID_REQ_FIND_MY_FILELIST_def
  MSG_ID_RSP_FIND_MY_FILELIST_def
  MSG_ID_REQ_DELETE_FILE_def
  MSG_ID_RSP_DELETE_FILE_def
  MSG_ID_REQ_GET_HDINFO_def
  MSG_ID_RSP_GET_HDINFO_def
  MSG_ID_REQ_FILE_STORAGEINFO_def
  MSG_ID_RSP_FILE_STORAGEINFO_def
  MSG_ID_REQ_DOWNLOAD_SLICE_def
  MSG_ID_RSP_DOWNLOAD_SLICE_def
  MSG_ID_REQ_REPORT_DOWNLOAD_RESULT_def
  MSG_ID_RSP_REPORT_DOWNLOAD_RESULT_def
  MSG_ID_REQ_DOWNLOAD_TASKINFO_def
  MSG_ID_RSP_DOWNLOAD_TASKINFO_def
  MSG_ID_REQ_DOWNLOAD_FILE_WRONG_def
  MSG_ID_RSP_DOWNLOAD_FILE_WRONG_def
  MSG_ID_REQ_CLEAR_DOWNLOAD_TASK_def
  MSG_ID_REQ_REGISTER_NEWPP_def
  MSG_ID_RSP_REGISTER_NEWPP_def
  MSG_ID_NOTICE_FILESLICE_BACKUP_def
  MSG_ID_REQ_TRANSFER_DOWNLOAD_def
  MSG_ID_RSP_TRANSFER_DOWNLOAD_def
  MSG_ID_REQ_TRANSFER_DOWNLOAD_WRONG_def
  MSG_ID_RSP_TRANSFER_DOWNLOAD_WRONG_def
  MSG_ID_RSP_TRANSFER_DOWNLOAD_RESULT_def
  MSG_ID_REQ_REPORT_BACKUP_SLICE_RESULT_def
  MSG_ID_RSP_REPORT_BACKUP_SLICE_RESULT_def
  MSG_ID_REQ_FILE_BACKUP_STATUS_def
  MSG_ID_RSP_FILE_BACKUP_STATUS_def
  MSG_ID_REQ_FILE_REPLICA_INFO_def
  MSG_ID_RSP_FILE_REPLICA_INFO_def
  MSG_ID_REQ_FILE_STATUS_def
  MSG_ID_RSP_FILE_STATUS_def
  MSG_ID_REQ_SHARELINK_def
  MSG_ID_RSP_SHARELINK_def
  MSG_ID_REQ_SHARE_FILE_def
  MSG_ID_RSP_SHARE_FILE_def
  MSG_ID_REQ_DELETE_SHARE_def
  MSG_ID_RSP_DELETE_SHARE_def
  MSG_ID_REQ_GET_SHAREFILE_def
  MSG_ID_RSP_GET_SHAREFILE_def
  MSG_ID_REQ_SP_LATENCY_CHECK_def
  MSG_ID_RSP_SP_LATENCY_CHECK_def
  MSG_ID_REQ_REPORT_NODESTATUS_def
  MSG_ID_RSP_REPORT_NODESTATUS_def
  MSG_ID_REQ_SP_STATUS_def
  MSG_ID_RSP_SP_STATUS_def
  MSG_ID_REQ_BLS_SIGNATURE_def
  MSG_ID_RSP_BLS_SIGNATURE_def
  MSG_ID_RSP_BADVERSION_def
  MSG_ID_NOTICE_SP_UNDERMAINTENANCE_def
  MSG_ID_REQ_CLEAR_EXPIRED_SHARE_LINKS_def
  MSG_ID_RSP_CLEAR_EXPIRED_SHARE_LINKS_def
  MSG_ID_NOTICE_RELOCATE_SP_def
  MSG_ID_NOTICE_FILESLICE_VERIFY_def
  MSG_ID_REQ_VERIFY_DOWNLOAD_def
  MSG_ID_RSP_VERIFY_DOWNLOAD_def
  MSG_ID_REQ_VERIFY_RESULT_def
  MSG_ID_RSP_VERIFY_RESULT_def
  MSG_ID_RSP_VERIFY_DOWNLOAD_RESULT_def
  NUMBER_MESSAGE_TYPES_def

lemma msg_ids_iota: "msg_ids = map word_of_nat [0..<107]"
  by (simp add: msg_ids_def msg_id_defs upt_conv_Cons)

section \<open>The registry\<close>

record MsgType =
  mt_Id :: u8
  mt_Name :: string

text \<open>
  The package variables are named by their identifiers; \<open>registeredMessages\<close> holds pointers to
  them, so an entry is the name of a variable and reading through it reads the variable.
\<close>

record msg_registry =
  msg_vars :: "string \<Rightarrow> MsgType"
  registeredMessages :: "string option list"

definition zero_registry :: msg_registry where
  "zero_registry = \<lparr>msg_vars = (\<lambda>_. \<lparr>mt_Id = 0, mt_Name = []\<rparr>),
     registeredMessages = replicate (unat NUMBER_MESSAGE_TYPES) None\<rparr>"

definition registerOneMessageType ::
  "msg_registry \<Rightarrow> string \<Rightarrow> u8 \<Rightarrow> string \<Rightarrow> msg_registry go" where
  "registerOneMessageType R msgtype i name =
     (let R' = R\<lparr>msg_vars := (msg_vars R)(msgtype := \<lparr>mt_Id = i, mt_Name = name\<rparr>)\<rparr>
      in if unat i < length (registeredMessages R')
         then Ret (R'\<lparr>registeredMessages := (registeredMessages R')[unat i := Some msgtype]\<rparr>)
         else Panic ''index out of range'')"

definition init_registrations :: "(string \<times> u8 \<times> string) list" where
  "init_registrations =
    [(''ReqGetSPList'', MSG_ID_REQ_GET_SPLIST, ''ReqGSPL''),
     (''RspGetSPList'', MSG_ID_RSP_GET_SPLIST, ''RspGSPL''),
     (''ReqGetPPStatus'', MSG_ID_REQ_GET_PPSTATUS, ''ReqGPPS''),
     (''RspGetPPStatus'', MSG_ID_RSP_GET_PPSTATUS, ''RspGPPS''),
     (''ReqGetPPDowngradeInfo'', MSG_ID_REQ_GET_PPDOWNGRADEINFO, ''ReqGPPD''),
     (''RspGetPPDowngradeInfo'', MSG_ID_RSP_GET_PPDOWNGRADEINFO, ''RspGPPD''),
     (''ReqGetWalletOz'', MSG_ID_REQ_GET_WALLETOZ, ''ReqGOz''),
     (''RspGetWalletOz'', MSG_ID_RSP_GET_WALLETOZ, ''RspGOz''),
     (''ReqRegister'', MSG_ID_REQ_REGISTER, ''ReqReg''),
     (''RspRegister'', MSG_ID_RSP_REGISTER, ''RspReg''),
     (''ReqActivatePP'', MSG_ID_REQ_ACTIVATE_PP, ''ReqActvp''),
     (''RspActivatePP'', MSG_ID_RSP_ACTIVATE_PP, ''RspActvp''),
     (''NoticeActivatedPP'', MSG_ID_NOTICE_ACTIVATED_SP, ''NotActdp''),
     (''ReqUpdateDepositPP'', MSG_ID_REQ_UPDATE_STAKE_PP, ''ReqUpp''),
     (''RspUpdateDepositPP'', MSG_ID_RSP_UPDATE_STAKE_PP, ''RspUpp''),
     (''NoticeUpdatedDepositPP'', MSG_ID_NOTICE_STATE_CHANGE_PP, ''NotUptdp''),
     (''ReqStateChangePP'', MSG_ID_REQ_STATE_CHANGE_PP, ''ReqSCpp''),
     (''RspStateChangePP'', MSG_ID_RSP_STATE_CHANGE_PP, ''RspSCpp''),
     (''ReqUpdatedStakeSP'', MSG_ID_REQ_UPDATED_STAKE_SP, ''ReqUptds''),
     (''ReqDeactivatePP'', MSG_ID_REQ_DEACTIVATE_PP, ''ReqDctvp''),
     (''RspDeactivatePP'', MSG_ID_RSP_DEACTIVATE_PP, ''RspDctvp''),
     (''NoticeUnbondingPP'', MSG_ID_NOTICE_UNBONDING_PP, ''NotUbdp''),
     (''NoticeDeactivatedPP'', MSG_ID_NOTICE_ACTIVATE_PP, ''NotDctdp''),
     (''RspPPRegisteredToSP'', MSG_ID_RSP_PPREGISTERED_TO_SP, ''Rspbdsp''),
     (''ReqPrepay'', MSG_ID_REQ_PREPAY, ''ReqPrpay''),
     (''RspPrepay'', MSG_ID_RSP_PREPAY, ''RspPrpay''),
     (''ReqPrepaid'', MSG_ID_REQ_PREPAID, ''ReqPrpad''),
     (''RspPrepaid'', MSG_ID_RSP_PREPAID, ''RspPrpad''),
     (''ReqMining'', MSG_ID_REQ_MINING, ''ReqMin''),
     (''RspMining'', MSG_ID_RSP_MINING, ''RspMin''),
     (''NoticeRelocateSp'', MSG_ID_NOTICE_RELOCATE_SP, ''NotRelSp''),
     (''ReqStartMaintenance'', MSG_ID_REQ_START_MAINTENANCE, ''ReqStMtn''),
     (''RspStartMaintenance'', MSG_ID_RSP_START_MAINTENANCE, ''RspStMtn''),
     (''ReqStopMaintenance'', MSG_ID_REQ_STOP_MAINTENANCE, ''ReqSpMtn''),
     (''RspStopMaintenance'', MSG_ID_RSP_STOP_MAINTENANCE, ''RspSpMtn''),
     (''ReqUploadFile'', MSG_ID_REQ_UPLOAD_FILE, ''ReqUpl''),
     (''RspUploadFile'', MSG_ID_RSP_UPLOAD_FILE, ''RspUpl''),
     (''ReqUploadFileSlice'', MSG_ID_REQ_UPLOAD_FILESLICE, ''ReqUpLFS''),
     (''RspUploadFileSlice'', MSG_ID_RSP_UPLOAD_FILESLICE, ''RspUpLFS''),
     (''ReqBackupFileSlice'', MSG_ID_REQ_BACKUP_FILESLICE, ''ReqBULFS''),
     (''RspBackupFileSlice'', MSG_ID_RSP_BACKUP_FILESLICE, ''RspBULFS''),
     (''ReqUploadSlicesWrong'', MSG_ID_REQ_UPLOAD_SLICES_WRONG, ''ReqUSW''),
     (''RspUploadSlicesWrong'', MSG_ID_RSP_UPLOAD_SLICES_WRONG, ''RspUSW''),
     (''ReqReportUploadSliceResult'', MSG_ID_REQ_REPORT_UPLOAD_SLICE_RESULT, ''ReqUFR''),
     (''RspReportUploadSliceResult'', MSG_ID_RSP_REPORT_UPLOAD_SLICE_RESULT, ''RspUFR''),
     (''UploadSpeedOfProgress'', MSG_ID_UPLOAD_SPEED_OF_PROGRESS, ''USOP''),
     (''ReqFindMyFileList'', MSG_ID_REQ_FIND_MY_FILELIST, ''ReqFFL''),
     (''RspFindMyFileList'', MSG_ID_RSP_FIND_MY_FILELIST, ''RspFFL''),
     (''ReqDeleteFile'', MSG_ID_REQ_DELETE_FILE, ''ReqDF''),
     (''RspDeleteFile'', MSG_ID_RSP_DELETE_FILE, ''RspDF''),
     (''ReqGetHDInfo'', MSG_ID_REQ_GET_HDINFO, ''ReqHDI''),
     (''RspGetHDInfo'', MSG_ID_RSP_GET_HDINFO, ''RspHDI''),
     (''ReqFileStorageInfo'', MSG_ID_REQ_FILE_STORAGEINFO, ''ReqQDLF''),
     (''RspFileStorageInfo'', MSG_ID_RSP_FILE_STORAGEINFO, ''RspQDLF''),
     (''ReqDownloadSlice'', MSG_ID_REQ_DOWNLOAD_SLICE, ''ReqDLFS''),
     (''RspDownloadSlice'', MSG_ID_RSP_DOWNLOAD_SLICE, ''RspDLFS''),
     (''ReqReportDownloadResult'', MSG_ID_REQ_REPORT_DOWNLOAD_RESULT, ''ReqDLRep''),
     (''RspReportDownloadResult'', MSG_ID_RSP_REPORT_DOWNLOAD_RESULT, ''RspDLRep''),
     (''ReqDownloadTaskInfo'', MSG_ID_REQ_DOWNLOAD_TASKINFO, ''ReqDLTI''),
     (''RspDownloadTaskInfo'', MSG_ID_RSP_DOWNLOAD_TASKINFO, ''RspDLTI''),
     (''ReqDownloadFileWrong'', MSG_ID_REQ_DOWNLOAD_FILE_WRONG, ''ReqDFW''),
     (''RspDownloadFileWrong'', MSG_ID_RSP_DOWNLOAD_FILE_WRONG, ''RspDFW''),
     (''ReqClearDownloadTask'', MSG_ID_REQ_CLEAR_DOWNLOAD_TASK, ''ReqCDT''),
     (''ReqRegisterNewPP'', MSG_ID_REQ_REGISTER_NEWPP, ''ReqRgNPP''),
     (''RspRegisterNewPP'', MSG_ID_RSP_REGISTER_NEWPP, ''RspRgNPP''),
     (''NoticeFileSliceBackup'', MSG_ID_NOTICE_FILESLICE_BACKUP, ''NotFSB''),
     (''ReqTransferDownload'', MSG_ID_REQ_TRANSFER_DOWNLOAD, ''ReqTdl''),
     (''RspTransferDownload'', MSG_ID_RSP_TRANSFER_DOWNLOAD, ''RspTdl''),
     (''ReqTransferDownloadWrong'', MSG_ID_REQ_TRANSFER_DOWNLOAD_WRONG, ''ReqTDW''),
     (''RspTransferDownloadWrong'', MSG_ID_RSP_TRANSFER_DOWNLOAD_WRONG, ''RspTDW''),
     (''NoticeFileSliceVerify'', MSG_ID_NOTICE_FILESLICE_VERIFY, ''NotFSV''),
     (''ReqVerifyDownload'', MSG_ID_REQ_VERIFY_DOWNLOAD, ''ReqVdl''),
     (''RspVerifyDownload'', MSG_ID_RSP_VERIFY_DOWNLOAD, ''RspVdl''),
     (''ReqReportVerifyResult'', MSG_ID_REQ_VERIFY_RESULT, ''ReqVR''),
     (''RspReportVerifyResult'', MSG_ID_RSP_VERIFY_RESULT, ''RspVR''),
     (''RspVerifyDownloadResult'', MSG_ID_RSP_VERIFY_DOWNLOAD_RESULT, ''RspVdlR''),
     (''RspTransferDownloadResult'', MSG_ID_RSP_TRANSFER_DOWNLOAD_RESULT, ''RspTdlR''),
     (''ReqReportBackupSliceResult'', MSG_ID_REQ_REPORT_BACKUP_SLICE_RESULT, ''ReqRBSR''),
     (''RspReportBackupSliceResult'', MSG_ID_RSP_REPORT_BACKUP_SLICE_RESULT, ''RspRBSR''),
     (''ReqFileBackupStatus'', MSG_ID_REQ_FILE_BACKUP_STATUS, ''ReqFBSt''),
     (''RspFileBackupStatus'', MSG_ID_RSP_FILE_BACKUP_STATUS, ''RspFBSt''),
     (''ReqFileReplicaInfo'', MSG_ID_REQ_FILE_REPLICA_INFO, ''ReqFRpIn''),
     (''RspFileReplicaInfo'', MSG_ID_RSP_FILE_REPLICA_INFO, ''RspFRpIn''),
     (''ReqFileStatus'', MSG_ID_REQ_FILE_STATUS, ''ReqFStat''),
     (''RspFileStatus'', MSG_ID_RSP_FILE_STATUS, ''RspFStat''),
     (''ReqShareLink'', MSG_ID_REQ_SHARELINK, ''ReqSL''),
     (''RspShareLink'', MSG_ID_RSP_SHARELINK, ''RspSL''),
     (''ReqShareFile'', MSG_ID_REQ_SHARE_FILE, ''ReqSF''),
     (''RspShareFile'', MSG_ID_RSP_SHARE_FILE, ''RspSF''),
     (''ReqDeleteShare'', MSG_ID_REQ_DELETE_SHARE, ''ReqDSF''),
     (''RspDeleteShare'', MSG_ID_RSP_DELETE_SHARE, ''RspDSF''),
     (''ReqGetShareFile'', MSG_ID_REQ_GET_SHAREFILE, ''ReqGSF''),
     (''RspGetShareFile'', MSG_ID_RSP_GET_SHAREFILE, ''RspGSF''),
     (''ReqSpLatencyCheck'', MSG_ID_REQ_SP_LATENCY_CHECK, ''ReqSpLat''),
     (''RspSpLatencyCheck'', MSG_ID_RSP_SP_LATENCY_CHECK, ''RspSpLat''),
     (''ReqReportNodeStatus'', MSG_ID_REQ_REPORT_NODESTATUS, ''ReqRNS''),
     (''RspReportNodeStatus'', MSG_ID_RSP_REPORT_NODESTATUS, ''RspRNS''),
     (''ReqSpStatus'', MSG_ID_REQ_SP_STATUS, ''ReqSpSta''),
     (''RspSpStatus'', MSG_ID_RSP_SP_STATUS, ''RspSpSta''),
     (''ReqBLSSignature'', MSG_ID_REQ_BLS_SIGNATURE, ''ReqBLS''),
     (''RspBLSSignature'', MSG_ID_RSP_BLS_SIGNATURE, ''RspBLS''),
     (''RspBadVersion'', MSG_ID_RSP_BADVERSION, ''RspBdVer''),
     (''NoticeSpUnderMaintenance'', MSG_ID_NOTICE_SP_UNDERMAINTENANCE, ''NotMtnc''),
     (''ReqClearExpiredShareLinks'', MSG_ID_REQ_CLEAR_EXPIRED_SHARE_LINKS, ''ReqCESL''),
     (''RspClearExpiredShareLinks'', MSG_ID_RSP_CLEAR_EXPIRED_SHARE_LINKS, ''RspCESL'')]"

fun register_all :: "msg_registry \<Rightarrow> (string \<times> u8 \<times> string) list \<Rightarrow> msg_registry go" where
  "register_all R [] = Ret R"
| "register_all R ((v, i, n) # rs) = go_bind (registerOneMessageType R v i n) (\<lambda>R'. register_all R' rs)"

definition init_registry :: "msg_registry go" where
  "init_registry = register_all zero_registry init_registrations"

definition GetMsgTypeFromId :: "msg_registry \<Rightarrow> u8 \<Rightarrow> MsgType option" where
  "GetMsgTypeFromId R i =
     (if NUMBER_MESSAGE_TYPES \<le> i then None
      else map_option (msg_vars R) (registeredMessages R ! unat i))"

section \<open>The request that a response answers\<close>

definition GetReqIdFromRspId :: "u8 \<Rightarrow> u8" where
  "GetReqIdFromRspId reqId =
    (if reqId = MSG_ID_RSP_GET_SPLIST then MSG_ID_REQ_GET_SPLIST else
     if reqId = MSG_ID_RSP_GET_PPSTATUS then MSG_ID_REQ_GET_PPSTATUS else
     if reqId = MSG_ID_RSP_GET_PPDOWNGRADEINFO then MSG_ID_REQ_GET_PPDOWNGRADEINFO else
     if reqId = MSG_ID_RSP_GET_WALLETOZ then MSG_ID_REQ_GET_WALLETOZ else
     if reqId = MSG_ID_RSP_REGISTER then MSG_ID_REQ_REGISTER else
     if reqId = MSG_ID_RSP_ACTIVATE_PP then MSG_ID_REQ_ACTIVATE_PP else
     if reqId = MSG_ID_RSP_UPDATE_STAKE_PP then MSG_ID_REQ_UPDATE_STAKE_PP else
     if reqId = MSG_ID_RSP_STATE_CHANGE_PP then MSG_ID_REQ_STATE_CHANGE_PP else
     if reqId = MSG_ID_RSP_DEACTIVATE_PP then MSG_ID_REQ_DEACTIVATE_PP else
     if reqId = MSG_ID_RSP_PREPAY then MSG_ID_REQ_PREPAY else
     if reqId = MSG_ID_RSP_PREPAID then MSG_ID_REQ_PREPAID else
     if reqId = MSG_ID_RSP_MINING then MSG_ID_REQ_MINING else
     if reqId = MSG_ID_RSP_START_MAINTENANCE then MSG_ID_REQ_START_MAINTENANCE else
     if reqId = MSG_ID_RSP_STOP_MAINTENANCE then MSG_ID_REQ_STOP_MAINTENANCE else
     if reqId = MSG_ID_RSP_UPLOAD_FILE then MSG_ID_REQ_UPLOAD_FILE else
     if reqId = MSG_ID_RSP_UPLOAD_FILESLICE then MSG_ID_REQ_UPLOAD_FILESLICE else
     if reqId = MSG_ID_RSP_BACKUP_FILESLICE then MSG_ID_REQ_BACKUP_FILESLICE else
     if reqId = MSG_ID_RSP_UPLOAD_SLICES_WRONG then MSG_ID_REQ_UPLOAD_SLICES_WRONG else
     if reqId = MSG_ID_RSP_REPORT_UPLOAD_SLICE_RESULT then MSG_ID_REQ_REPORT_UPLOAD_SLICE_RESULT else
     if reqId = MSG_ID_RSP_FIND_MY_FILELIST then MSG_ID_REQ_FIND_MY_FILELIST else
     if reqId = MSG_ID_RSP_DELETE_FILE then MSG_ID_REQ_DELETE_FILE else
     if reqId = MSG_ID_RSP_GET_HDINFO then MSG_ID_REQ_GET_HDINFO else
     if reqId = MSG_ID_RSP_FILE_STORAGEINFO then MSG_ID_REQ_FILE_STORAGEINFO else
     if reqId = MSG_ID_RSP_DOWNLOAD_SLICE then MSG_ID_REQ_DOWNLOAD_SLICE else
     if reqId = MSG_ID_RSP_REPORT_DOWNLOAD_RESULT then MSG_ID_REQ_REPORT_DOWNLOAD_RESULT else
     if reqId = MSG_ID_RSP_DOWNLOAD_TASKINFO then MSG_ID_REQ_DOWNLOAD_TASKINFO else
     if reqId = MSG_ID_RSP_DOWNLOAD_FILE_WRONG then MSG_ID_REQ_DOWNLOAD_FILE_WRONG else
     if reqId = MSG_ID_RSP_REGISTER_NEWPP then MSG_ID_REQ_REGISTER_NEWPP else
     if reqId = MSG_ID_RSP_TRANSFER_DOWNLOAD then MSG_ID_REQ_TRANSFER_DOWNLOAD else
     if reqId = MSG_ID_RSP_TRANSFER_DOWNLOAD_WRONG then MSG_ID_REQ_TRANSFER_DOWNLOAD_WRONG else
     if reqId = MSG_ID_RSP_VERIFY_DOWNLOAD then MSG_ID_RSP_VERIFY_DOWNLOAD else
     if reqId = MSG_ID_RSP_REPORT_BACKUP_SLICE_RESULT then MSG_ID_REQ_REPORT_BACKUP_SLICE_RESULT else
     if reqId = MSG_ID_RSP_FILE_BACKUP_STATUS then MSG_ID_REQ_FILE_BACKUP_STATUS else
     if reqId = MSG_ID_RSP_FILE_REPLICA_INFO then MSG_ID_REQ_FILE_REPLICA_INFO else
     if reqId = MSG_ID_RSP_FILE_STATUS then MSG_ID_REQ_FILE_STATUS else
     if reqId = MSG_ID_RSP_SHARELINK then MSG_ID_REQ_SHARELINK else
     if reqId = MSG_ID_RSP_SHARE_FILE then MSG_ID_REQ_SHARE_FILE else
     if reqId = MSG_ID_RSP_DELETE_SHARE then MSG_ID_REQ_DELETE_SHARE else
     if reqId = MSG_ID_RSP_GET_SHAREFILE then MSG_ID_REQ_GET_SHAREFILE else
     if reqId = MSG_ID_RSP_SP_LATENCY_CHECK then MSG_ID_REQ_SP_LATENCY_CHECK else
     if reqId = MSG_ID_RSP_REPORT_NODESTATUS then MSG_ID_REQ_REPORT_NODESTATUS else
     if reqId = MSG_ID_RSP_SP_STATUS then MSG_ID_REQ_SP_STATUS else
     if reqId = MSG_ID_RSP_BLS_SIGNATURE then MSG_ID_REQ_BLS_SIGNATURE else
     if reqId = MSG_ID_RSP_CLEAR_EXPIRED_SHARE_LINKS then MSG_ID_REQ_CLEAR_EXPIRED_SHARE_LINKS else
     MSG_ID_INVALID)"

lemma GetReqIdFromRspId_pred:
  "GetReqIdFromRspId r \<noteq> MSG_ID_INVALID \<Longrightarrow> r \<noteq> MSG_ID_RSP_VERIFY_DOWNLOAD \<Longrightarrow>
     GetReqIdFromRspId r + 1 = r"
  by (auto simp: GetReqIdFromRspId_def msg_id_defs split: if_splits)

end
