(* ===== verification/Msg_Registry.thy ===== *)
theory Msg_Registry
  imports Msg_Types
begin

text \<open>
  What the initialisation of the message registry establishes: after \<open>init\<close> the lookup of a
  type by its id and the pairing of responses with requests agree with the names under which
  the types were registered.
\<close>

section \<open>Registration\<close>

abbreviation reg_vars :: "(string \<times> u8 \<times> string) list \<Rightarrow> string list" where
  "reg_vars rs \<equiv> map fst rs"

abbreviation reg_ids :: "(string \<times> u8 \<times> string) list \<Rightarrow> u8 list" where
  "reg_ids rs \<equiv> map (\<lambda>r. fst (snd r)) rs"

abbreviation reg_names :: "(string \<times> u8 \<times> string) list \<Rightarrow> string list" where
  "reg_names rs \<equiv> map (\<lambda>r. snd (snd r)) rs"

lemma register_all_lookup:
  assumes "distinct (reg_vars rs)" "distinct (reg_ids rs)"
    and "\<forall>i \<in> set (reg_ids rs). unat i < length (registeredMessages R)"
  shows "\<exists>R'. register_all R rs = Ret R' \<and>
      (\<forall>(v, i, n) \<in> set rs. registeredMessages R' ! unat i = Some v \<and>
         msg_vars R' v = \<lparr>mt_Id = i, mt_Name = n\<rparr>) \<and>
      (\<forall>k. k \<notin> unat ` set (reg_ids rs) \<longrightarrow> registeredMessages R' ! k = registeredMessages R ! k) \<and>
      (\<forall>v. v \<notin> set (reg_vars rs) \<longrightarrow> msg_vars R' v = msg_vars R v)"
  using assms
proof (induction rs arbitrary: R)
  case Nil
  then show ?case by simp
next
  case (Cons r rs)
  obtain v i n where r: "r = (v, i, n)" by (cases r)
  let ?R = "R\<lparr>msg_vars := (msg_vars R)(v := \<lparr>mt_Id = i, mt_Name = n\<rparr>),
      registeredMessages := (registeredMessages R)[unat i := Some v]\<rparr>"
  have reg: "registerOneMessageType R v i n = Ret ?R" and i: "unat i < length (registeredMessages R)"
    using Cons.prems by (auto simp: registerOneMessageType_def r)
  have fresh: "v \<notin> set (reg_vars rs)" "i \<notin> set (reg_ids rs)"
    using Cons.prems by (simp_all add: r)
  then have unat_fresh: "unat i \<notin> unat ` set (reg_ids rs)"
    by (metis imageE word_unat_eq_iff)
  obtain R' where R': "register_all ?R rs = Ret R'"
    and new: "\<forall>(v, i, n) \<in> set rs. registeredMessages R' ! unat i = Some v \<and>
         msg_vars R' v = \<lparr>mt_Id = i, mt_Name = n\<rparr>"
    and old: "\<forall>k. k \<notin> unat ` set (reg_ids rs) \<longrightarrow>
         registeredMessages R' ! k = registeredMessages ?R ! k"
      "\<forall>v. v \<notin> set (reg_vars rs) \<longrightarrow> msg_vars R' v = msg_vars ?R v"
    using Cons.IH [of ?R] Cons.prems by (auto simp: r)
  have head: "registeredMessages R' ! unat i = Some v" "msg_vars R' v = \<lparr>mt_Id = i, mt_Name = n\<rparr>"
    using old fresh(1) unat_fresh i by auto
  have "\<forall>k. k \<notin> unat ` set (reg_ids (r # rs)) \<longrightarrow> registeredMessages R' ! k = registeredMessages R ! k"
    using old(1) by (auto simp: r)
  moreover have "\<forall>w. w \<notin> set (reg_vars (r # rs)) \<longrightarrow> msg_vars R' w = msg_vars R w"
    using old(2) by (auto simp: r)
  ultimately show ?case
    using R' new head by (auto simp: r reg)
qed

lemma init_vars_distinct: "distinct (reg_vars init_registrations)"
  by (rule pivot_distinct_sound) code_simp

lemma init_ids_sorted: "sort (map unat (reg_ids init_registrations)) = [1..<106]"
  by code_simp

lemma init_ids_distinct: "distinct (reg_ids init_registrations)"
proof -
  have "distinct (sort (map unat (reg_ids init_registrations)))"
    by (simp only: init_ids_sorted distinct_upt)
  then have "distinct (map unat (reg_ids init_registrations))" by (simp only: distinct_sort)
  then show ?thesis by (simp only: distinct_map [of unat])
qed

lemma init_ids_set: "unat ` set (reg_ids init_registrations) = {1..<106}"
proof -
  have "set (sort (map unat (reg_ids init_registrations))) = {1..<106}"
    by (simp only: init_ids_sorted set_upt)
  then show ?thesis by (simp only: set_sort set_map image_comp)
qed

lemma init_registry_lookup:
  obtains R where "init_registry = Ret R"
    and "\<And>i t. GetMsgTypeFromId R i = Some t \<longleftrightarrow>
      (\<exists>v. (v, i, mt_Name t) \<in> set init_registrations \<and> mt_Id t = i)"
proof -
  have "\<forall>i \<in> set (reg_ids init_registrations). unat i < length (registeredMessages zero_registry)"
  proof
    fix i assume "i \<in> set (reg_ids init_registrations)"
    then have "unat i \<in> {1..<106}" unfolding init_ids_set [symmetric] by (rule imageI)
    then show "unat i < length (registeredMessages zero_registry)"
      by (simp add: zero_registry_def NUMBER_MESSAGE_TYPES_def)
  qed
  from register_all_lookup [OF init_vars_distinct init_ids_distinct this]
  obtain R where R: "init_registry = Ret R"
    and all: "\<forall>(v, i, n) \<in> set init_registrations. registeredMessages R ! unat i = Some v \<and>
        msg_vars R v = \<lparr>mt_Id = i, mt_Name = n\<rparr>"
    and old: "\<And>k. k \<notin> {1..<106} \<Longrightarrow> registeredMessages R ! k = registeredMessages zero_registry ! k"
    unfolding init_ids_set init_registry_def by blast
  from all have new: "registeredMessages R ! unat i = Some v \<and> msg_vars R v = \<lparr>mt_Id = i, mt_Name = n\<rparr>"
    if "(v, i, n) \<in> set init_registrations" for v i n
    using that by blast
  have "GetMsgTypeFromId R i = Some t \<longleftrightarrow>
      (\<exists>v. (v, i, mt_Name t) \<in> set init_registrations \<and> mt_Id t = i)" (is "?l \<longleftrightarrow> ?r") for i t
  proof (cases "unat i \<in> {1..<106}")
    case True
    then obtain v n where "(v, i, n) \<in> set init_registrations"
      unfolding init_ids_set [symmetric] by (auto dest: word_unat_eq_iff [THEN iffD2])
    with True new show ?thesis
      by (fastforce simp: GetMsgTypeFromId_def NUMBER_MESSAGE_TYPES_def word_le_nat_alt)
  next
    case False
    then have "\<not> ?r" using init_ids_set by force
    moreover have "\<not> ?l"
    proof (cases "unat i = 0")
      case True
      then show ?thesis using old [of 0]
        by (simp add: GetMsgTypeFromId_def zero_registry_def NUMBER_MESSAGE_TYPES_def)
    next
      case nonzero: False
      with False have "106 \<le> unat i" by auto
      then show ?thesis
        by (simp add: GetMsgTypeFromId_def NUMBER_MESSAGE_TYPES_def word_le_nat_alt)
    qed
    ultimately show ?thesis by blast
  qed
  with R show thesis by (rule that)
qed

section \<open>Pairing of responses with requests\<close>

definition name_pairs :: "(u8 \<times> u8) list" where
  "name_pairs =
     (let rq = filter (\<lambda>(v, i, n). take 3 n = ''Req'') init_registrations;
          rs = filter (\<lambda>(v, i, n). take 3 n = ''Rsp'') init_registrations
      in concat (map (\<lambda>(v, i, n). map (\<lambda>(w, j, m). (i, j))
            (filter (\<lambda>(w, j, m). drop 3 m = drop 3 n) rq)) rs))"

lemma name_pairsI:
  assumes "(v, i, ''Rsp'' @ x) \<in> set init_registrations" "(w, j, ''Req'' @ x) \<in> set init_registrations"
  shows "(i, j) \<in> set name_pairs"
  using assms by (force simp: name_pairs_def Let_def)

lemma name_pairs_switch:
  "list_all (\<lambda>(i, j). GetReqIdFromRspId i =
      (if i = MSG_ID_RSP_VERIFY_DOWNLOAD then i
       else if i = MSG_ID_RSP_VERIFY_RESULT then MSG_ID_INVALID else j)) name_pairs"
  by code_simp

section \<open>Properties\<close>

text \<open>C7: package initialisation does not panic, and afterwards the lookup by id returns, for
  every id strictly between \<open>MSG_ID_INVALID\<close> and \<open>NUMBER_MESSAGE_TYPES\<close>, the type registered
  with exactly that id, and nil for every other id.\<close>
theorem registry_complete:
  "\<exists>R. init_registry = Ret R \<and>
     (\<forall>i. case GetMsgTypeFromId R i of
            None \<Rightarrow> i = MSG_ID_INVALID \<or> NUMBER_MESSAGE_TYPES \<le> i
          | Some t \<Rightarrow> mt_Id t = i \<and> MSG_ID_INVALID < i \<and> i < NUMBER_MESSAGE_TYPES \<and>
              (\<exists>v. (v, i, mt_Name t) \<in> set init_registrations))"
proof -
  obtain R where R: "init_registry = Ret R"
    and look: "\<And>i t. GetMsgTypeFromId R i = Some t \<longleftrightarrow>
      (\<exists>v. (v, i, mt_Name t) \<in> set init_registrations \<and> mt_Id t = i)"
    by (rule init_registry_lookup) blast
  have "case GetMsgTypeFromId R i of
            None \<Rightarrow> i = MSG_ID_INVALID \<or> NUMBER_MESSAGE_TYPES \<le> i
          | Some t \<Rightarrow> mt_Id t = i \<and> MSG_ID_INVALID < i \<and> i < NUMBER_MESSAGE_TYPES \<and>
              (\<exists>v. (v, i, mt_Name t) \<in> set init_registrations)" for i
  proof (cases "GetMsgTypeFromId R i")
    case None
    then have "\<nexists>v n. (v, i, n) \<in> set init_registrations"
      using look [of i "\<lparr>mt_Id = i, mt_Name = _\<rparr>"] by auto
    then have "unat i \<notin> {1..<106}"
      unfolding init_ids_set [symmetric] by (auto dest: word_unat_eq_iff [THEN iffD2])
    then have "i = 0 \<or> 106 \<le> unat i" by (auto simp: word_unat_eq_iff)
    then show ?thesis
      by (auto simp: None MSG_ID_INVALID_def NUMBER_MESSAGE_TYPES_def word_le_nat_alt)
  next
    case (Some t)
    with look obtain v where v: "(v, i, mt_Name t) \<in> set init_registrations" "mt_Id t = i" by blast
    then have "unat i \<in> {1..<106}"
      unfolding init_ids_set [symmetric] by force
    with v show ?thesis
      by (auto simp: Some MSG_ID_INVALID_def NUMBER_MESSAGE_TYPES_def word_less_nat_alt)
  qed
  with R show ?thesis by blast
qed

text \<open>C8: when a response type and a request type carry the names \<open>Rsp<x>\<close> and \<open>Req<x>\<close>,
  \<open>GetReqIdFromRspId\<close> maps the response's id to the request's id, with two exceptions:
  \<open>MSG_ID_RSP_VERIFY_DOWNLOAD\<close> is mapped to itself, and \<open>MSG_ID_RSP_VERIFY_RESULT\<close> has no case.\<close>
theorem response_request_pairing:
  assumes "init_registry = Ret R"
    and "GetMsgTypeFromId R i = Some t" "mt_Name t = ''Rsp'' @ x"
    and "GetMsgTypeFromId R j = Some u" "mt_Name u = ''Req'' @ x"
  shows "GetReqIdFromRspId i =
    (if i = MSG_ID_RSP_VERIFY_DOWNLOAD then MSG_ID_RSP_VERIFY_DOWNLOAD
     else if i = MSG_ID_RSP_VERIFY_RESULT then MSG_ID_INVALID else j)"
proof -
  from assms obtain v w where "(v, i, ''Rsp'' @ x) \<in> set init_registrations"
    "(w, j, ''Req'' @ x) \<in> set init_registrations"
    by (metis init_registry_lookup go.inject(1))
  then have "(i, j) \<in> set name_pairs" by (rule name_pairsI)
  with name_pairs_switch show ?thesis
    by (auto simp: list_all_iff)
qed

theorem response_request_pairing_witness:
  "\<exists>R t u. init_registry = Ret R \<and>
     GetMsgTypeFromId R MSG_ID_RSP_REGISTER = Some t \<and> mt_Name t = ''Rsp'' @ ''Reg'' \<and>
     GetMsgTypeFromId R MSG_ID_REQ_REGISTER = Some u \<and> mt_Name u = ''Req'' @ ''Reg'' \<and>
     GetReqIdFromRspId MSG_ID_RSP_REGISTER = MSG_ID_REQ_REGISTER"
proof -
  obtain R where R: "init_registry = Ret R"
    and look: "\<And>i t. GetMsgTypeFromId R i = Some t \<longleftrightarrow>
      (\<exists>v. (v, i, mt_Name t) \<in> set init_registrations \<and> mt_Id t = i)"
    by (rule init_registry_lookup) blast
  let ?t = "\<lparr>mt_Id = MSG_ID_RSP_REGISTER, mt_Name = ''Rsp'' @ ''Reg''\<rparr>"
  let ?u = "\<lparr>mt_Id = MSG_ID_REQ_REGISTER, mt_Name = ''Req'' @ ''Reg''\<rparr>"
  have mem: "(''RspRegister'', MSG_ID_RSP_REGISTER, ''RspReg'') \<in> set init_registrations"
    "(''ReqRegister'', MSG_ID_REQ_REGISTER, ''ReqReg'') \<in> set init_registrations"
    by (simp_all add: init_registrations_def)
  then have t: "GetMsgTypeFromId R MSG_ID_RSP_REGISTER = Some ?t"
    and u: "GetMsgTypeFromId R MSG_ID_REQ_REGISTER = Some ?u"
    by (auto simp: look)
  have "GetReqIdFromRspId MSG_ID_RSP_REGISTER = MSG_ID_REQ_REGISTER"
    using response_request_pairing [OF R t _ u, of "''Reg''"] by (simp add: msg_id_defs)
  with R t u show ?thesis by force
qed

end
