(* ===== verification/Wire.thy ===== *)
theory Wire
  imports Msg_Types
begin

text \<open>
  The wire format of a message: the byte conversions of \<open>framework/utils/tools.go\<close>, the message
  head of \<open>framework/msg/header/header.go\<close>, the signature block of \<open>framework/msg/sign.go\<close> and
  the assembly of a packet in \<open>framework/msg/msg.go\<close>. Signed and unsigned integers of a width
  share a word type; a Go string at this level is its bytes.
\<close>

section \<open>Byte conversions\<close>

text \<open>
  \<open>binary.Read\<close> of a fixed-size integer consumes exactly its size and leaves the variable at
  its zero value when there are too few bytes; the converters ignore the error.
\<close>

definition BytesToInt16 :: "bytes \<Rightarrow> u16" where
  "BytesToInt16 b = (if length b < 2 then 0 else word_of_nat (be_get (take 2 b)))"

definition BytesToInt64 :: "bytes \<Rightarrow> u64" where
  "BytesToInt64 b = (if length b < 8 then 0 else word_of_nat (be_get (take 8 b)))"

definition BytesToUInt64 :: "bytes \<Rightarrow> u64" where
  "BytesToUInt64 b = (if length b < 8 then 0 else word_of_nat (be_get (take 8 b)))"

definition BytesToUInt32 :: "bytes \<Rightarrow> u32" where
  "BytesToUInt32 b = (if length b < 4 then 0 else word_of_nat (be_get (take 4 b)))"

definition BytesToUint16 :: "bytes \<Rightarrow> u16" where
  "BytesToUint16 b = (if length b < 2 then 0 else word_of_nat (be_get (take 2 b)))"

definition Int16ToBytes :: "u16 \<Rightarrow> bytes" where
  "Int16ToBytes n = be_put 2 (unat n)"

definition Uint64ToBytes :: "u64 \<Rightarrow> bytes" where
  "Uint64ToBytes n = be_put 8 (unat n)"

definition Uint32ToBytes :: "u32 \<Rightarrow> bytes" where
  "Uint32ToBytes n = be_put 4 (unat n)"

definition Uint16ToBytes :: "u16 \<Rightarrow> bytes" where
  "Uint16ToBytes n = be_put 2 (unat n)"

definition Uint8ToBytes :: "u8 \<Rightarrow> bytes" where
  "Uint8ToBytes n = [n]"

definition Int64ToByte :: "u64 \<Rightarrow> bytes" where
  "Int64ToByte n = be_put 8 (unat n)"

function ByteToString_from :: "bytes \<Rightarrow> nat \<Rightarrow> bytes" where
  "ByteToString_from p i =
     (if i < length p then (if p ! i = 0 then take i p else ByteToString_from p (Suc i)) else p)"
  by pat_completeness auto
termination
  by (relation "measure (\<lambda>(p, i). length p - i)") auto

declare ByteToString_from.simps [simp del]

definition ByteToString :: "bytes \<Rightarrow> bytes" where
  "ByteToString p = ByteToString_from p 0"

definition MergeByte :: "bytes list \<Rightarrow> bytes" where
  "MergeByte b = foldl (\<lambda>buf bb. buf @ bb) [] b"

definition MergeBytes :: "bytes \<Rightarrow> bytes \<Rightarrow> bytes" where
  "MergeBytes a b =
     (let data = replicate (length a + length b) 0;
          data1 = fst (go_copy (take (length a) data) 0 a) @ drop (length a) data
      in fst (go_copy data1 (length a) b))"

lemma unat_bound_16: "unat (n :: u16) < 256 ^ 2"
  using unsigned_less [of n] by simp

lemma unat_bound_32: "unat (n :: u32) < 256 ^ 4"
  using unsigned_less [of n] by simp

lemma unat_bound_64: "unat (n :: u64) < 256 ^ 8"
  using unsigned_less [of n] by simp

lemmas bytes_of_int_defs =
  Int16ToBytes_def Uint64ToBytes_def Uint32ToBytes_def Uint16ToBytes_def Uint8ToBytes_def
  Int64ToByte_def

lemmas int_of_bytes_defs =
  BytesToInt16_def BytesToInt64_def BytesToUInt64_def BytesToUInt32_def BytesToUint16_def

lemmas be_get_unat =
  be_get_put [OF unat_bound_16] be_get_put [OF unat_bound_32] be_get_put [OF unat_bound_64]

lemma length_bytes_of_int [simp, width_simps]:
  "length (Int16ToBytes a) = 2" "length (Uint16ToBytes a) = 2" "length (Uint32ToBytes b) = 4"
  "length (Uint64ToBytes c) = 8" "length (Int64ToByte c) = 8" "length (Uint8ToBytes d) = 1"
  by (simp_all add: bytes_of_int_defs)

interpretation int16: fixed_width Int16ToBytes BytesToInt16 2
  by unfold_locales (simp_all add: Int16ToBytes_def BytesToInt16_def be_get_unat)

interpretation uint16: fixed_width Uint16ToBytes BytesToUint16 2
  by unfold_locales (simp_all add: Uint16ToBytes_def BytesToUint16_def be_get_unat)

interpretation uint32: fixed_width Uint32ToBytes BytesToUInt32 4
  by unfold_locales (simp_all add: Uint32ToBytes_def BytesToUInt32_def be_get_unat)

interpretation uint64: fixed_width Uint64ToBytes BytesToUInt64 8
  by unfold_locales (simp_all add: Uint64ToBytes_def BytesToUInt64_def be_get_unat)

interpretation int64: fixed_width Int64ToByte BytesToInt64 8
  by unfold_locales (simp_all add: Int64ToByte_def BytesToInt64_def be_get_unat)

interpretation uint8: fixed_width Uint8ToBytes hd 1
  by unfold_locales (simp_all add: Uint8ToBytes_def)

lemmas dec_enc_ints =
  int16.dec_enc uint16.dec_enc uint32.dec_enc uint64.dec_enc int64.dec_enc uint8.dec_enc

lemma ByteToString_from_spec:
  "(\<forall>j < i. j < length p \<longrightarrow> p ! j \<noteq> 0) \<Longrightarrow> ByteToString_from p i = takeWhile (\<lambda>c. c \<noteq> 0) p"
proof (induction p i rule: ByteToString_from.induct)
  case (1 p i)
  show ?case
  proof (cases "i < length p \<and> p ! i \<noteq> 0")
    case True
    with 1 have "\<forall>j < Suc i. j < length p \<longrightarrow> p ! j \<noteq> 0" by (auto simp: less_Suc_eq)
    with True 1 show ?thesis by (simp add: ByteToString_from.simps [of p i])
  next
    case False
    have "takeWhile (\<lambda>c. c \<noteq> 0) p = take (min i (length p)) p"
      using False 1(2) by (intro takeWhile_eq_take_P_nth) (auto simp: min_def split: if_splits)
    with False show ?thesis by (auto simp: ByteToString_from.simps [of p i])
  qed
qed

lemma MergeByte_concat: "MergeByte b = concat b"
proof -
  have "foldl (\<lambda>buf bb. buf @ bb) acc b = acc @ concat b" for acc
    by (induction b arbitrary: acc) auto
  then show ?thesis by (simp add: MergeByte_def)
qed

lemma MergeBytes_append: "MergeBytes a b = a @ b"
  by (simp add: MergeBytes_def Let_def go_copy_def)

section \<open>The message head\<close>

definition MsgHeaderLen :: nat where
  "MsgHeaderLen = 21"

record MessageHead =
  Tag :: u16
  Len :: u32
  DataLen :: u32
  Cmd :: u8
  ReqId :: u64
  Version :: u16

definition MakeMessageHeader :: "u16 \<Rightarrow> u16 \<Rightarrow> u32 \<Rightarrow> MsgType \<Rightarrow> MessageHead" where
  "MakeMessageHeader tag version len cmd =
     \<lparr>Tag = tag, Len = len, DataLen = 0, Cmd = mt_Id cmd, ReqId = 0, Version = version\<rparr>"

definition CopyMessageHeader :: "MessageHead \<Rightarrow> MessageHead" where
  "CopyMessageHeader mh =
     \<lparr>Tag = Tag mh, Len = Len mh, DataLen = DataLen mh, Cmd = Cmd mh, ReqId = ReqId mh,
      Version = Version mh\<rparr>"

definition MessageHead_Encode :: "MessageHead \<Rightarrow> bytes \<Rightarrow> bytes \<times> nat" where
  "MessageHead_Encode h data =
     copy_seq data 0
       [Int16ToBytes (Tag h), Uint32ToBytes (Len h), Uint32ToBytes (DataLen h),
        Uint8ToBytes (Cmd h), Uint64ToBytes (ReqId h), Uint16ToBytes (Version h)]"

text \<open>
  \<open>Decode\<close> slices its argument at fixed offsets; a slice of a packet that is too short panics.
\<close>

definition MessageHead_Decode :: "bytes \<Rightarrow> MessageHead go" where
  "MessageHead_Decode packet =
     (if length packet < MsgHeaderLen then Panic ''slice bounds out of range''
      else Ret \<lparr>Tag = BytesToInt16 (take 2 packet),
                Len = BytesToUInt32 (take 4 (drop 2 packet)),
                DataLen = BytesToUInt32 (take 4 (drop 6 packet)),
                Cmd = packet ! 10,
                ReqId = BytesToUInt64 (take 8 (drop 11 packet)),
                Version = BytesToUint16 (take 2 (drop 19 packet))\<rparr>)"

definition head_bytes :: "MessageHead \<Rightarrow> bytes" where
  "head_bytes h = Int16ToBytes (Tag h) @ Uint32ToBytes (Len h) @ Uint32ToBytes (DataLen h) @
     Uint8ToBytes (Cmd h) @ Uint64ToBytes (ReqId h) @ Uint16ToBytes (Version h)"

definition head_of :: "bytes \<Rightarrow> MessageHead" where
  "head_of b = (case MessageHead_Decode b of Ret h \<Rightarrow> h | Panic _ \<Rightarrow> MakeMessageHeader 0 0 0 \<lparr>mt_Id = 0, mt_Name = []\<rparr>)"

lemma length_head_bytes [simp, width_simps]: "length (head_bytes h) = MsgHeaderLen"
  by (simp add: head_bytes_def MsgHeaderLen_def)

lemma MessageHead_Encode_bytes:
  assumes "MsgHeaderLen \<le> length data"
  shows "MessageHead_Encode h data = (head_bytes h @ drop MsgHeaderLen data, MsgHeaderLen)"
  using assms copy_seq_fits [of 0 "[Int16ToBytes (Tag h), Uint32ToBytes (Len h),
    Uint32ToBytes (DataLen h), Uint8ToBytes (Cmd h), Uint64ToBytes (ReqId h),
    Uint16ToBytes (Version h)]" data]
  by (simp add: MessageHead_Encode_def head_bytes_def MsgHeaderLen_def)

lemma MessageHead_Decode_bytes: "MessageHead_Decode (head_bytes h) = Ret h"
proof -
  have "head_bytes h ! 10 = Cmd h"
    by (simp add: head_bytes_def nth_append Uint8ToBytes_def)
  then show ?thesis
    by (simp add: MessageHead_Decode_def) (simp add: head_bytes_def dec_enc_ints MsgHeaderLen_def)
qed

interpretation head: fixed_width head_bytes head_of MsgHeaderLen
  by unfold_locales (simp_all add: head_of_def MessageHead_Decode_bytes)

section \<open>The signature block\<close>

definition P2pAddressBech32Length :: nat where
  "P2pAddressBech32Length = 44"

definition PubKeySize :: nat where
  "PubKeySize = 32"

definition SignatureSize :: nat where
  "SignatureSize = 64"

definition MsgSignLen :: nat where
  "MsgSignLen = SignatureSize + P2pAddressBech32Length + PubKeySize"

definition ThresholdToHashBeforeSign :: nat where
  "ThresholdToHashBeforeSign = 128"

text \<open>
  \<open>Signer\<close> is a function value of the struct: it returns an error or the signature. A nil slice
  is \<open>None\<close>.
\<close>

record MessageSign =
  Signature :: "bytes option"
  P2pAddress :: bytes
  P2pPubKey :: "bytes option"
  Signer :: "bytes \<Rightarrow> string + bytes"

text \<open>
  The primitives the signature block is built on: the digest \<open>CalcHashBytes\<close>, the check that a
  bech32 address belongs to a public key, and the check of an ed25519 signature.
\<close>

record p2p_crypto =
  CalcHashBytes :: "bytes \<Rightarrow> bytes"
  VerifyP2pAddrBytes :: "bytes \<Rightarrow> bytes \<Rightarrow> bool"
  VerifyP2pSignBytes :: "bytes \<Rightarrow> bytes \<Rightarrow> bytes \<Rightarrow> bool"

definition sign_msg :: "p2p_crypto \<Rightarrow> bytes \<Rightarrow> bytes" where
  "sign_msg C hb = (if ThresholdToHashBeforeSign < length hb then CalcHashBytes C hb else hb)"

definition MessageSign_Sign :: "p2p_crypto \<Rightarrow> MessageSign \<Rightarrow> bytes \<Rightarrow> string + MessageSign" where
  "MessageSign_Sign C s hb =
     (case Signer s (sign_msg C hb) of
        Inl err \<Rightarrow> Inl err
      | Inr signature \<Rightarrow> Inr (s\<lparr>Signature := Some signature\<rparr>))"

datatype verify_error =
  MissingInformation | WrongSourceAddress | AddressKeyMismatch | WrongSignature

definition MessageSign_Verify ::
  "p2p_crypto \<Rightarrow> MessageSign \<Rightarrow> bytes \<Rightarrow> bytes \<Rightarrow> verify_error option" where
  "MessageSign_Verify C s hb remoteP2pAddr =
     (if P2pAddress s = [] then Some MissingInformation
      else case (P2pPubKey s, Signature s) of
        (Some pk, Some sg) \<Rightarrow>
          if P2pAddress s \<noteq> remoteP2pAddr then Some WrongSourceAddress
          else if \<not> VerifyP2pAddrBytes C pk (P2pAddress s) then Some AddressKeyMismatch
          else if \<not> VerifyP2pSignBytes C pk sg (sign_msg C hb) then Some WrongSignature
          else None
      | _ \<Rightarrow> Some MissingInformation)"

definition slice_bytes :: "bytes option \<Rightarrow> bytes" where
  "slice_bytes b = (case b of None \<Rightarrow> [] | Some x \<Rightarrow> x)"

definition MessageSign_Encode :: "MessageSign \<Rightarrow> bytes \<Rightarrow> bytes \<times> nat" where
  "MessageSign_Encode s sign =
     copy_seq sign 0 [P2pAddress s, slice_bytes (P2pPubKey s), slice_bytes (Signature s)]"

definition MessageSign_Decode :: "MessageSign \<Rightarrow> bytes \<Rightarrow> (MessageSign \<times> nat) go" where
  "MessageSign_Decode s sign =
     (if length sign < MsgSignLen then Panic ''slice bounds out of range''
      else Ret (s\<lparr>P2pAddress := take P2pAddressBech32Length sign,
                  P2pPubKey := Some (take PubKeySize (drop P2pAddressBech32Length sign)),
                  Signature := Some (take SignatureSize
                    (drop (P2pAddressBech32Length + PubKeySize) sign))\<rparr>, MsgSignLen))"

lemmas sign_sizes = P2pAddressBech32Length_def PubKeySize_def SignatureSize_def MsgSignLen_def

text \<open>A signature block whose fields have the sizes the wire format reserves for them.\<close>

definition sign_sized :: "MessageSign \<Rightarrow> bool" where
  "sign_sized s \<longleftrightarrow> length (P2pAddress s) = P2pAddressBech32Length \<and>
     length (slice_bytes (P2pPubKey s)) = PubKeySize \<and>
     length (slice_bytes (Signature s)) = SignatureSize"

definition sign_bytes :: "MessageSign \<Rightarrow> bytes" where
  "sign_bytes s = P2pAddress s @ slice_bytes (P2pPubKey s) @ slice_bytes (Signature s)"

lemma length_sign_bytes [width_simps]: "sign_sized s \<Longrightarrow> length (sign_bytes s) = MsgSignLen"
  by (simp add: sign_bytes_def sign_sized_def MsgSignLen_def)

lemma MessageSign_Encode_bytes:
  assumes "sign_sized s" "MsgSignLen \<le> length b"
  shows "MessageSign_Encode s b = (sign_bytes s @ drop MsgSignLen b, MsgSignLen)"
  using assms
    copy_seq_fits [of 0 "[P2pAddress s, slice_bytes (P2pPubKey s), slice_bytes (Signature s)]" b]
  by (simp add: MessageSign_Encode_def sign_bytes_def sign_sized_def MsgSignLen_def ac_simps)

lemma MessageSign_Decode_bytes:
  assumes "sign_sized s"
  shows "MessageSign_Decode s0 (sign_bytes s) =
    Ret (s0\<lparr>P2pAddress := P2pAddress s, P2pPubKey := Some (slice_bytes (P2pPubKey s)),
            Signature := Some (slice_bytes (Signature s))\<rparr>, MsgSignLen)"
  using assms length_sign_bytes [OF assms]
  by (simp add: MessageSign_Decode_def) (simp add: sign_bytes_def sign_sized_def)

section \<open>Packets\<close>

record RelayMsgBuf =
  PacketId :: u64
  MSGHead :: MessageHead
  MSGSign :: MessageSign
  MSGBody :: bytes
  MSGData :: bytes

text \<open>
  \<open>PutIntoBuffer\<close> allocates the packet with the C allocator, whose memory is not cleared: the
  parameter \<open>mem\<close> is what the allocator returns. The total length is computed in \<open>uint32\<close>, and
  the array type the pointer is converted to limits it to \<open>2 ^ 30\<close>. The result is the number of
  bytes put, or 0 when signing fails, together with the packet.
\<close>

definition PutIntoBuffer ::
  "p2p_crypto \<Rightarrow> (nat \<Rightarrow> bytes) \<Rightarrow> RelayMsgBuf \<Rightarrow> RelayMsgBuf \<Rightarrow> (nat \<times> RelayMsgBuf) go" where
  "PutIntoBuffer C mem r msg =
     (let totalLength = Len (MSGHead r) + word_of_nat MsgHeaderLen + word_of_nat MsgSignLen +
            word_of_nat (length (MSGData msg));
          n = unat totalLength;
          buf = mem n
      in if 2 ^ 30 < n \<or> n < MsgHeaderLen then Panic ''slice bounds out of range''
         else
           (let (hb, i1) = MessageHead_Encode (MSGHead r) (take MsgHeaderLen buf);
                buf1 = hb @ drop MsgHeaderLen buf;
                (buf2, n2) = go_copy buf1 i1 (MSGBody msg);
                i2 = i1 + n2
            in case MessageSign_Sign C (MSGSign r) (take i2 buf2) of
                 Inl err \<Rightarrow> Ret (0, r\<lparr>MSGData := buf2\<rparr>)
               | Inr s \<Rightarrow>
                   (let (sb, n3) = MessageSign_Encode s (drop i2 buf2);
                        buf3 = take i2 buf2 @ sb;
                        (buf4, n4) = go_copy buf3 (i2 + n3) (MSGData msg)
                    in Ret (i2 + n3 + n4, r\<lparr>MSGSign := s, MSGData := buf4\<rparr>))))"

definition GetHeader :: "RelayMsgBuf \<Rightarrow> bytes" where
  "GetHeader r = take MsgHeaderLen (MSGData r)"

definition GetBytesAfterHeader :: "RelayMsgBuf \<Rightarrow> bytes" where
  "GetBytesAfterHeader r = drop MsgHeaderLen (MSGData r)"

text \<open>The packet of a message whose head announces its body and whose block is signed.\<close>

definition packet_bytes :: "MessageHead \<Rightarrow> bytes \<Rightarrow> MessageSign \<Rightarrow> bytes \<Rightarrow> bytes" where
  "packet_bytes h body s data = head_bytes h @ body @ sign_bytes s @ data"

definition well_sized :: "RelayMsgBuf \<Rightarrow> RelayMsgBuf \<Rightarrow> bool" where
  "well_sized r msg \<longleftrightarrow> unat (Len (MSGHead r)) = length (MSGBody msg) \<and>
     MsgHeaderLen + length (MSGBody msg) + MsgSignLen + length (MSGData msg) \<le> 2 ^ 30"

lemma total_length:
  assumes "well_sized r msg"
  shows "unat (Len (MSGHead r) + word_of_nat MsgHeaderLen + word_of_nat MsgSignLen +
            word_of_nat (length (MSGData msg)) :: u32)
       = MsgHeaderLen + length (MSGBody msg) + MsgSignLen + length (MSGData msg)" (is "unat ?w = ?n")
proof -
  have "Len (MSGHead r) = word_of_nat (length (MSGBody msg))"
    using assms by (metis well_sized_def of_nat_unat ucast_id)
  then have "?w = word_of_nat ?n" by (simp add: ac_simps)
  then have "unat ?w = unat (word_of_nat ?n :: u32)" by (simp only:)
  also have "\<dots> = ?n"
    using assms unfolding unat_of_nat by (intro mod_less) (simp add: well_sized_def)
  finally show ?thesis .
qed

text \<open>The state of the packet when it has been signed or signing has failed.\<close>

lemma PutIntoBuffer_unfold:
  assumes "well_sized r msg" "\<And>n. length (mem n) = n"
  shows "PutIntoBuffer C mem r msg =
    (let hb = head_bytes (MSGHead r) @ MSGBody msg;
         rest = drop (length hb) (mem (length hb + MsgSignLen + length (MSGData msg)))
     in case MessageSign_Sign C (MSGSign r) hb of
          Inl err \<Rightarrow> Ret (0, r\<lparr>MSGData := hb @ rest\<rparr>)
        | Inr s \<Rightarrow>
            (let (sb, n3) = MessageSign_Encode s rest;
                 (buf4, n4) = go_copy (hb @ sb) (length hb + n3) (MSGData msg)
             in Ret (length hb + n3 + n4, r\<lparr>MSGSign := s, MSGData := buf4\<rparr>)))"
proof -
  let ?n = "MsgHeaderLen + length (MSGBody msg) + MsgSignLen + length (MSGData msg)"
  let ?hb = "head_bytes (MSGHead r) @ MSGBody msg"
  let ?buf = "head_bytes (MSGHead r) @ drop MsgHeaderLen (mem ?n)"
  have "MessageHead_Encode (MSGHead r) (take MsgHeaderLen (mem ?n)) = (head_bytes (MSGHead r), MsgHeaderLen)"
    by (simp add: MessageHead_Encode_bytes assms)
  moreover have "go_copy ?buf MsgHeaderLen (MSGBody msg) =
      (?hb @ drop (length ?hb) (mem ?n), length (MSGBody msg))"
    by (subst go_copy_fits) (simp_all add: assms ac_simps)
  moreover have "\<not> (2 ^ 30 < ?n \<or> ?n < MsgHeaderLen)"
    using assms(1) by (simp add: well_sized_def)
  ultimately show ?thesis
    unfolding PutIntoBuffer_def Let_def total_length [OF assms(1)]
    by (simp split: sum.split)
qed

lemma PutIntoBuffer_signed:
  assumes "well_sized r msg" "\<And>n. length (mem n) = n"
    and "MessageSign_Sign C (MSGSign r) (head_bytes (MSGHead r) @ MSGBody msg) = Inr s" "sign_sized s"
  shows "PutIntoBuffer C mem r msg =
    Ret (length (packet_bytes (MSGHead r) (MSGBody msg) s (MSGData msg)),
         r\<lparr>MSGSign := s, MSGData := packet_bytes (MSGHead r) (MSGBody msg) s (MSGData msg)\<rparr>)"
proof -
  have "MsgSignLen \<le> length (drop (MsgHeaderLen + length (MSGBody msg))
      (mem (MsgHeaderLen + length (MSGBody msg) + MsgSignLen + length (MSGData msg))))"
    by (simp add: assms)
  note enc = MessageSign_Encode_bytes [OF assms(4) this]
  show ?thesis
    unfolding PutIntoBuffer_unfold [OF assms(1,2)] Let_def assms(3)
    by (simp add: enc) (simp add: go_copy_fits packet_bytes_def length_sign_bytes assms)
qed

lemma PutIntoBuffer_sign_failure:
  assumes "well_sized r msg" "\<And>n. length (mem n) = n"
    and "MessageSign_Sign C (MSGSign r) (head_bytes (MSGHead r) @ MSGBody msg) = Inl err"
  shows "PutIntoBuffer C mem r msg =
    Ret (0, r\<lparr>MSGData := head_bytes (MSGHead r) @ MSGBody msg @
      drop (MsgHeaderLen + length (MSGBody msg))
        (mem (MsgHeaderLen + length (MSGBody msg) + MsgSignLen + length (MSGData msg)))\<rparr>)"
  unfolding PutIntoBuffer_unfold [OF assms(1,2)] Let_def assms(3) by simp

lemma MessageSign_Sign_Inr:
  "MessageSign_Sign C s hb = Inr s' \<longleftrightarrow>
     (\<exists>g. Signer s (sign_msg C hb) = Inr g \<and> s' = s\<lparr>Signature := Some g\<rparr>)"
  by (auto simp: MessageSign_Sign_def split: sum.splits)


end
