(* ===== verification/Framing.thy ===== *)
theory Framing
  imports Wire
begin

text \<open>
  Framing of the byte stream (\<open>framework/core/utils.go\<close>, \<open>framework/crypto/encryption\<close>): each
  frame is an 8 byte nonce, a 4 byte length and the payload, sealed with AES-GCM when the
  connection has a key. The first message of a connection has a format of its own. The unread
  bytes of a connection are a list; reading past its end is the read error of a closed or
  timed-out connection.
\<close>

section \<open>AES-GCM\<close>

text \<open>
  The cipher itself is a parameter: \<open>gcm_seal\<close> and \<open>gcm_open\<close> take the key, the 12 byte nonce
  and the text. \<open>aes.NewCipher\<close> accepts keys of 16, 24 and 32 bytes.
\<close>

record gcm =
  gcm_seal :: "bytes \<Rightarrow> bytes \<Rightarrow> bytes \<Rightarrow> bytes"
  gcm_open :: "bytes \<Rightarrow> bytes \<Rightarrow> bytes \<Rightarrow> bytes option"

definition gcm_NonceSize :: nat where
  "gcm_NonceSize = 12"

definition aes_key_ok :: "bytes \<Rightarrow> bool" where
  "aes_key_ok key \<longleftrightarrow> length key \<in> {16, 24, 32}"

definition nonceFull :: "u64 \<Rightarrow> bytes" where
  "nonceFull nonce = replicate (gcm_NonceSize - 8) 0 @ Uint64ToBytes nonce"

definition EncryptAES :: "gcm \<Rightarrow> bytes \<Rightarrow> bytes \<Rightarrow> u64 \<Rightarrow> string + bytes" where
  "EncryptAES G key plaintext nonce =
     (if aes_key_ok key then Inr (gcm_seal G key (nonceFull nonce) plaintext)
      else Inl ''crypto/aes: invalid key size'')"

definition DecryptAES :: "gcm \<Rightarrow> bytes \<Rightarrow> bytes \<Rightarrow> u64 \<Rightarrow> string + bytes" where
  "DecryptAES G key ciphertext nonce =
     (if aes_key_ok key then
        (case gcm_open G key (nonceFull nonce) ciphertext of
           None \<Rightarrow> Inl ''cipher: message authentication failed''
         | Some plaintext \<Rightarrow> Inr plaintext)
      else Inl ''crypto/aes: invalid key size'')"

text \<open>What the documentation of GCM promises: opening inverts sealing, and the tag is 16 bytes.\<close>

definition gcm_laws :: "gcm \<Rightarrow> bool" where
  "gcm_laws G \<longleftrightarrow> (\<forall>key nonce p. gcm_open G key nonce (gcm_seal G key nonce p) = Some p \<and>
     length (gcm_seal G key nonce p) = length p + 16)"

section \<open>Frames\<close>

definition EncryptionNonceSize :: nat where
  "EncryptionNonceSize = 8"

definition EncryptionLengthSize :: nat where
  "EncryptionLengthSize = 4"

definition EncryptionHeaderSize :: nat where
  "EncryptionHeaderSize = EncryptionNonceSize + EncryptionLengthSize"

definition MessageBeatLen :: nat where
  "MessageBeatLen = 4 * 1024 * 1024"

text \<open>\<open>rnd\<close> are the eight bytes \<open>rand.Read\<close> puts into the nonce.\<close>

definition Pack :: "gcm \<Rightarrow> bytes \<Rightarrow> bytes option \<Rightarrow> bytes \<Rightarrow> string + bytes" where
  "Pack G rnd privKey plaintext =
     (case privKey of
        Some key \<Rightarrow>
          (let nonce = BytesToUInt64 rnd
           in case EncryptAES G key plaintext nonce of
                Inl err \<Rightarrow> Inl err
              | Inr ciphertext \<Rightarrow> Inr (rnd @ be_put 4 (unat (word_of_nat (length ciphertext) :: u32)) @ ciphertext))
      | None \<Rightarrow> Inr (be_put 8 0 @ be_put 4 (unat (word_of_nat (length plaintext) :: u32)) @ plaintext))"

definition unpackEncryptionHeader :: "bytes \<Rightarrow> u64 \<times> u32" where
  "unpackEncryptionHeader data =
     (if length data < EncryptionHeaderSize then (0, 0)
      else (word_of_nat (be_get (take EncryptionNonceSize data)),
            word_of_nat (be_get (take 4 (drop EncryptionNonceSize data)))))"

text \<open>\<open>io.ReadFull\<close>: the bytes read, the bytes left and whether the buffer was filled.\<close>

definition ReadFull :: "nat \<Rightarrow> bytes \<Rightarrow> bytes \<times> bytes \<times> bool" where
  "ReadFull n c = (take n c, drop n c, n \<le> length c)"

definition ReadEncryptionHeader :: "bytes \<Rightarrow> (u64 \<times> u32) option \<times> nat \<times> bytes" where
  "ReadEncryptionHeader c =
     (let (buffer, c', ok) = ReadFull EncryptionHeaderSize c
      in if ok then (Some (unpackEncryptionHeader buffer), length buffer, c')
         else (None, length buffer, c'))"

definition Unpack :: "gcm \<Rightarrow> bytes \<Rightarrow> bytes option \<Rightarrow> nat \<Rightarrow> (string + bytes) \<times> nat \<times> bytes" where
  "Unpack G c privKey maxBodySize =
     (let (hd, bytesRead, c1) = ReadEncryptionHeader c
      in case hd of
           None \<Rightarrow> (Inl ''EOF'', bytesRead, c1)
         | Some (nonce, dataLen) \<Rightarrow>
             if word_of_nat maxBodySize < dataLen then (Inl ''message body is over sized'', bytesRead, c1)
             else
               (let (buffer, c2, ok) = ReadFull (unat dataLen) c1;
                    bytesRead' = bytesRead + length buffer
                in if \<not> ok then (Inl ''EOF'', bytesRead', c2)
                   else case privKey of
                          Some key \<Rightarrow> (DecryptAES G key buffer nonce, bytesRead', c2)
                        | None \<Rightarrow> (Inr buffer, bytesRead', c2)))"

section \<open>The first message of a connection\<close>

definition ConnFirstMsgSize :: nat where
  "ConnFirstMsgSize = 30"

datatype conn_type = ConnTypeClient | ConnTypeHandshake

definition str_bytes :: "string \<Rightarrow> bytes" where
  "str_bytes s = map of_char s"

definition conn_type_bytes :: "conn_type \<Rightarrow> bytes" where
  "conn_type_bytes t = str_bytes (case t of ConnTypeClient \<Rightarrow> ''client__'' | ConnTypeHandshake \<Rightarrow> ''handshke'')"

text \<open>\<open>IP.To16\<close> of the standard library: an IPv4 address is mapped into IPv6.\<close>

definition IP_To16 :: "bytes \<Rightarrow> bytes option" where
  "IP_To16 ip =
     (if length ip = 16 then Some ip
      else if length ip = 4 then Some (replicate 10 0 @ [0xff, 0xff] @ ip)
      else None)"

definition CreateFirstMessage :: "conn_type \<Rightarrow> bytes \<Rightarrow> u16 \<Rightarrow> u32 \<Rightarrow> bytes" where
  "CreateFirstMessage connType ip serverPort channelId =
     (let buffer = replicate ConnFirstMsgSize 0;
          buffer1 = fst (go_copy (take 8 buffer) 0 (take 8 (conn_type_bytes connType))) @ drop 8 buffer;
          buffer2 = (case IP_To16 ip of
              None \<Rightarrow> buffer1
            | Some ip16 \<Rightarrow> take 8 buffer1 @ fst (go_copy (take 16 (drop 8 buffer1)) 0 ip16) @ drop 24 buffer1)
      in take 24 buffer2 @ be_put 2 (unat serverPort) @ be_put 4 (unat channelId))"

definition ParseFirstMessage :: "bytes \<Rightarrow> string + (bytes \<times> bytes \<times> u16 \<times> u32)" where
  "ParseFirstMessage data =
     (if length data \<noteq> ConnFirstMsgSize then Inl ''Invalid first message size''
      else Inr (take 8 data, take 16 (drop 8 data),
                word_of_nat (be_get (take 2 (drop 24 data))),
                word_of_nat (be_get (take 4 (drop 26 data)))))"

lemma length_conn_type_bytes [simp]: "length (conn_type_bytes t) = 8"
  by (cases t) (simp_all add: conn_type_bytes_def str_bytes_def)

lemma IP_To16_length: "IP_To16 ip = Some x \<Longrightarrow> length x = 16"
  by (auto simp: IP_To16_def split: if_splits)

lemma CreateFirstMessage_bytes:
  "CreateFirstMessage t ip port ch =
     conn_type_bytes t @ (case IP_To16 ip of None \<Rightarrow> replicate 16 0 | Some x \<Rightarrow> x) @
     be_put 2 (unat port) @ be_put 4 (unat ch)"
  by (cases "IP_To16 ip")
    (auto simp: CreateFirstMessage_def Let_def ConnFirstMsgSize_def go_copy_def IP_To16_length
      take_replicate)

lemma ParseFirstMessage_Create:
  "ParseFirstMessage (CreateFirstMessage t ip port ch) =
     Inr (conn_type_bytes t, case IP_To16 ip of None \<Rightarrow> replicate 16 0 | Some x \<Rightarrow> x, port, ch)"
  by (cases "IP_To16 ip")
    (simp_all add: ParseFirstMessage_def CreateFirstMessage_bytes ConnFirstMsgSize_def
      IP_To16_length be_get_unat)

section \<open>Frames survive the trip\<close>

text \<open>The payload a frame carries for a plaintext, and when the frame length fits its field.\<close>

definition sealed :: "gcm \<Rightarrow> bytes \<Rightarrow> bytes option \<Rightarrow> bytes \<Rightarrow> bytes" where
  "sealed G rnd privKey p =
     (case privKey of None \<Rightarrow> p | Some key \<Rightarrow> gcm_seal G key (nonceFull (BytesToUInt64 rnd)) p)"

definition frame_nonce :: "bytes \<Rightarrow> bytes option \<Rightarrow> u64" where
  "frame_nonce rnd privKey = (case privKey of None \<Rightarrow> 0 | Some key \<Rightarrow> BytesToUInt64 rnd)"

definition key_ok :: "gcm \<Rightarrow> bytes option \<Rightarrow> bool" where
  "key_ok G privKey \<longleftrightarrow> (case privKey of None \<Rightarrow> True | Some key \<Rightarrow> aes_key_ok key \<and> gcm_laws G)"

lemma frame_nonce_bytes:
  assumes "length rnd = 8"
  shows "be_put 8 (unat (frame_nonce rnd k)) = (case k of None \<Rightarrow> be_put 8 0 | Some key \<Rightarrow> rnd)"
proof -
  have "be_get rnd < 2 ^ 64" using be_get_bound [of rnd] assms by simp
  then have "unat (word_of_nat (be_get rnd) :: u64) = be_get rnd"
    by (simp add: unat_of_nat)
  then show ?thesis
    using be_put_get [of rnd] assms
    by (simp add: frame_nonce_def BytesToUInt64_def split: option.split)
qed

lemma Pack_frame:
  assumes "length rnd = 8" "key_ok G k" "length (sealed G rnd k p) < 2 ^ 32"
  shows "Pack G rnd k p =
    Inr (be_put 8 (unat (frame_nonce rnd k)) @ be_put 4 (length (sealed G rnd k p)) @ sealed G rnd k p)"
  using assms frame_nonce_bytes [OF assms(1), of k]
  by (auto simp: Pack_def sealed_def EncryptAES_def key_ok_def unat_of_nat Let_def split: option.split)

lemma ReadEncryptionHeader_frame:
  assumes "n < 2 ^ 32"
  shows "ReadEncryptionHeader (be_put 8 (unat (nonce :: u64)) @ be_put 4 n @ c) =
    (Some (nonce, word_of_nat n), EncryptionHeaderSize, c)"
  using assms be_get_put [of n 4]
  by (simp add: ReadEncryptionHeader_def ReadFull_def unpackEncryptionHeader_def
      EncryptionHeaderSize_def EncryptionNonceSize_def EncryptionLengthSize_def be_get_unat)

lemma DecryptAES_sealed:
  assumes "key_ok G (Some key)"
  shows "DecryptAES G key (sealed G rnd (Some key) p) (frame_nonce rnd (Some key)) = Inr p"
  using assms by (simp add: DecryptAES_def sealed_def frame_nonce_def key_ok_def gcm_laws_def)

lemma Unpack_frame:
  assumes "length rnd = 8" "key_ok G k" "length (sealed G rnd k p) \<le> maxBody" "maxBody < 2 ^ 32"
  shows "\<exists>f. Pack G rnd k p = Inr f \<and> length f = EncryptionHeaderSize + length (sealed G rnd k p) \<and>
    Unpack G (f @ c) k maxBody = (Inr p, length f, c)"
proof -
  let ?s = "sealed G rnd k p"
  have n: "length ?s < 2 ^ 32" using assms by simp
  then have un: "unat (word_of_nat (length ?s) :: u32) = length ?s" by (simp add: unat_of_nat)
  have over: "\<not> (word_of_nat maxBody :: u32) < word_of_nat (length ?s)"
    using assms un by (simp add: word_less_nat_alt unat_of_nat)
  note rd = ReadEncryptionHeader_frame [OF n, of "frame_nonce rnd k" "?s @ c"]
  have "Unpack G (be_put 8 (unat (frame_nonce rnd k)) @ be_put 4 (length ?s) @ ?s @ c) k maxBody =
      (Inr p, EncryptionHeaderSize + length ?s, c)"
  proof (cases k)
    case None
    with rd over un show ?thesis
      by (simp add: Unpack_def ReadFull_def Let_def) (simp add: sealed_def)
  next
    case (Some key)
    with rd over un DecryptAES_sealed [of G key rnd p] assms(2) show ?thesis
      by (simp add: Unpack_def ReadFull_def Let_def)
  qed
  then show ?thesis
    by (simp add: Pack_frame [OF assms(1,2) n] EncryptionHeaderSize_def EncryptionNonceSize_def
        EncryptionLengthSize_def)
qed

end
