(* ===== verification/Server_Conn.thy ===== *)
theory Server_Conn
  imports Framing
begin

text \<open>
  The loops of a server connection (\<open>framework/core/conn.go\<close>): \<open>Write\<close> and \<open>asyncWrite\<close> put a
  message into the send queue, \<open>writePacket\<close> sends it as two frames, \<open>readLoop\<close> reads frames,
  verifies and dispatches messages. A blocking connection is the list of its unread bytes; the
  receive buffer is a function with the bounds checks of its 4 MB size written out.
\<close>

section \<open>The receive buffer\<close>

definition buf_write :: "(nat \<Rightarrow> u8) \<Rightarrow> nat \<Rightarrow> bytes \<Rightarrow> nat \<Rightarrow> u8" where
  "buf_write f a bs = (\<lambda>k. if a \<le> k \<and> k < a + length bs then bs ! (k - a) else f k)"

definition buf_read :: "(nat \<Rightarrow> u8) \<Rightarrow> nat \<Rightarrow> nat \<Rightarrow> bytes" where
  "buf_read f a b = map f [a..<b]"

text \<open>A slice expression \<open>msgBuf[a:b]\<close>; it panics unless \<open>a \<le> b \<le> cap(msgBuf)\<close>.\<close>

definition buf_slice :: "(nat \<Rightarrow> u8) \<Rightarrow> nat \<Rightarrow> nat \<Rightarrow> bytes go" where
  "buf_slice f a b =
     (if a \<le> b \<and> b \<le> MessageBeatLen then Ret (buf_read f a b)
      else Panic ''slice bounds out of range'')"

section \<open>State\<close>

record conn_env =
  ce_crypto :: p2p_crypto
  ce_gcm :: gcm
  encryptMessage :: bool
  sharedKey :: "bytes option"
  minAppVer :: u16
  remoteP2pAddress :: bytes
  has_handler :: "u8 \<Rightarrow> bool"
  has_onRead :: bool
  bufferSize :: nat

datatype rl_event = OnRead RelayMsgBuf | BadAppVer MessageHead | HandlerCh RelayMsgBuf

record rl_state =
  listenHeader :: bool
  rl_i :: nat
  msgH :: MessageHead
  msgS :: MessageSign
  msgBuf :: "nat \<Rightarrow> u8"
  conn :: bytes
  readFlow :: nat
  events :: "rl_event list"

text \<open>
  The loop returns for one of the reasons it logs; a panic is recovered by the deferred function,
  which closes the connection like every other return.
\<close>

datatype close_reason = ReadHeaderErr | VersionMismatch | ReadEncryptionHeaderErr | OverSized |
  BodyErr | DecryptionErr | SizeMismatch | Panicked

datatype rl_iter = Continue rl_state | Closed rl_state close_reason

definition zero_sign :: MessageSign where
  "zero_sign = \<lparr>Signature = None, P2pAddress = [], P2pPubKey = None, Signer = (\<lambda>_. Inl ''nil'')\<rparr>"

definition conn_key :: "conn_env \<Rightarrow> bytes option" where
  "conn_key E = (if encryptMessage E then sharedKey E else None)"

section \<open>readLoop\<close>

definition read_header :: "conn_env \<Rightarrow> rl_state \<Rightarrow> rl_iter" where
  "read_header E st =
     (let (res, n, c) = Unpack (ce_gcm E) (conn st) (conn_key E) MessageBeatLen;
          st1 = st\<lparr>conn := c, readFlow := readFlow st + n\<rparr>
      in case res of
           Inl err \<Rightarrow> Closed st1 ReadHeaderErr
         | Inr headerBytes \<Rightarrow>
             if length headerBytes < MsgHeaderLen then Closed st1 Panicked
             else
               (let buf = buf_write (msgBuf st1) 0 (take MsgHeaderLen headerBytes);
                    st2 = st1\<lparr>msgBuf := buf\<rparr>
                in case MessageHead_Decode (buf_read buf 0 MsgHeaderLen) of
                     Panic p \<Rightarrow> Closed st2 Panicked
                   | Ret h \<Rightarrow>
                       if Version h < minAppVer E
                       then Closed (st2\<lparr>msgH := h, events := events st2 @ [BadAppVer h]\<rparr>)
                              VersionMismatch
                       else Continue (st2\<lparr>msgH := h, listenHeader := False\<rparr>)))"

text \<open>
  The second part is read in chunks of 1024 bytes; \<open>onereadlen\<close> keeps 1024 until less than that
  remains. The result is \<open>None\<close> when all bytes were received.
\<close>

function read_chunks :: "nat \<Rightarrow> nat \<Rightarrow> rl_state \<Rightarrow> rl_state \<times> close_reason option" where
  "read_chunks L pos st =
     (if rl_i st < L then
        (let onereadlen = (if L - rl_i st < 1024 then L - rl_i st else 1024)
         in if MessageBeatLen < pos + onereadlen then (st, Some Panicked)
            else
              (let (b, c, ok) = ReadFull onereadlen (conn st);
                   st1 = st\<lparr>msgBuf := buf_write (msgBuf st) pos b, conn := c,
                            readFlow := readFlow st + length b\<rparr>
               in if ok then read_chunks L (pos + length b) (st1\<lparr>rl_i := rl_i st + length b\<rparr>)
                  else (st1, Some BodyErr)))
      else (st, None))"
  by pat_completeness auto
termination
  by (relation "measure (\<lambda>(L, pos, st). L - rl_i st)") (auto simp: ReadFull_def split: if_splits)

declare read_chunks.simps [simp del]

text \<open>Decryption in place: the plaintext overwrites the ciphertext from its first byte on.\<close>

definition decrypt_second :: "conn_env \<Rightarrow> u64 \<Rightarrow> u32 \<Rightarrow> rl_state \<Rightarrow> close_reason + (rl_state \<times> u32)" where
  "decrypt_second E nonce secondPartLen st =
     (let posBody = word_of_nat MsgHeaderLen :: u32
      in if encryptMessage E then
           (case buf_slice (msgBuf st) (unat posBody) (unat (posBody + secondPartLen)) of
              Panic p \<Rightarrow> Inl Panicked
            | Ret ciphertext \<Rightarrow>
                (case DecryptAES (ce_gcm E) (slice_bytes (sharedKey E)) ciphertext nonce of
                   Inl err \<Rightarrow> Inl DecryptionErr
                 | Inr secondPart \<Rightarrow>
                     Inr (st\<lparr>msgBuf := buf_write (msgBuf st) (unat posBody) secondPart\<rparr>,
                          posBody + word_of_nat (length secondPart))))
         else Inr (st, posBody + secondPartLen))"

definition received_msg :: "MessageHead \<Rightarrow> bytes \<Rightarrow> bytes \<Rightarrow> RelayMsgBuf" where
  "received_msg h body data =
     \<lparr>PacketId = 0, MSGHead = CopyMessageHeader h, MSGSign = zero_sign, MSGBody = body, MSGData = data\<rparr>"

definition dispatch :: "conn_env \<Rightarrow> rl_state \<Rightarrow> RelayMsgBuf \<Rightarrow> rl_state" where
  "dispatch E st msg =
     (let st1 = (if has_onRead E then st\<lparr>events := events st @ [OnRead msg]\<rparr> else st)
      in if has_handler E (Cmd (msgH st1))
         then st1\<lparr>events := events st1 @ [HandlerCh msg], rl_i := 0, listenHeader := True\<rparr>
         else st1\<lparr>msgH := (msgH st1)\<lparr>Len := 0\<rparr>, rl_i := 0, listenHeader := True\<rparr>)"

text \<open>The fields of the second part are located with \<open>uint32\<close> positions.\<close>

definition handle_second :: "conn_env \<Rightarrow> u64 \<Rightarrow> u32 \<Rightarrow> rl_state \<Rightarrow> rl_iter" where
  "handle_second E nonce secondPartLen st =
     (let posBody = word_of_nat MsgHeaderLen :: u32;
          posSign = posBody + Len (msgH st);
          posData = posSign + word_of_nat MsgSignLen
      in case decrypt_second E nonce secondPartLen st of
           Inl err \<Rightarrow> Closed st err
         | Inr (st1, posEnd) \<Rightarrow>
             (case go_bind (buf_slice (msgBuf st1) (unat posSign) (unat (posSign + word_of_nat MsgSignLen)))
                     (MessageSign_Decode (msgS st1)) of
                Panic p \<Rightarrow> Closed st1 Panicked
              | Ret (s, k) \<Rightarrow>
                  (let st2 = st1\<lparr>msgS := s\<rparr>
                   in case buf_slice (msgBuf st2) 0 (unat posSign) of
                        Panic p \<Rightarrow> Closed st2 Panicked
                      | Ret hb \<Rightarrow>
                          if MessageSign_Verify (ce_crypto E) s hb (remoteP2pAddress E) \<noteq> None
                          then Continue st2
                          else
                            (case buf_slice (msgBuf st2) (unat posBody) (unat posSign) of
                               Panic p \<Rightarrow> Closed st2 Panicked
                             | Ret body \<Rightarrow>
                                 if posData < posEnd then
                                   if bufferSize E < unat (posEnd - posData) then Closed st2 Panicked
                                   else (case buf_slice (msgBuf st2) (unat posData) (unat posEnd) of
                                           Panic p \<Rightarrow> Closed st2 Panicked
                                         | Ret data \<Rightarrow>
                                             Continue (dispatch E st2 (received_msg (msgH st2) body data)))
                                 else Continue (dispatch E st2 (received_msg (msgH st2) body []))))))"

definition read_second :: "conn_env \<Rightarrow> rl_state \<Rightarrow> rl_iter" where
  "read_second E st =
     (let (hdr, n, c) = ReadEncryptionHeader (conn st);
          st1 = st\<lparr>conn := c, readFlow := readFlow st + n\<rparr>
      in case hdr of
           None \<Rightarrow> Closed st1 ReadEncryptionHeaderErr
         | Some (nonce, secondPartLen) \<Rightarrow>
             if word_of_nat MessageBeatLen < secondPartLen then Closed st1 OverSized
             else
               (let (st2, err) = read_chunks (unat secondPartLen) MsgHeaderLen st1
                in case err of
                     Some e \<Rightarrow> Closed st2 e
                   | None \<Rightarrow>
                       if word_of_nat (rl_i st2) = secondPartLen
                       then handle_second E nonce secondPartLen st2
                       else Closed st2 SizeMismatch))"

definition readLoop_iter :: "conn_env \<Rightarrow> rl_state \<Rightarrow> rl_iter" where
  "readLoop_iter E st = (if listenHeader st then read_header E st else read_second E st)"

section \<open>Progress and accounting\<close>

text \<open>Every byte taken from the connection is reported to the read counters exactly once.\<close>

definition accounted :: "rl_state \<Rightarrow> nat" where
  "accounted st = readFlow st + length (conn st)"

fun iter_state :: "rl_iter \<Rightarrow> rl_state" where
  "iter_state (Continue st) = st"
| "iter_state (Closed st r) = st"

lemma ReadEncryptionHeader_account:
  "ReadEncryptionHeader c = (h, n, c') \<Longrightarrow>
     n + length c' = length c \<and> (h \<noteq> None \<longrightarrow> n = EncryptionHeaderSize)"
  by (auto simp: ReadEncryptionHeader_def ReadFull_def split: if_splits)

lemma Unpack_account:
  "Unpack G c k m = (r, n, c') \<Longrightarrow>
     n + length c' = length c \<and> (\<forall>x. r = Inr x \<longrightarrow> EncryptionHeaderSize \<le> n)"
  by (auto simp: Unpack_def Let_def ReadFull_def dest!: ReadEncryptionHeader_account
      split: option.splits prod.splits if_splits)

definition chunk_step :: "nat \<Rightarrow> nat \<Rightarrow> rl_state \<Rightarrow> rl_state" where
  "chunk_step pos k st = st\<lparr>msgBuf := buf_write (msgBuf st) pos (take k (conn st)),
     conn := drop k (conn st), readFlow := readFlow st + min k (length (conn st)), rl_i := rl_i st + k\<rparr>"

lemma read_chunks_unfold:
  assumes "k = min 1024 (L - rl_i st)"
  shows "read_chunks L pos st =
     (if L \<le> rl_i st then (st, None)
      else if MessageBeatLen < pos + k then (st, Some Panicked)
      else if length (conn st) < k then ((chunk_step pos k st)\<lparr>rl_i := rl_i st\<rparr>, Some BodyErr)
      else read_chunks L (pos + k) (chunk_step pos k st))"
proof -
  have k: "(if L - rl_i st < 1024 then L - rl_i st else 1024) = k"
    using assms by simp
  show ?thesis
    by (subst read_chunks.simps) (simp add: k Let_def ReadFull_def chunk_step_def min_def not_less)
qed

lemma read_chunks_account:
  "read_chunks L pos st = (st', e) \<Longrightarrow> accounted st' = accounted st \<and> readFlow st \<le> readFlow st' \<and>
     msgH st' = msgH st \<and> msgS st' = msgS st \<and> events st' = events st \<and> listenHeader st' = listenHeader st"
proof (induction "L - rl_i st" arbitrary: pos st rule: less_induct)
  case less
  let ?k = "min 1024 (L - rl_i st)"
  note eq = trans [OF read_chunks_unfold [OF refl, symmetric] less.prems]
  have step: "accounted (chunk_step pos ?k st) = accounted st" "readFlow st \<le> readFlow (chunk_step pos ?k st)"
    "msgH (chunk_step pos ?k st) = msgH st" "msgS (chunk_step pos ?k st) = msgS st"
    "events (chunk_step pos ?k st) = events st" "listenHeader (chunk_step pos ?k st) = listenHeader st"
    by (simp_all add: chunk_step_def accounted_def)
  show ?case
  proof (cases "L \<le> rl_i st \<or> MessageBeatLen < pos + ?k \<or> length (conn st) < ?k")
    case True
    with eq show ?thesis by (auto simp: accounted_def chunk_step_def split: if_splits)
  next
    case False
    then have rec: "read_chunks L (pos + ?k) (chunk_step pos ?k st) = (st', e)"
      using eq by (simp split: if_splits)
    from False have "L - rl_i (chunk_step pos ?k st) < L - rl_i st"
      unfolding chunk_step_def by (simp add: min_def) arith
    from less.hyps [OF this rec] step show ?thesis by simp
  qed
qed

lemma decrypt_second_account:
  "decrypt_second E nonce l st = Inr (st', p) \<Longrightarrow> conn st' = conn st \<and> readFlow st' = readFlow st"
  by (auto simp: decrypt_second_def Let_def split: if_splits go.splits sum.splits)

lemma dispatch_account [simp]:
  "conn (dispatch E st m) = conn st" "readFlow (dispatch E st m) = readFlow st"
  by (simp_all add: dispatch_def Let_def)

lemma handle_second_account:
  "conn (iter_state (handle_second E nonce l st)) = conn st \<and>
   readFlow (iter_state (handle_second E nonce l st)) = readFlow st"
  by (auto simp: handle_second_def Let_def dest!: decrypt_second_account
      split: sum.split go.split prod.split)

lemma read_header_account: "accounted (iter_state (read_header E st)) = accounted st"
proof (cases "Unpack (ce_gcm E) (conn st) (conn_key E) MessageBeatLen")
  case (fields r n c)
  from Unpack_account [OF this] fields show ?thesis
    by (auto simp: read_header_def accounted_def Let_def split: sum.split go.split)
qed

lemma read_second_account: "accounted (iter_state (read_second E st)) = accounted st"
proof (cases "ReadEncryptionHeader (conn st)")
  case (fields h n c)
  let ?st = "st\<lparr>conn := c, readFlow := readFlow st + n\<rparr>"
  have st: "accounted ?st = accounted st"
    using ReadEncryptionHeader_account [OF fields] by (simp add: accounted_def)
  have "accounted (iter_state (case read_chunks L MsgHeaderLen ?st of (st2, err) \<Rightarrow>
      (case err of Some e \<Rightarrow> Closed st2 e | None \<Rightarrow>
        if word_of_nat (rl_i st2) = l then handle_second E nonce l st2
        else Closed st2 m))) = accounted st" for L l nonce m
    using st handle_second_account
    by (cases "read_chunks L MsgHeaderLen ?st")
      (auto simp: accounted_def dest!: read_chunks_account split: option.split)
  with fields st show ?thesis
    by (simp add: read_second_def Let_def split: option.split prod.split)
qed

lemma readLoop_iter_account: "accounted (iter_state (readLoop_iter E st)) = accounted st"
  by (simp add: readLoop_iter_def read_header_account read_second_account)

lemma readLoop_iter_reads:
  assumes "readLoop_iter E st = Continue st'"
  shows "readFlow st + EncryptionHeaderSize \<le> readFlow st'"
proof (cases "listenHeader st")
  case True
  show ?thesis
  proof (cases "Unpack (ce_gcm E) (conn st) (conn_key E) MessageBeatLen")
    case (fields r n c)
    with True assms Unpack_account [OF fields] show ?thesis
      by (auto simp: readLoop_iter_def read_header_def Let_def split: sum.splits go.splits if_splits)
  qed
next
  case False
  obtain h n c where rd: "ReadEncryptionHeader (conn st) = (h, n, c)" by (cases "ReadEncryptionHeader (conn st)")
  with assms False obtain nonce l where h: "h = Some (nonce, l)"
    by (auto simp: readLoop_iter_def read_second_def Let_def split: option.splits)
  let ?st = "st\<lparr>conn := c, readFlow := readFlow st + n\<rparr>"
  obtain st2 e where ch: "read_chunks (unat l) MsgHeaderLen ?st = (st2, e)"
    by (cases "read_chunks (unat l) MsgHeaderLen ?st")
  with assms False rd h have "handle_second E nonce l st2 = Continue st'"
    by (auto simp: readLoop_iter_def read_second_def Let_def split: option.splits if_splits)
  then have "readFlow st' = readFlow st2"
    using handle_second_account [of E nonce l st2] by simp
  moreover have "readFlow ?st \<le> readFlow st2"
    using read_chunks_account [OF ch] by simp
  moreover have "n = EncryptionHeaderSize"
    using ReadEncryptionHeader_account [OF rd] h by simp
  ultimately show ?thesis by simp
qed

lemma readLoop_iter_consumes:
  assumes "readLoop_iter E st = Continue st'"
  shows "length (conn st') < length (conn st)"
  using readLoop_iter_account [of E st] readLoop_iter_reads [OF assms] assms
  by (simp add: accounted_def EncryptionHeaderSize_def EncryptionNonceSize_def)

function readLoop :: "conn_env \<Rightarrow> rl_state \<Rightarrow> rl_state \<times> close_reason" where
  "readLoop E st =
     (case readLoop_iter E st of Continue st' \<Rightarrow> readLoop E st' | Closed st' r \<Rightarrow> (st', r))"
  by pat_completeness auto
termination
  by (relation "measure (\<lambda>(E, st). length (conn st))") (auto dest: readLoop_iter_consumes)

declare readLoop.simps [simp del]

section \<open>Sending\<close>

text \<open>
  \<open>Write\<close> refuses a message without signing information; \<open>asyncWrite\<close> fills in the request id
  and puts the message into the send queue. Sending on the closed queue panics, which
  \<open>asyncWrite\<close> recovers into an error. \<open>ctxReqId\<close> and \<open>ctxPacketId\<close> are the ids of the context,
  \<open>newReqId\<close> the result of \<open>GenerateNewReqId\<close>.
\<close>

datatype write_error = MissingSignInfo | NilConnection | ErrServerClosed | PackErr | WriteErr

definition asyncWrite ::
  "bool \<Rightarrow> u64 \<Rightarrow> u64 \<Rightarrow> u64 \<Rightarrow> RelayMsgBuf list \<Rightarrow> RelayMsgBuf \<Rightarrow> write_error option \<times> RelayMsgBuf list" where
  "asyncWrite closed ctxReqId newReqId ctxPacketId sendCh m =
     (let m1 = (if ReqId (MSGHead m) = 0
                then m\<lparr>MSGHead := (MSGHead m)\<lparr>ReqId := if ctxReqId = 0 then newReqId else ctxReqId\<rparr>\<rparr>
                else m);
          m2 = m1\<lparr>PacketId := ctxPacketId\<rparr>
      in if closed then (Some ErrServerClosed, sendCh) else (None, sendCh @ [m2]))"

definition ServerConn_Write ::
  "bool \<Rightarrow> u64 \<Rightarrow> u64 \<Rightarrow> u64 \<Rightarrow> RelayMsgBuf list \<Rightarrow> RelayMsgBuf \<Rightarrow> write_error option \<times> RelayMsgBuf list" where
  "ServerConn_Write closed ctxReqId newReqId ctxPacketId sendCh m =
     (if P2pAddress (MSGSign m) = [] \<or> P2pPubKey (MSGSign m) = None
      then (Some MissingSignInfo, sendCh)
      else asyncWrite closed ctxReqId newReqId ctxPacketId sendCh m)"

text \<open>The message with which \<open>SendBadVersionMsg\<close> answers a message of an old version.\<close>

definition bad_version_msg :: "u16 \<Rightarrow> MsgType \<Rightarrow> bytes \<Rightarrow> RelayMsgBuf" where
  "bad_version_msg minVer rspBadVersion data =
     \<lparr>PacketId = 0, MSGHead = MakeMessageHeader 1 minVer (word_of_nat (length data)) rspBadVersion,
      MSGSign = zero_sign, MSGBody = data, MSGData = []\<rparr>"

definition SendBadVersionMsg ::
  "bool \<Rightarrow> u64 \<Rightarrow> u16 \<Rightarrow> MsgType \<Rightarrow> RelayMsgBuf list \<Rightarrow> bytes \<Rightarrow> write_error option \<times> RelayMsgBuf list" where
  "SendBadVersionMsg closed newReqId minVer rspBadVersion sendCh data =
     ServerConn_Write closed 0 newReqId 0 sendCh (bad_version_msg minVer rspBadVersion data)"

text \<open>
  The sending side of a connection: what has been written, how many more bytes the connection
  accepts before it fails, and the write counter. \<open>Write\<close> of \<open>net.Conn\<close> reports an error whenever
  it writes less than it was given.
\<close>

record w_state =
  w_out :: bytes
  w_room :: nat
  writeFlow :: nat

definition spb_Write :: "bytes \<Rightarrow> w_state \<Rightarrow> w_state \<times> nat \<times> bool" where
  "spb_Write data w =
     (let n = min (length data) (w_room w)
      in (w\<lparr>w_out := w_out w @ take n data, w_room := w_room w - n\<rparr>, n, n = length data))"

definition WriteFull :: "bytes \<Rightarrow> w_state \<Rightarrow> w_state \<times> bool" where
  "WriteFull data w = (let (w1, n, ok) = spb_Write data w in (w1, ok \<and> n = length data))"

function write_chunks :: "bytes \<Rightarrow> nat \<Rightarrow> w_state \<Rightarrow> w_state" where
  "write_chunks encodedData i w =
     (if i < length encodedData then
        (let onereadlen = (if length encodedData - i < 1024 then length encodedData - i else 1024);
             chunk = take onereadlen (drop i encodedData);
             (w1, n, ok) = spb_Write chunk w
         in if \<not> ok then w1
            else write_chunks encodedData (i + n) (w1\<lparr>writeFlow := writeFlow w1 + n\<rparr>))
      else w)"
  by pat_completeness auto
termination
  by (relation "measure (\<lambda>(e, i, w). length e - i)")
    (auto simp: spb_Write_def Let_def split: if_splits)

declare write_chunks.simps [simp del]

record write_hook =
  wh_MessageId :: u8
  wh_set :: bool

text \<open>
  \<open>writePacket\<close> ignores the result of \<open>PutIntoBuffer\<close>, packs the head and the rest of the packet
  into one frame each and writes them; an error in the second write only ends the loop. The
  result names the write hooks it called.
\<close>

definition writePacket ::
  "conn_env \<Rightarrow> (nat \<Rightarrow> bytes) \<Rightarrow> bytes \<Rightarrow> bytes \<Rightarrow> write_hook list \<Rightarrow> w_state \<Rightarrow> RelayMsgBuf \<Rightarrow>
     (w_state \<times> write_error option \<times> write_hook list) go" where
  "writePacket E mem rnd1 rnd2 hooks w m =
     (let packet0 = \<lparr>PacketId = PacketId m, MSGHead = MSGHead m, MSGSign = MSGSign m, MSGBody = [], MSGData = []\<rparr>
      in go_bind (PutIntoBuffer (ce_crypto E) mem packet0 m) (\<lambda>(_, packet).
           case Pack (ce_gcm E) rnd1 (conn_key E) (GetHeader packet) of
             Inl err \<Rightarrow> Ret (w, Some PackErr, [])
           | Inr encodedHeader \<Rightarrow>
               (let (w1, ok) = WriteFull encodedHeader w
                in if \<not> ok then Ret (w1, Some WriteErr, [])
                   else
                     (let w2 = w1\<lparr>writeFlow := writeFlow w1 + length encodedHeader\<rparr>
                      in case Pack (ce_gcm E) rnd2 (conn_key E) (GetBytesAfterHeader packet) of
                           Inl err \<Rightarrow> Ret (w2, Some PackErr, [])
                         | Inr encodedData \<Rightarrow>
                             Ret (write_chunks encodedData 0 w2, None,
                                  filter (\<lambda>c. Cmd (MSGHead packet) = wh_MessageId c \<and> wh_set c) hooks)))))"

lemma write_chunks_unfold:
  assumes "k = min 1024 (length e - i)"
  shows "write_chunks e i w =
    (if length e \<le> i then w
     else if w_room w < k
     then w\<lparr>w_out := w_out w @ take (w_room w) (drop i e), w_room := 0\<rparr>
     else write_chunks e (i + k) (w\<lparr>w_out := w_out w @ take k (drop i e), w_room := w_room w - k,
       writeFlow := writeFlow w + k\<rparr>))"
proof -
  have k: "(if length e - i < 1024 then length e - i else 1024) = k"
    using assms by simp
  have chunk: "length (take k (drop i e)) = k" using assms by simp
  show ?thesis
  proof (cases "w_room w < k")
    case True
    then have "min k (w_room w) = w_room w" by simp
    with True show ?thesis
      by (subst write_chunks.simps) (simp only: k Let_def spb_Write_def chunk split_conv, simp)
  next
    case False
    then have "min k (w_room w) = k" by simp
    with False show ?thesis
      by (subst write_chunks.simps) (simp only: k Let_def spb_Write_def chunk split_conv, simp)
  qed
qed

lemma write_chunks_fits:
  "length e - i \<le> w_room w \<Longrightarrow> write_chunks e i w =
     w\<lparr>w_out := w_out w @ drop i e, w_room := w_room w - (length e - i),
       writeFlow := writeFlow w + (length e - i)\<rparr>"
proof (induction "length e - i" arbitrary: i w rule: less_induct)
  case less
  let ?k = "min 1024 (length e - i)"
  let ?w = "w\<lparr>w_out := w_out w @ take ?k (drop i e), w_room := w_room w - ?k,
       writeFlow := writeFlow w + ?k\<rparr>"
  note eq = write_chunks_unfold [OF refl, of e i w]
  show ?case
  proof (cases "length e \<le> i")
    case True
    then show ?thesis by (subst eq) simp
  next
    case False
    have "take ?k (drop i e) @ drop (i + ?k) e = drop i e"
      by (metis append_take_drop_id drop_drop add.commute)
    moreover have "write_chunks e (i + ?k) ?w = ?w\<lparr>w_out := w_out ?w @ drop (i + ?k) e,
        w_room := w_room ?w - (length e - (i + ?k)), writeFlow := writeFlow ?w + (length e - (i + ?k))\<rparr>"
      using False less.prems by (intro less.hyps) (auto simp: min_def)
    moreover have "write_chunks e i w = write_chunks e (i + ?k) ?w"
      by (subst eq) (use False less.prems in \<open>simp add: min_def\<close>)
    ultimately show ?thesis
      using False less.prems by (simp add: min_def)
  qed
qed

end
