(* ===== verification/Transport.thy ===== *)
theory Transport
  imports Server_Conn
begin

text \<open>
  What one end of a connection writes, the other end dispatches: the sender's \<open>writePacket\<close>
  composed with the receiver's \<open>readLoop\<close>, for single packets and for streams of packets.
\<close>

section \<open>The receive buffer as a list\<close>

lemma length_buf_read [simp]: "length (buf_read f a b) = b - a"
  by (simp add: buf_read_def)

lemma buf_read_part:
  assumes "buf_read f 0 n = X" "b \<le> n"
  shows "buf_read f a b = take (b - a) (drop a X)"
  using assms by (auto simp: buf_read_def drop_map take_map intro!: nth_equalityI)

lemma buf_write_prefix:
  assumes "buf_read f 0 a = X"
  shows "buf_read (buf_write f a bs) 0 (a + length bs) = X @ bs"
proof (rule nth_equalityI)
  from assms have X: "length X = a" and nth: "\<And>k. k < a \<Longrightarrow> X ! k = f k"
    by (auto simp: buf_read_def)
  show "length (buf_read (buf_write f a bs) 0 (a + length bs)) = length (X @ bs)"
    using X by simp
  show "buf_read (buf_write f a bs) 0 (a + length bs) ! k = (X @ bs) ! k"
    if "k < length (buf_read (buf_write f a bs) 0 (a + length bs))" for k
    using that X nth by (auto simp: buf_read_def buf_write_def nth_append)
qed

lemma buf_read_first: "buf_read (buf_write f 0 bs) 0 (length bs) = bs"
  using buf_write_prefix [of f 0 "[]" bs] by (simp add: buf_read_def)

lemma buf_write_Nil [simp]: "buf_write f a [] = f"
  by (auto simp: buf_write_def fun_eq_iff)

lemma buf_write_append:
  "buf_write (buf_write f a xs) (a + length xs) ys = buf_write f a (xs @ ys)"
  by (auto simp: buf_write_def nth_append fun_eq_iff)

lemma read_chunks_all:
  assumes "rl_i st \<le> L" "L - rl_i st \<le> length (conn st)" "pos + (L - rl_i st) \<le> MessageBeatLen"
  shows "read_chunks L pos st =
    (st\<lparr>msgBuf := buf_write (msgBuf st) pos (take (L - rl_i st) (conn st)),
        conn := drop (L - rl_i st) (conn st), readFlow := readFlow st + (L - rl_i st), rl_i := L\<rparr>, None)"
  using assms
proof (induction "L - rl_i st" arbitrary: pos st rule: less_induct)
  case less
  let ?k = "min 1024 (L - rl_i st)"
  let ?st = "chunk_step pos ?k st"
  note eq = read_chunks_unfold [OF refl, of L pos st]
  show ?case
  proof (cases "L \<le> rl_i st")
    case True
    with less.prems have "L = rl_i st" by simp
    then show ?thesis by (subst eq) simp
  next
    case False
    have "take ?k (conn st) @ take (L - rl_i st - ?k) (drop ?k (conn st)) = take (L - rl_i st) (conn st)"
      by (metis take_add min.cobounded2 le_add_diff_inverse)
    moreover have "length (take ?k (conn st)) = ?k" using less.prems by simp
    ultimately have "buf_write (buf_write (msgBuf st) pos (take ?k (conn st))) (pos + ?k)
        (take (L - rl_i st - ?k) (drop ?k (conn st))) = buf_write (msgBuf st) pos (take (L - rl_i st) (conn st))"
      using buf_write_append [of "msgBuf st" pos "take ?k (conn st)"] by metis
    moreover have "read_chunks L (pos + ?k) ?st =
      (?st\<lparr>msgBuf := buf_write (msgBuf ?st) (pos + ?k) (take (L - rl_i ?st) (conn ?st)),
        conn := drop (L - rl_i ?st) (conn ?st), readFlow := readFlow ?st + (L - rl_i ?st), rl_i := L\<rparr>, None)"
      using False less.prems by (intro less.hyps) (auto simp: chunk_step_def min_def)
    moreover have "read_chunks L pos st = read_chunks L (pos + ?k) ?st"
      by (subst eq) (use False less.prems in \<open>auto simp: min_def\<close>)
    ultimately show ?thesis
      using less.prems False by (simp add: chunk_step_def min_absorb1)
  qed
qed

section \<open>One packet\<close>

definition frame :: "gcm \<Rightarrow> bytes \<Rightarrow> bytes option \<Rightarrow> bytes \<Rightarrow> bytes" where
  "frame G rnd k p =
     be_put 8 (unat (frame_nonce rnd k)) @ be_put 4 (length (sealed G rnd k p)) @ sealed G rnd k p"

lemma length_sealed:
  "key_ok G k \<Longrightarrow> length (sealed G rnd k p) = length p + (if k = None then 0 else 16)"
  by (auto simp: sealed_def key_ok_def gcm_laws_def split: option.splits)

text \<open>
  A message \<open>m\<close> signed as \<open>s\<close> that fits the format and the buffers: the head announces the body
  and the signature block has its sizes.
\<close>

definition sized :: "RelayMsgBuf \<Rightarrow> MessageSign \<Rightarrow> bool" where
  "sized m s \<longleftrightarrow> unat (Len (MSGHead m)) = length (MSGBody m) \<and> sign_sized s \<and>
     MsgHeaderLen + length (MSGBody m) + MsgSignLen + length (MSGData m) + 16 \<le> MessageBeatLen"

text \<open>
  The conditions under which a receiver accepts it: the signature verifies for the peer, the
  version is current, a handler is registered and the data fits a buffer of the pool.
\<close>

definition accepted :: "conn_env \<Rightarrow> RelayMsgBuf \<Rightarrow> MessageSign \<Rightarrow> bool" where
  "accepted E m s \<longleftrightarrow> sized m s \<and>
     P2pAddress s = remoteP2pAddress E \<and>
     VerifyP2pAddrBytes (ce_crypto E) (slice_bytes (P2pPubKey s)) (P2pAddress s) \<and>
     VerifyP2pSignBytes (ce_crypto E) (slice_bytes (P2pPubKey s)) (slice_bytes (Signature s))
       (sign_msg (ce_crypto E) (head_bytes (MSGHead m) @ MSGBody m)) \<and>
     minAppVer E \<le> Version (MSGHead m) \<and> has_handler E (Cmd (MSGHead m)) \<and>
     length (MSGData m) \<le> bufferSize E"

lemma accepted_sized: "accepted E m s \<Longrightarrow> sized m s"
  by (simp add: accepted_def)

definition second_part :: "RelayMsgBuf \<Rightarrow> MessageSign \<Rightarrow> bytes" where
  "second_part m s = MSGBody m @ sign_bytes s @ MSGData m"

definition wire_bytes :: "conn_env \<Rightarrow> bytes \<Rightarrow> bytes \<Rightarrow> RelayMsgBuf \<Rightarrow> MessageSign \<Rightarrow> bytes" where
  "wire_bytes E rnd1 rnd2 m s =
     frame (ce_gcm E) rnd1 (conn_key E) (head_bytes (MSGHead m)) @
     frame (ce_gcm E) rnd2 (conn_key E) (second_part m s)"

definition delivered :: "conn_env \<Rightarrow> RelayMsgBuf \<Rightarrow> rl_event list" where
  "delivered E m =
     (let r = received_msg (MSGHead m) (MSGBody m) (MSGData m)
      in (if has_onRead E then [OnRead r] else []) @ [HandlerCh r])"

lemmas size_defs = MsgHeaderLen_def sign_sizes MessageBeatLen_def

lemma sized_second_part:
  assumes "sized m s"
  shows "length (second_part m s) = length (MSGBody m) + MsgSignLen + length (MSGData m)"
    "length (second_part m s) + MsgHeaderLen + 16 \<le> MessageBeatLen"
  using assms length_sign_bytes [of s] by (auto simp: sized_def second_part_def)

lemma read_header_frame:
  assumes "length rnd = 8" "key_ok (ce_gcm E) (conn_key E)" "minAppVer E \<le> Version h"
    and "conn st = frame (ce_gcm E) rnd (conn_key E) (head_bytes h) @ c"
  shows "\<exists>n. read_header E st = Continue (st\<lparr>conn := c, readFlow := n,
    msgBuf := buf_write (msgBuf st) 0 (head_bytes h), msgH := h, listenHeader := False\<rparr>)"
proof -
  have len: "length (sealed (ce_gcm E) rnd (conn_key E) (head_bytes h)) \<le> MessageBeatLen"
    using length_sealed [OF assms(2), of rnd "head_bytes h"]
    by (simp add: MsgHeaderLen_def MessageBeatLen_def)
  then have "Pack (ce_gcm E) rnd (conn_key E) (head_bytes h) =
      Inr (frame (ce_gcm E) rnd (conn_key E) (head_bytes h))"
    using Pack_frame [OF assms(1,2), of "head_bytes h"] by (simp add: frame_def MessageBeatLen_def)
  with Unpack_frame [OF assms(1,2) len, of c]
  obtain n where "Unpack (ce_gcm E) (conn st) (conn_key E) MessageBeatLen = (Inr (head_bytes h), n, c)"
    using assms(4) by (auto simp: MessageBeatLen_def)
  moreover have "buf_read (buf_write f 0 (head_bytes h)) 0 MsgHeaderLen = head_bytes h" for f
    using buf_read_first [of f "head_bytes h"] by simp
  ultimately show ?thesis
    using assms(3) by (auto simp: read_header_def Let_def MessageHead_Decode_bytes not_less)
qed

text \<open>The key of a connection: present when the connection encrypts, and usable.\<close>

definition usable_key :: "conn_env \<Rightarrow> bool" where
  "usable_key E \<longleftrightarrow> key_ok (ce_gcm E) (conn_key E) \<and> (encryptMessage E \<longrightarrow> sharedKey E \<noteq> None)"

lemma decrypt_second_frame:
  assumes "usable_key E"
    and buf: "buf_read (msgBuf st) 0 (MsgHeaderLen + l) = H @ sealed (ce_gcm E) rnd (conn_key E) p"
    and l: "l = length (sealed (ce_gcm E) rnd (conn_key E) p)" "MsgHeaderLen + l \<le> MessageBeatLen"
    and H: "length H = MsgHeaderLen"
  shows "\<exists>B. decrypt_second E (frame_nonce rnd (conn_key E)) (word_of_nat l) st =
      Inr (st\<lparr>msgBuf := B\<rparr>, word_of_nat (MsgHeaderLen + length p)) \<and>
    buf_read B 0 (MsgHeaderLen + length p) = H @ p"
proof (cases "encryptMessage E")
  case False
  then have k: "conn_key E = None" by (simp add: conn_key_def)
  then have "l = length p" using l by (simp add: sealed_def)
  with False k buf show ?thesis
    by (intro exI [of _ "msgBuf st"]) (simp add: decrypt_second_def Let_def sealed_def)
next
  case True
  with assms(1) obtain key where k: "conn_key E = Some key" "sharedKey E = Some key"
    by (auto simp: usable_key_def conn_key_def)
  let ?c = "sealed (ce_gcm E) rnd (conn_key E) p"
  have pos: "unat (word_of_nat MsgHeaderLen :: u32) = MsgHeaderLen"
    "unat (word_of_nat MsgHeaderLen + word_of_nat l :: u32) = MsgHeaderLen + l"
    using l unat_add_word_of_nat [of MsgHeaderLen l, where 'a = 32]
    by (auto simp: size_defs)
  have "buf_read (msgBuf st) MsgHeaderLen (MsgHeaderLen + l) = ?c"
    using buf_read_part [OF buf, of "MsgHeaderLen + l" MsgHeaderLen] H l by simp
  then have slice: "buf_slice (msgBuf st) MsgHeaderLen (MsgHeaderLen + l) = Ret ?c"
    using l by (simp add: buf_slice_def)
  have dec: "DecryptAES (ce_gcm E) key ?c (frame_nonce rnd (conn_key E)) = Inr p"
    using DecryptAES_sealed [of "ce_gcm E" key rnd p] assms(1) k by (simp add: usable_key_def)
  have "buf_read (msgBuf st) 0 MsgHeaderLen = H"
    using buf_read_part [OF buf, of MsgHeaderLen 0] H by simp
  from buf_write_prefix [OF this, of p] show ?thesis
    using True slice dec k pos
    by (intro exI [of _ "buf_write (msgBuf st) MsgHeaderLen p"])
      (simp add: decrypt_second_def Let_def slice_bytes_def)
qed

lemma Verify_accepted:
  assumes "accepted E m s"
  shows "MessageSign_Verify (ce_crypto E)
      (s0\<lparr>P2pAddress := P2pAddress s, P2pPubKey := Some (slice_bytes (P2pPubKey s)),
          Signature := Some (slice_bytes (Signature s))\<rparr>)
      (head_bytes (MSGHead m) @ MSGBody m) (remoteP2pAddress E) = None"
proof -
  have "P2pAddress s \<noteq> []"
    using assms by (auto simp: accepted_def sized_def sign_sized_def P2pAddressBech32Length_def)
  with assms show ?thesis by (auto simp: MessageSign_Verify_def accepted_def)
qed

text \<open>The fields of a packet at the positions \<open>readLoop\<close> computes.\<close>

lemma packet_slices:
  assumes sz: "sized m s"
    and buf: "buf_read B 0 (MsgHeaderLen + length (second_part m s)) = head_bytes (MSGHead m) @ second_part m s"
  defines "posSign \<equiv> MsgHeaderLen + length (MSGBody m)"
  shows "buf_slice B posSign (posSign + MsgSignLen) = Ret (sign_bytes s)"
    and "buf_slice B 0 posSign = Ret (head_bytes (MSGHead m) @ MSGBody m)"
    and "buf_slice B MsgHeaderLen posSign = Ret (MSGBody m)"
    and "buf_slice B (posSign + MsgSignLen) (MsgHeaderLen + length (second_part m s)) = Ret (MSGData m)"
proof -
  note len = sized_second_part [OF sz]
  have sl: "length (sign_bytes s) = MsgSignLen"
    using sz by (simp add: sized_def length_sign_bytes)
  note part = buf_read_part [OF buf]
  show "buf_slice B posSign (posSign + MsgSignLen) = Ret (sign_bytes s)"
    using len sl part by (simp add: buf_slice_def posSign_def second_part_def)
  show "buf_slice B 0 posSign = Ret (head_bytes (MSGHead m) @ MSGBody m)"
    using len sl part by (simp add: buf_slice_def posSign_def second_part_def)
  show "buf_slice B MsgHeaderLen posSign = Ret (MSGBody m)"
    using len sl part by (simp add: buf_slice_def posSign_def second_part_def)
  show "buf_slice B (posSign + MsgSignLen) (MsgHeaderLen + length (second_part m s)) = Ret (MSGData m)"
    using len sl part by (simp add: buf_slice_def posSign_def second_part_def)
qed

lemma pos_body: "unat (word_of_nat MsgHeaderLen :: u32) = MsgHeaderLen"
  by (simp add: MsgHeaderLen_def)

lemma packet_positions:
  assumes sz: "sized m s"
  shows "unat (word_of_nat MsgHeaderLen + Len (MSGHead m)) = MsgHeaderLen + length (MSGBody m)"
    and "unat (word_of_nat MsgHeaderLen + Len (MSGHead m) + word_of_nat MsgSignLen) =
      MsgHeaderLen + length (MSGBody m) + MsgSignLen"
    and "unat (word_of_nat (MsgHeaderLen + length (second_part m s)) :: u32) =
      MsgHeaderLen + length (second_part m s)"
proof -
  have "Len (MSGHead m) = word_of_nat (length (MSGBody m))"
    using sz by (metis sized_def of_nat_unat ucast_id)
  moreover note sized_second_part [OF sz]
  ultimately show "unat (word_of_nat MsgHeaderLen + Len (MSGHead m)) = MsgHeaderLen + length (MSGBody m)"
    "unat (word_of_nat MsgHeaderLen + Len (MSGHead m) + word_of_nat MsgSignLen) =
      MsgHeaderLen + length (MSGBody m) + MsgSignLen"
    "unat (word_of_nat (MsgHeaderLen + length (second_part m s)) :: u32) =
      MsgHeaderLen + length (second_part m s)"
    unfolding of_nat_add [symmetric] by (simp_all only: unat_of_nat of_nat_add [symmetric])
      (simp_all add: size_defs)
qed

lemma dispatch_delivered:
  assumes "has_handler E (Cmd (MSGHead m))" "msgH st = MSGHead m"
  shows "\<exists>st'. dispatch E st (received_msg (MSGHead m) (MSGBody m) (MSGData m)) = st' \<and>
    listenHeader st' \<and> rl_i st' = 0 \<and> conn st' = conn st \<and> events st' = events st @ delivered E m"
  using assms by (simp add: dispatch_def delivered_def Let_def)

lemma handle_second_accepted:
  assumes acc: "accepted E m s" and key: "usable_key E" and h: "msgH st = MSGHead m"
    and buf: "buf_read (msgBuf st) 0 (MsgHeaderLen + l) =
      head_bytes (MSGHead m) @ sealed (ce_gcm E) rnd (conn_key E) (second_part m s)"
    and l: "l = length (sealed (ce_gcm E) rnd (conn_key E) (second_part m s))"
      "MsgHeaderLen + l \<le> MessageBeatLen"
  shows "\<exists>st'. handle_second E (frame_nonce rnd (conn_key E)) (word_of_nat l) st = Continue st' \<and>
    listenHeader st' \<and> rl_i st' = 0 \<and> conn st' = conn st \<and> events st' = events st @ delivered E m"
proof -
  obtain B where dec: "decrypt_second E (frame_nonce rnd (conn_key E)) (word_of_nat l) st =
      Inr (st\<lparr>msgBuf := B\<rparr>, word_of_nat (MsgHeaderLen + length (second_part m s)))"
    and B: "buf_read B 0 (MsgHeaderLen + length (second_part m s)) = head_bytes (MSGHead m) @ second_part m s"
    using decrypt_second_frame [OF key buf l] by auto
  let ?s = "(msgS st)\<lparr>P2pAddress := P2pAddress s, P2pPubKey := Some (slice_bytes (P2pPubKey s)),
          Signature := Some (slice_bytes (Signature s))\<rparr>"
  let ?st = "st\<lparr>msgBuf := B, msgS := ?s\<rparr>"
  let ?posData = "word_of_nat MsgHeaderLen + Len (MSGHead m) + word_of_nat MsgSignLen :: u32"
  let ?posEnd = "word_of_nat (MsgHeaderLen + length (second_part m s)) :: u32"
  note slices = packet_slices [OF accepted_sized [OF acc] B]
    and pos = packet_positions [OF accepted_sized [OF acc]] pos_body
  have sgn: "sign_sized s" using acc by (simp add: accepted_def sized_def)
  have data_pos: "?posData < ?posEnd \<longleftrightarrow> MSGData m \<noteq> []"
    unfolding word_less_nat_alt pos using sized_second_part [OF accepted_sized [OF acc]] by simp
  have data_len: "unat (?posEnd - ?posData) = length (MSGData m)" if "?posData < ?posEnd"
  proof -
    have "unat (?posEnd - ?posData) = unat ?posEnd - unat ?posData"
      using that by (intro unat_sub order_less_imp_le)
    then show ?thesis using sized_second_part [OF accepted_sized [OF acc]] unfolding pos by simp
  qed
  have fits: "length (MSGData m) \<le> bufferSize E" using acc by (simp add: accepted_def)
  have "handle_second E (frame_nonce rnd (conn_key E)) (word_of_nat l) st =
      Continue (dispatch E ?st (received_msg (MSGHead m) (MSGBody m) (MSGData m)))"
  proof (cases "?posData < ?posEnd")
    case True
    then show ?thesis
      using fits
      by (simp add: handle_second_def Let_def dec h pos slices MessageSign_Decode_bytes [OF sgn]
          Verify_accepted [OF acc] data_len del: of_nat_add)
  next
    case False
    then show ?thesis
      using data_pos
      by (simp add: handle_second_def Let_def dec h pos slices MessageSign_Decode_bytes [OF sgn]
          Verify_accepted [OF acc] del: of_nat_add)
  qed
  then show ?thesis
    using dispatch_delivered [of E m ?st] acc h by (simp add: accepted_def)
qed

lemma read_second_frame:
  assumes acc: "accepted E m s" and key: "usable_key E" and h: "msgH st = MSGHead m"
    and st: "rl_i st = 0" "buf_read (msgBuf st) 0 MsgHeaderLen = head_bytes (MSGHead m)"
    and c: "conn st = frame (ce_gcm E) rnd (conn_key E) (second_part m s) @ c"
  shows "\<exists>st'. read_second E st = Continue st' \<and> listenHeader st' \<and> rl_i st' = 0 \<and> conn st' = c \<and>
    events st' = events st @ delivered E m"
proof -
  let ?x = "sealed (ce_gcm E) rnd (conn_key E) (second_part m s)"
  let ?l = "length ?x"
  have "?l \<le> length (second_part m s) + 16"
    using length_sealed [of "ce_gcm E" "conn_key E" rnd "second_part m s"] key
    by (simp add: usable_key_def)
  with sized_second_part [OF accepted_sized [OF acc]] have fit: "MsgHeaderLen + ?l \<le> MessageBeatLen" by simp
  then have l32: "?l < 2 ^ 32" and l: "unat (word_of_nat ?l :: u32) = ?l"
    by (auto simp: size_defs intro: unat_word_of_nat)
  have over: "\<not> (word_of_nat MessageBeatLen :: u32) < word_of_nat ?l"
    using fit l by (simp add: word_less_nat_alt MessageBeatLen_def)
  obtain n where rd: "ReadEncryptionHeader (conn st) =
      (Some (frame_nonce rnd (conn_key E), word_of_nat ?l), n, ?x @ c)"
    using ReadEncryptionHeader_frame [OF l32, of "frame_nonce rnd (conn_key E)" "?x @ c"] c
    by (simp add: frame_def)
  let ?st = "st\<lparr>conn := ?x @ c, readFlow := readFlow st + n\<rparr>"
  let ?st2 = "?st\<lparr>msgBuf := buf_write (msgBuf st) MsgHeaderLen ?x, conn := c,
    readFlow := readFlow st + n + ?l, rl_i := ?l\<rparr>"
  have chunks: "read_chunks ?l MsgHeaderLen ?st = (?st2, None)"
    using read_chunks_all [of ?st ?l MsgHeaderLen] st fit by simp
  have "buf_read (msgBuf ?st2) 0 (MsgHeaderLen + ?l) = head_bytes (MSGHead m) @ ?x"
    using buf_write_prefix [OF st(2), of ?x] by simp
  from handle_second_accepted [OF acc key _ this refl fit] h
  obtain st' where "handle_second E (frame_nonce rnd (conn_key E)) (word_of_nat ?l) ?st2 = Continue st'"
    "listenHeader st'" "rl_i st' = 0" "conn st' = c" "events st' = events st @ delivered E m"
    by auto
  then show ?thesis
    using rd over l chunks by (simp add: read_second_def)
qed

text \<open>The receiver between two messages.\<close>

definition idle :: "rl_state \<Rightarrow> bool" where
  "idle st \<longleftrightarrow> listenHeader st \<and> rl_i st = 0"

lemma readLoop_packet:
  assumes acc: "accepted E m s" and key: "usable_key E" and rnd: "length rnd1 = 8"
    and st: "idle st" "conn st = wire_bytes E rnd1 rnd2 m s @ c"
  shows "\<exists>st'. readLoop E st = readLoop E st' \<and> idle st' \<and> conn st' = c \<and>
    events st' = events st @ delivered E m"
proof -
  have "minAppVer E \<le> Version (MSGHead m)" using acc by (simp add: accepted_def)
  with read_header_frame [OF rnd _ this, of st] key st
  obtain n where hd: "read_header E st = Continue (st\<lparr>
      conn := frame (ce_gcm E) rnd2 (conn_key E) (second_part m s) @ c, readFlow := n,
      msgBuf := buf_write (msgBuf st) 0 (head_bytes (MSGHead m)), msgH := MSGHead m, listenHeader := False\<rparr>)"
    (is "_ = Continue ?st")
    by (auto simp: wire_bytes_def usable_key_def)
  have "buf_read (msgBuf ?st) 0 MsgHeaderLen = head_bytes (MSGHead m)"
    using buf_read_first [of "msgBuf st" "head_bytes (MSGHead m)"] by simp
  with read_second_frame [OF acc key, of ?st rnd2 c] st(1)
  obtain st' where snd: "read_second E ?st = Continue st'" and st': "listenHeader st'" "rl_i st' = 0"
    "conn st' = c" "events st' = events st @ delivered E m"
    by (auto simp: idle_def)
  have "readLoop E st = readLoop E ?st"
    using hd st(1) by (subst readLoop.simps) (simp add: readLoop_iter_def idle_def)
  also have "\<dots> = readLoop E st'"
    using snd by (subst readLoop.simps) (simp add: readLoop_iter_def)
  finally show ?thesis using st' by (auto simp: idle_def)
qed

section \<open>The sending loop\<close>

text \<open>
  \<open>writeLoop\<close> sends the queued packets until a write fails; its deferred function recovers a
  panic and then drains what is left in the queue until a write fails. The queue holds each
  message with the random bytes of its two nonces.
\<close>

type_synonym queued = "bytes \<times> bytes \<times> RelayMsgBuf"

fun drain :: "conn_env \<Rightarrow> (nat \<Rightarrow> bytes) \<Rightarrow> write_hook list \<Rightarrow> w_state \<Rightarrow> queued list \<Rightarrow> w_state go" where
  "drain E mem hooks w [] = Ret w"
| "drain E mem hooks w ((r1, r2, m) # q) =
     go_bind (writePacket E mem r1 r2 hooks w m) (\<lambda>(w', err, _).
       if err = None then drain E mem hooks w' q else Ret w')"

fun writeLoop :: "conn_env \<Rightarrow> (nat \<Rightarrow> bytes) \<Rightarrow> write_hook list \<Rightarrow> w_state \<Rightarrow> queued list \<Rightarrow> w_state go" where
  "writeLoop E mem hooks w [] = Ret w"
| "writeLoop E mem hooks w ((r1, r2, m) # q) =
     (case writePacket E mem r1 r2 hooks w m of
        Panic p \<Rightarrow> drain E mem hooks w q
      | Ret (w', err, _) \<Rightarrow> if err = None then writeLoop E mem hooks w' q else drain E mem hooks w' q)"

text \<open>Two ends of one connection: the same primitives and the same key.\<close>

definition linked :: "conn_env \<Rightarrow> conn_env \<Rightarrow> bool" where
  "linked S E \<longleftrightarrow> ce_crypto S = ce_crypto E \<and> ce_gcm S = ce_gcm E \<and> conn_key S = conn_key E"

text \<open>A queued message that its sender can sign and its receiver accepts.\<close>

definition deliverable :: "conn_env \<Rightarrow> queued \<Rightarrow> bool" where
  "deliverable E q = (case q of (r1, r2, m) \<Rightarrow> length r1 = 8 \<and> length r2 = 8 \<and>
     (case MessageSign_Sign (ce_crypto E) (MSGSign m) (head_bytes (MSGHead m) @ MSGBody m) of
        Inl _ \<Rightarrow> False | Inr s \<Rightarrow> accepted E m s))"

definition queued_bytes :: "conn_env \<Rightarrow> queued \<Rightarrow> bytes" where
  "queued_bytes E q = (case q of (r1, r2, m) \<Rightarrow>
     (case MessageSign_Sign (ce_crypto E) (MSGSign m) (head_bytes (MSGHead m) @ MSGBody m) of
        Inl _ \<Rightarrow> [] | Inr s \<Rightarrow> wire_bytes E r1 r2 m s))"

lemma linked_wire: "linked S E \<Longrightarrow> wire_bytes S r1 r2 m s = wire_bytes E r1 r2 m s"
  by (simp add: linked_def wire_bytes_def)

lemma Pack_is_frame:
  assumes "length rnd = 8" "key_ok G k" "length p + 16 \<le> MessageBeatLen"
  shows "Pack G rnd k p = Inr (frame G rnd k p)"
  using Pack_frame [OF assms(1,2), of p] length_sealed [OF assms(2), of rnd p] assms(3)
  by (simp add: frame_def MessageBeatLen_def split: if_splits)

lemma WriteFull_fits:
  "length f \<le> w_room w \<Longrightarrow>
     WriteFull f w = (w\<lparr>w_out := w_out w @ f, w_room := w_room w - length f\<rparr>, True)"
  by (simp add: WriteFull_def spb_Write_def Let_def min_absorb1)

lemma writePacket_sends:
  assumes "linked S E" "usable_key E" "\<And>n. length (mem n) = n" "deliverable E (r1, r2, m)"
    and room: "length (queued_bytes E (r1, r2, m)) \<le> w_room w"
  shows "\<exists>w' hs. writePacket S mem r1 r2 hooks w m = Ret (w', None, hs) \<and>
    w_out w' = w_out w @ queued_bytes E (r1, r2, m) \<and>
    w_room w' = w_room w - length (queued_bytes E (r1, r2, m)) \<and>
    writeFlow w' = writeFlow w + length (queued_bytes E (r1, r2, m))"
proof -
  let ?G = "ce_gcm E" and ?k = "conn_key E"
  from assms(4) obtain s where sg: "MessageSign_Sign (ce_crypto E) (MSGSign m)
      (head_bytes (MSGHead m) @ MSGBody m) = Inr s" and acc: "accepted E m s"
    and r: "length r1 = 8" "length r2 = 8"
    by (auto simp: deliverable_def split: sum.splits)
  let ?start = "\<lparr>PacketId = PacketId m, MSGHead = MSGHead m, MSGSign = MSGSign m, MSGBody = [], MSGData = []\<rparr>"
  let ?p = "\<lparr>PacketId = PacketId m, MSGHead = MSGHead m, MSGSign = s, MSGBody = [],
    MSGData = packet_bytes (MSGHead m) (MSGBody m) s (MSGData m)\<rparr>"
  have sizes: "well_sized ?start m" "sign_sized s"
    using acc by (auto simp: accepted_def sized_def well_sized_def MessageBeatLen_def)
  have put: "PutIntoBuffer (ce_crypto E) mem ?start m =
      Ret (length (packet_bytes (MSGHead m) (MSGBody m) s (MSGData m)), ?p)"
    using PutIntoBuffer_signed [OF sizes(1) assms(3) _ sizes(2), of "ce_crypto E"] sg by simp
  have parts: "GetHeader ?p = head_bytes (MSGHead m)" "GetBytesAfterHeader ?p = second_part m s"
    by (simp_all add: GetHeader_def GetBytesAfterHeader_def packet_bytes_def second_part_def)
  have k: "key_ok ?G ?k" using assms(2) by (simp add: usable_key_def)
  have pk: "Pack ?G r1 ?k (head_bytes (MSGHead m)) = Inr (frame ?G r1 ?k (head_bytes (MSGHead m)))"
    "Pack ?G r2 ?k (second_part m s) = Inr (frame ?G r2 ?k (second_part m s))"
    using Pack_is_frame [OF r(1) k, of "head_bytes (MSGHead m)"]
      Pack_is_frame [OF r(2) k, of "second_part m s"] sized_second_part [OF accepted_sized [OF acc]]
    by (simp_all add: MsgHeaderLen_def MessageBeatLen_def)
  have q: "queued_bytes E (r1, r2, m) =
      frame ?G r1 ?k (head_bytes (MSGHead m)) @ frame ?G r2 ?k (second_part m s)"
    by (simp add: queued_bytes_def sg wire_bytes_def)
  show ?thesis
    using room assms(1) unfolding q
    by (simp add: writePacket_def Let_def put parts pk linked_def WriteFull_fits write_chunks_fits)
qed

lemma writeLoop_sends:
  assumes "linked S E" "usable_key E" "\<And>n. length (mem n) = n" "list_all (deliverable E) q"
    and "length (concat (map (queued_bytes E) q)) \<le> w_room w"
  shows "\<exists>w'. writeLoop S mem hooks w q = Ret w' \<and>
    w_out w' = w_out w @ concat (map (queued_bytes E) q) \<and>
    writeFlow w' = writeFlow w + length (concat (map (queued_bytes E) q))"
  using assms(4,5)
proof (induction q arbitrary: w)
  case Nil
  then show ?case by simp
next
  case (Cons x q)
  obtain r1 r2 m where x: "x = (r1, r2, m)" by (cases x)
  from writePacket_sends [OF assms(1-3), of r1 r2 m w hooks] Cons.prems
  obtain w1 hs where w1: "writePacket S mem r1 r2 hooks w m = Ret (w1, None, hs)"
    "w_out w1 = w_out w @ queued_bytes E x" "w_room w1 = w_room w - length (queued_bytes E x)"
    "writeFlow w1 = writeFlow w + length (queued_bytes E x)"
    by (auto simp: x)
  moreover have "length (concat (map (queued_bytes E) q)) \<le> w_room w1"
    using Cons.prems w1(3) by simp
  with Cons.IH [of w1] Cons.prems
  obtain w' where "writeLoop S mem hooks w1 q = Ret w'"
    "w_out w' = w_out w1 @ concat (map (queued_bytes E) q)"
    "writeFlow w' = writeFlow w1 + length (concat (map (queued_bytes E) q))"
    by auto
  ultimately show ?case by (simp add: x)
qed

lemma readLoop_drained:
  assumes "idle st" "conn st = []"
  shows "\<exists>st'. readLoop E st = (st', ReadHeaderErr) \<and> events st' = events st"
proof -
  have "ReadEncryptionHeader [] = (None, 0, [])"
    by (simp add: ReadEncryptionHeader_def ReadFull_def EncryptionHeaderSize_def EncryptionNonceSize_def)
  with assms show ?thesis
    by (subst readLoop.simps) (simp add: readLoop_iter_def idle_def read_header_def Unpack_def)
qed

lemma readLoop_stream:
  assumes "usable_key E" "list_all (deliverable E) q" "idle st"
    and "conn st = concat (map (queued_bytes E) q)"
  shows "\<exists>st'. readLoop E st = (st', ReadHeaderErr) \<and>
    events st' = events st @ concat (map (\<lambda>(r1, r2, m). delivered E m) q)"
  using assms(2-4)
proof (induction q arbitrary: st)
  case Nil
  then show ?case using readLoop_drained by simp
next
  case (Cons x q)
  obtain r1 r2 m where x: "x = (r1, r2, m)" by (cases x)
  with Cons.prems obtain s where sg: "MessageSign_Sign (ce_crypto E) (MSGSign m)
      (head_bytes (MSGHead m) @ MSGBody m) = Inr s" and acc: "accepted E m s" and r1: "length r1 = 8"
    by (auto simp: deliverable_def split: sum.splits)
  have "queued_bytes E x = wire_bytes E r1 r2 m s" by (simp add: x queued_bytes_def sg)
  then have "conn st = wire_bytes E r1 r2 m s @ concat (map (queued_bytes E) q)"
    using Cons.prems by simp
  from readLoop_packet [OF acc assms(1) r1 Cons.prems(2) this]
  obtain st1 where "readLoop E st = readLoop E st1" "idle st1"
    "conn st1 = concat (map (queued_bytes E) q)" "events st1 = events st @ delivered E m"
    by auto
  with Cons.IH [of st1] Cons.prems show ?case by (simp add: x)
qed

end
