(* ===== verification/Conn_Safety.thy ===== *)
theory Conn_Safety
  imports Transport
begin

text \<open>
  What \<open>readLoop\<close> guarantees for an arbitrary byte stream, sent by anyone: a message reaches the
  handler queue only when the signature block that came with it verifies for exactly its head
  and body and for the peer of the handshake; every byte read is accounted for. And what it does
  after a message whose signature does not verify.
\<close>

section \<open>Reachable states of the loop\<close>

definition start_state :: "bytes \<Rightarrow> rl_state" where
  "start_state c = \<lparr>listenHeader = True, rl_i = 0,
     msgH = \<lparr>Tag = 0, Len = 0, DataLen = 0, Cmd = 0, ReqId = 0, Version = 0\<rparr>, msgS = zero_sign,
     msgBuf = (\<lambda>_. 0), conn = c, readFlow = 0, events = []\<rparr>"

inductive rl_reach :: "conn_env \<Rightarrow> bytes \<Rightarrow> rl_state \<Rightarrow> bool" for E c where
  start: "rl_reach E c (start_state c)"
| iter: "rl_reach E c st \<Longrightarrow> readLoop_iter E st = Continue st' \<Longrightarrow> rl_reach E c st'"

section \<open>The head stays in the buffer\<close>

lemma be_put_word:
  assumes "length b = n" "256 ^ n = (2 :: nat) ^ LENGTH('a)"
  shows "be_put n (unat (word_of_nat (be_get b) :: 'a::len word)) = b"
proof -
  have "be_get b < 2 ^ LENGTH('a)" using be_get_bound [of b] assms by simp
  then have "unat (word_of_nat (be_get b) :: 'a word) = be_get b" by (rule unat_word_of_nat)
  then show ?thesis using be_put_get [of b] assms by simp
qed

lemma head_bytes_Decode:
  assumes "length X = MsgHeaderLen" "MessageHead_Decode X = Ret h"
  shows "head_bytes h = X"
proof -
  have X: "X = take 2 X @ take 4 (drop 2 X) @ take 4 (drop 6 X) @ [X ! 10] @ take 8 (drop 11 X) @ take 2 (drop 19 X)"
    using assms(1) by (intro nth_equalityI) (auto simp: MsgHeaderLen_def nth_append less_Suc_eq numeral_eq_Suc)
  have "Int16ToBytes (BytesToInt16 (take 2 X)) = take 2 X"
    "Uint32ToBytes (BytesToUInt32 (take 4 (drop 2 X))) = take 4 (drop 2 X)"
    "Uint32ToBytes (BytesToUInt32 (take 4 (drop 6 X))) = take 4 (drop 6 X)"
    "Uint64ToBytes (BytesToUInt64 (take 8 (drop 11 X))) = take 8 (drop 11 X)"
    "Uint16ToBytes (BytesToUint16 (take 2 (drop 19 X))) = take 2 (drop 19 X)"
    using assms(1)
    by (simp_all add: bytes_of_int_defs int_of_bytes_defs MsgHeaderLen_def be_put_word)
  with assms X show ?thesis
    by (auto simp: MessageHead_Decode_def head_bytes_def Uint8ToBytes_def split: if_splits)
qed

lemma buf_write_above:
  assumes "b \<le> pos"
  shows "buf_read (buf_write f pos bs) 0 b = buf_read f 0 b"
  using assms by (auto simp: buf_read_def buf_write_def)

lemma read_chunks_prefix:
  "MsgHeaderLen \<le> pos \<Longrightarrow>
     buf_read (msgBuf (fst (read_chunks L pos st))) 0 MsgHeaderLen = buf_read (msgBuf st) 0 MsgHeaderLen"
proof (induction "L - rl_i st" arbitrary: pos st rule: less_induct)
  case less
  let ?k = "min 1024 (L - rl_i st)"
  have step: "buf_read (msgBuf (chunk_step pos ?k st)) 0 MsgHeaderLen = buf_read (msgBuf st) 0 MsgHeaderLen"
    using less.prems by (simp add: chunk_step_def buf_write_above)
  show ?case
  proof (cases "L \<le> rl_i st \<or> MessageBeatLen < pos + ?k \<or> length (conn st) < ?k")
    case True
    then show ?thesis
      by (subst read_chunks_unfold [OF refl]) (use step in auto)
  next
    case False
    from False have "L - rl_i (chunk_step pos ?k st) < L - rl_i st"
      unfolding chunk_step_def by (simp add: min_def) arith
    from less.hyps [OF this, of "pos + ?k"] less.prems step False show ?thesis
      by (subst read_chunks_unfold [OF refl]) auto
  qed
qed

lemma decrypt_second_prefix:
  "decrypt_second E nonce l st = Inr (st', p) \<Longrightarrow>
     (\<exists>B. st' = st\<lparr>msgBuf := B\<rparr> \<and> buf_read B 0 MsgHeaderLen = buf_read (msgBuf st) 0 MsgHeaderLen)"
  by (force simp: decrypt_second_def Let_def pos_body buf_write_above
      split: if_splits go.splits sum.splits)

definition head_inv :: "rl_state \<Rightarrow> bool" where
  "head_inv st \<longleftrightarrow> (listenHeader st \<or> buf_read (msgBuf st) 0 MsgHeaderLen = head_bytes (msgH st))"

lemma read_header_inv:
  assumes "read_header E st = Continue st'"
  shows "head_inv st' \<and> events st' = events st"
proof (cases "Unpack (ce_gcm E) (conn st) (conn_key E) MessageBeatLen")
  case (fields r n c)
  from assms fields obtain hb h where hb: "r = Inr hb" "MsgHeaderLen \<le> length hb"
    and B: "msgBuf st' = buf_write (msgBuf st) 0 (take MsgHeaderLen hb)" "msgH st' = h" "events st' = events st"
    and dec: "MessageHead_Decode (buf_read (msgBuf st') 0 MsgHeaderLen) = Ret h"
    by (auto simp: read_header_def Let_def split: sum.splits go.splits if_splits)
  then have "head_bytes h = buf_read (msgBuf st') 0 MsgHeaderLen"
    by (intro head_bytes_Decode) simp_all
  with B show ?thesis by (simp add: head_inv_def)
qed

section \<open>Dispatched messages are verified\<close>

definition verified :: "conn_env \<Rightarrow> MessageSign \<Rightarrow> RelayMsgBuf \<Rightarrow> bool" where
  "verified E s m \<longleftrightarrow>
     MessageSign_Verify (ce_crypto E) s (head_bytes (MSGHead m) @ MSGBody m) (remoteP2pAddress E) = None"

definition announces :: "conn_env \<Rightarrow> RelayMsgBuf \<Rightarrow> rl_event list" where
  "announces E m = (if has_onRead E then [OnRead m] else []) @
     (if has_handler E (Cmd (MSGHead m)) then [HandlerCh m] else [])"

lemma CopyMessageHeader_same [simp]: "CopyMessageHeader h = h"
  by (simp add: CopyMessageHeader_def)

lemma verified_received:
  "verified E s (received_msg h b d) \<longleftrightarrow>
     MessageSign_Verify (ce_crypto E) s (head_bytes h @ b) (remoteP2pAddress E) = None"
  by (simp add: verified_def received_msg_def)

lemma dispatch_events:
  "events (dispatch E st (received_msg (msgH st) b d)) = events st @ announces E (received_msg (msgH st) b d) \<and>
   msgS (dispatch E st (received_msg (msgH st) b d)) = msgS st \<and>
   listenHeader (dispatch E st (received_msg (msgH st) b d))"
  by (simp add: dispatch_def announces_def received_msg_def Let_def)

lemma buf_read_split: "a \<le> b \<Longrightarrow> buf_read f 0 b = buf_read f 0 a @ buf_read f a b"
  using upt_add_eq_append [of 0 a "b - a"] by (simp add: buf_read_def)

lemma handle_second_verified:
  assumes "handle_second E nonce l st = Continue st'"
    and head: "buf_read (msgBuf st) 0 MsgHeaderLen = head_bytes (msgH st)"
  shows "(events st' = events st \<and> head_inv st') \<or>
    (\<exists>m. events st' = events st @ announces E m \<and> verified E (msgS st') m \<and> head_inv st')"
proof -
  let ?posSign = "word_of_nat MsgHeaderLen + Len (msgH st) :: u32"
  obtain st1 p where dec: "decrypt_second E nonce l st = Inr (st1, p)"
    using assms(1) by (auto simp: handle_second_def Let_def split: sum.splits)
  obtain B where B: "st1 = st\<lparr>msgBuf := B\<rparr>" "buf_read B 0 MsgHeaderLen = head_bytes (msgH st)"
    using decrypt_second_prefix [OF dec] head by auto
  obtain s k hb where s: "go_bind (buf_slice B (unat ?posSign) (unat (?posSign + word_of_nat MsgSignLen)))
      (MessageSign_Decode (msgS st)) = Ret (s, k)" and hb: "buf_slice B 0 (unat ?posSign) = Ret hb"
    using assms(1) by (auto simp: handle_second_def Let_def dec B split: go.splits)
  show ?thesis
  proof (cases "MessageSign_Verify (ce_crypto E) s hb (remoteP2pAddress E) = None")
    case False
    then have "st' = st\<lparr>msgBuf := B, msgS := s\<rparr>"
      using assms(1) by (simp add: handle_second_def Let_def dec B s hb)
    with B show ?thesis by (simp add: head_inv_def)
  next
    case True
    then obtain body data where body: "buf_slice B MsgHeaderLen (unat ?posSign) = Ret body"
      and st': "st' = dispatch E (st\<lparr>msgBuf := B, msgS := s\<rparr>) (received_msg (msgH st) body data)"
      using assms(1)
      by (auto simp: handle_second_def Let_def dec B s hb pos_body split: go.splits if_splits)
    have "hb = head_bytes (msgH st) @ body"
      using body hb B buf_read_split [of MsgHeaderLen "unat ?posSign" B]
      by (auto simp: buf_slice_def split: if_splits)
    with True st' dispatch_events [of E "st\<lparr>msgBuf := B, msgS := s\<rparr>" body data] show ?thesis
      by (intro disjI2 exI [of _ "received_msg (msgH st) body data"])
        (simp add: verified_received head_inv_def)
  qed
qed

lemma read_second_verified:
  assumes "read_second E st = Continue st'"
    and head: "buf_read (msgBuf st) 0 MsgHeaderLen = head_bytes (msgH st)"
  shows "(events st' = events st \<and> head_inv st') \<or>
    (\<exists>m. events st' = events st @ announces E m \<and> verified E (msgS st') m \<and> head_inv st')"
proof -
  obtain h n c where rd: "ReadEncryptionHeader (conn st) = (h, n, c)"
    by (cases "ReadEncryptionHeader (conn st)")
  with assms obtain nonce l where h: "h = Some (nonce, l)"
    by (auto simp: read_second_def Let_def split: option.splits)
  let ?st = "st\<lparr>conn := c, readFlow := readFlow st + n\<rparr>"
  obtain st2 e where ch: "read_chunks (unat l) MsgHeaderLen ?st = (st2, e)"
    by (cases "read_chunks (unat l) MsgHeaderLen ?st")
  have hs: "handle_second E nonce l st2 = Continue st'"
    using assms rd h ch by (auto simp: read_second_def Let_def split: option.splits if_splits)
  have same: "msgH st2 = msgH st" "events st2 = events st"
    using read_chunks_account [OF ch] by simp_all
  have "buf_read (msgBuf st2) 0 MsgHeaderLen = head_bytes (msgH st2)"
    using read_chunks_prefix [of MsgHeaderLen "unat l" ?st] ch head same by simp
  from handle_second_verified [OF hs this] same show ?thesis by simp
qed

lemma readLoop_iter_verified:
  assumes "readLoop_iter E st = Continue st'" "head_inv st"
  shows "(events st' = events st \<and> head_inv st') \<or>
    (\<exists>m. events st' = events st @ announces E m \<and> verified E (msgS st') m \<and> head_inv st')"
  using assms read_header_inv [of E st st'] read_second_verified [of E st st']
  by (auto simp: readLoop_iter_def head_inv_def split: if_splits)

lemma rl_reach_head_inv: "rl_reach E c st \<Longrightarrow> head_inv st"
proof (induction rule: rl_reach.induct)
  case start
  then show ?case by (simp add: head_inv_def start_state_def)
next
  case (iter st st')
  then show ?case using readLoop_iter_verified by blast
qed

lemma rl_reach_accounted: "rl_reach E c st \<Longrightarrow> accounted st = length c"
proof (induction rule: rl_reach.induct)
  case start
  then show ?case by (simp add: accounted_def start_state_def)
next
  case (iter st st')
  then show ?case using readLoop_iter_account [of E st] by simp
qed

lemma readLoop_reach:
  "rl_reach E c st \<Longrightarrow> readLoop E st = (st', r) \<Longrightarrow>
     \<exists>st0. rl_reach E c st0 \<and> readLoop_iter E st0 = Closed st' r"
proof (induction E st arbitrary: st' r rule: readLoop.induct)
  case (1 E st)
  show ?case
  proof (cases "readLoop_iter E st")
    case (Continue st1)
    then have "readLoop E st1 = (st', r)"
      using 1(3) by (subst (asm) readLoop.simps) simp
    with 1 Continue show ?thesis by (blast intro: rl_reach.iter)
  next
    case (Closed st1 r1)
    then have "st1 = st' \<and> r1 = r"
      using 1(3) by (subst (asm) readLoop.simps) simp
    with Closed 1(2) show ?thesis by blast
  qed
qed

section \<open>After a message that does not verify\<close>

definition rejected :: "conn_env \<Rightarrow> RelayMsgBuf \<Rightarrow> MessageSign \<Rightarrow> bool" where
  "rejected E m s \<longleftrightarrow> sized m s \<and> minAppVer E \<le> Version (MSGHead m) \<and>
     MessageSign_Verify (ce_crypto E)
       \<lparr>Signature = Some (slice_bytes (Signature s)), P2pAddress = P2pAddress s,
        P2pPubKey = Some (slice_bytes (P2pPubKey s)), Signer = Signer zero_sign\<rparr>
       (head_bytes (MSGHead m) @ MSGBody m) (remoteP2pAddress E) \<noteq> None"

lemma Verify_Signer_irrelevant:
  "MessageSign_Verify C (s\<lparr>P2pAddress := a, P2pPubKey := pk, Signature := sg\<rparr>) hb r =
   MessageSign_Verify C \<lparr>Signature = sg, P2pAddress = a, P2pPubKey = pk, Signer = f\<rparr> hb r"
  by (simp add: MessageSign_Verify_def split: option.split)

lemma handle_second_rejected:
  assumes rej: "rejected E m s" and key: "usable_key E" and h: "msgH st = MSGHead m"
    and buf: "buf_read (msgBuf st) 0 (MsgHeaderLen + l) =
      head_bytes (MSGHead m) @ sealed (ce_gcm E) rnd (conn_key E) (second_part m s)"
    and l: "l = length (sealed (ce_gcm E) rnd (conn_key E) (second_part m s))"
      "MsgHeaderLen + l \<le> MessageBeatLen"
  shows "\<exists>B s'. handle_second E (frame_nonce rnd (conn_key E)) (word_of_nat l) st =
    Continue (st\<lparr>msgBuf := B, msgS := s'\<rparr>)"
proof -
  have sz: "sized m s" using rej by (simp add: rejected_def)
  then have sgn: "sign_sized s" by (simp add: sized_def)
  obtain B where dec: "decrypt_second E (frame_nonce rnd (conn_key E)) (word_of_nat l) st =
      Inr (st\<lparr>msgBuf := B\<rparr>, word_of_nat (MsgHeaderLen + length (second_part m s)))"
    and B: "buf_read B 0 (MsgHeaderLen + length (second_part m s)) = head_bytes (MSGHead m) @ second_part m s"
    using decrypt_second_frame [OF key buf l] by auto
  have "MessageSign_Verify (ce_crypto E) ((msgS st)\<lparr>P2pAddress := P2pAddress s,
      P2pPubKey := Some (slice_bytes (P2pPubKey s)), Signature := Some (slice_bytes (Signature s))\<rparr>)
      (head_bytes (MSGHead m) @ MSGBody m) (remoteP2pAddress E) \<noteq> None"
    using rej unfolding rejected_def Verify_Signer_irrelevant [where f = "Signer zero_sign"] by blast
  then show ?thesis
    by (auto simp: handle_second_def Let_def dec h packet_positions [OF sz] packet_slices [OF sz B]
        MessageSign_Decode_bytes [OF sgn] simp del: of_nat_add)
qed

lemma read_second_rejected:
  assumes rej: "rejected E m s" and key: "usable_key E" and h: "msgH st = MSGHead m"
    and st: "rl_i st = 0" "listenHeader st = False" "buf_read (msgBuf st) 0 MsgHeaderLen = head_bytes (MSGHead m)"
    and c: "conn st = frame (ce_gcm E) rnd (conn_key E) (second_part m s) @ c"
  shows "\<exists>st'. read_second E st = Continue st' \<and> \<not> listenHeader st' \<and> MsgSignLen \<le> rl_i st' \<and>
    rl_i st' \<le> MessageBeatLen \<and> conn st' = c \<and> events st' = events st"
proof -
  let ?x = "sealed (ce_gcm E) rnd (conn_key E) (second_part m s)"
  let ?l = "length ?x"
  have sz: "sized m s" using rej by (simp add: rejected_def)
  have lx: "?l \<le> length (second_part m s) + 16" "MsgSignLen \<le> ?l"
    using length_sealed [of "ce_gcm E" "conn_key E" rnd "second_part m s"] key sized_second_part [OF sz]
    by (auto simp: usable_key_def)
  with sized_second_part [OF sz] have fit: "MsgHeaderLen + ?l \<le> MessageBeatLen" by simp
  then have l32: "?l < 2 ^ 32" and l: "unat (word_of_nat ?l :: u32) = ?l"
    by (auto simp: size_defs intro: unat_word_of_nat)
  have over: "\<not> (word_of_nat MessageBeatLen :: u32) < word_of_nat ?l"
    using fit l by (simp add: word_less_nat_alt MessageBeatLen_def)
  obtain n where rd: "ReadEncryptionHeader (conn st) =
      (Some (frame_nonce rnd (conn_key E), word_of_nat ?l), n, ?x @ c)"
    using ReadEncryptionHeader_frame [OF l32, of "frame_nonce rnd (conn_key E)" "?x @ c"] c
    by (simp add: frame_def)
  let ?st = "st\<lparr>conn := ?x @ c, readFlow := readFlow st + n\<rparr>"
  let ?st2 = "?st\<lparr>msgBuf := buf_write (msgBuf st) MsgHeaderLen ?x, conn := c,
    readFlow := readFlow st + n + ?l, rl_i := ?l\<rparr>"
  have chunks: "read_chunks ?l MsgHeaderLen ?st = (?st2, None)"
    using read_chunks_all [of ?st ?l MsgHeaderLen] st fit by simp
  have "buf_read (msgBuf ?st2) 0 (MsgHeaderLen + ?l) = head_bytes (MSGHead m) @ ?x"
    using buf_write_prefix [OF st(3), of ?x] by simp
  from handle_second_rejected [OF rej key _ this refl fit] h
  obtain B s' where "handle_second E (frame_nonce rnd (conn_key E)) (word_of_nat ?l) ?st2 =
      Continue (?st2\<lparr>msgBuf := B, msgS := s'\<rparr>)"
    by auto
  then show ?thesis
    using rd over l chunks st(2) lx fit by (auto simp: read_second_def)
qed

lemma readLoop_after_rejected:
  assumes rej: "rejected E m s" and key: "usable_key E" and rnd: "length r1 = 8" "length r3 = 8"
    and st: "idle st"
    and c: "conn st = wire_bytes E r1 r2 m s @ frame (ce_gcm E) r3 (conn_key E) (head_bytes h) @ c"
  shows "\<exists>st'. readLoop E st = (st', SizeMismatch) \<and> events st' = events st"
proof -
  let ?c = "frame (ce_gcm E) r3 (conn_key E) (head_bytes h) @ c"
  have ver: "minAppVer E \<le> Version (MSGHead m)" using rej by (simp add: rejected_def)
  from read_header_frame [OF rnd(1) _ ver, of st] key c
  obtain n where hd: "read_header E st = Continue (st\<lparr>
      conn := frame (ce_gcm E) r2 (conn_key E) (second_part m s) @ ?c, readFlow := n,
      msgBuf := buf_write (msgBuf st) 0 (head_bytes (MSGHead m)), msgH := MSGHead m, listenHeader := False\<rparr>)"
    (is "_ = Continue ?st")
    by (auto simp: wire_bytes_def usable_key_def)
  have "buf_read (msgBuf ?st) 0 MsgHeaderLen = head_bytes (MSGHead m)"
    using buf_read_first [of "msgBuf st" "head_bytes (MSGHead m)"] by simp
  with read_second_rejected [OF rej key, of ?st r2 ?c] st
  obtain st1 where st1: "read_second E ?st = Continue st1" "\<not> listenHeader st1" "MsgSignLen \<le> rl_i st1"
    "rl_i st1 \<le> MessageBeatLen" "conn st1 = ?c" "events st1 = events st"
    by (auto simp: idle_def)
  let ?l = "length (sealed (ce_gcm E) r3 (conn_key E) (head_bytes h))"
  have l: "?l \<le> 37"
    using length_sealed [of "ce_gcm E" "conn_key E" r3 "head_bytes h"] key
    by (auto simp: usable_key_def MsgHeaderLen_def)
  then have rd: "ReadEncryptionHeader (conn st1) = (Some (frame_nonce r3 (conn_key E), word_of_nat ?l),
      EncryptionHeaderSize, sealed (ce_gcm E) r3 (conn_key E) (head_bytes h) @ c)"
    using ReadEncryptionHeader_frame [of ?l] st1(5) by (simp add: frame_def)
  have ul: "unat (word_of_nat ?l :: u32) = ?l" using l by (intro unat_word_of_nat) simp
  have ui: "unat (word_of_nat (rl_i st1) :: u32) = rl_i st1"
    using st1(4) by (intro unat_word_of_nat) (simp add: MessageBeatLen_def)
  have ne: "(word_of_nat (rl_i st1) :: u32) \<noteq> word_of_nat ?l"
  proof
    assume "(word_of_nat (rl_i st1) :: u32) = word_of_nat ?l"
    with ul ui have "rl_i st1 = ?l" by simp
    with l st1(3) show False by (simp add: sign_sizes)
  qed
  have no_read: "read_chunks ?l MsgHeaderLen (st1\<lparr>conn := c', readFlow := f\<rparr>) = (st1\<lparr>conn := c', readFlow := f\<rparr>, None)" for c' f
    using l st1(3) by (subst read_chunks.simps) (simp add: sign_sizes)
  have "\<not> (word_of_nat MessageBeatLen :: u32) < word_of_nat ?l"
    using l ul by (simp add: word_less_nat_alt MessageBeatLen_def)
  then obtain st2 where st2: "read_second E st1 = Closed st2 SizeMismatch" "events st2 = events st"
    using rd ul ne no_read st1(6) by (simp add: read_second_def)
  have "readLoop E st = readLoop E ?st"
    using hd st by (subst readLoop.simps) (simp add: readLoop_iter_def idle_def)
  also have "\<dots> = readLoop E st1"
    using st1 by (subst readLoop.simps) (simp add: readLoop_iter_def)
  also have "\<dots> = (st2, SizeMismatch)"
    using st1 st2 by (subst readLoop.simps) (simp add: readLoop_iter_def)
  finally show ?thesis using st2 by auto
qed

end
