(* ===== verification/Conn_Props.thy ===== *)
theory Conn_Props
  imports Conn_Safety
begin

text \<open>
  The properties of the wire format and of connections. The concrete connection at the start
  serves the witnesses: a cipher that appends a tag, and a signature that repeats the text.
\<close>

section \<open>A concrete connection\<close>

definition tag_gcm :: gcm where
  "tag_gcm = \<lparr>gcm_seal = (\<lambda>key nonce p. p @ replicate 16 0),
     gcm_open = (\<lambda>key nonce c. if length c < 16 then None else Some (take (length c - 16) c))\<rparr>"

definition echo_sign :: "bytes \<Rightarrow> bytes" where
  "echo_sign x = take 64 (x @ replicate 64 7)"

definition echo_crypto :: p2p_crypto where
  "echo_crypto = \<lparr>CalcHashBytes = (\<lambda>x. take 32 x),
     VerifyP2pAddrBytes = (\<lambda>pk a. take 32 a = pk),
     VerifyP2pSignBytes = (\<lambda>pk sg x. sg = echo_sign x)\<rparr>"

definition demo_env :: conn_env where
  "demo_env = \<lparr>ce_crypto = echo_crypto, ce_gcm = tag_gcm, encryptMessage = True,
     sharedKey = Some (replicate 32 5), minAppVer = 10, remoteP2pAddress = replicate 44 3,
     has_handler = (\<lambda>c. c = 2), has_onRead = True, bufferSize = 3 * 1024 * 1024\<rparr>"

definition demo_sign :: "(bytes \<Rightarrow> string + bytes) \<Rightarrow> MessageSign" where
  "demo_sign f = \<lparr>Signature = None, P2pAddress = replicate 44 3,
     P2pPubKey = Some (replicate 32 3), Signer = f\<rparr>"

definition demo_msg :: RelayMsgBuf where
  "demo_msg = \<lparr>PacketId = 1,
     MSGHead = \<lparr>Tag = 1, Len = 3, DataLen = 0, Cmd = 2, ReqId = 77, Version = 12\<rparr>,
     MSGSign = demo_sign (\<lambda>x. Inr (echo_sign x)), MSGBody = [1, 2, 3], MSGData = [9, 8]\<rparr>"

lemma tag_gcm_laws: "gcm_laws tag_gcm"
  by (simp add: gcm_laws_def tag_gcm_def)

lemma demo_key: "usable_key demo_env"
  by (simp add: usable_key_def demo_env_def key_ok_def conn_key_def tag_gcm_laws aes_key_ok_def)

lemma demo_deliverable: "deliverable demo_env (replicate 8 1, replicate 8 2, demo_msg)"
  by (simp add: deliverable_def demo_msg_def demo_sign_def MessageSign_Sign_def accepted_def sized_def
      sign_sized_def slice_bytes_def sign_sizes echo_sign_def demo_env_def echo_crypto_def sign_msg_def
      ThresholdToHashBeforeSign_def MsgHeaderLen_def MessageBeatLen_def)

lemma demo_wire_length:
  "length (queued_bytes demo_env (replicate 8 1, replicate 8 2, demo_msg)) = 222"
  by (simp add: queued_bytes_def demo_msg_def demo_sign_def MessageSign_Sign_def wire_bytes_def frame_def
      sealed_def second_part_def sign_bytes_def slice_bytes_def echo_sign_def demo_env_def conn_key_def
      tag_gcm_def MsgHeaderLen_def)

section \<open>Properties\<close>

text \<open>C1: end to end delivery. Whatever sequence of messages a sender queues, if every message
  can be signed and is acceptable to the receiver, then \<open>writeLoop\<close> writes them without failing
  and \<open>readLoop\<close> at the other end of the connection dispatches exactly these messages, with the
  same heads, bodies and data and in the same order, before it reports the end of the stream.\<close>
theorem packets_delivered:
  assumes "linked S E" "usable_key E" "\<And>n. length (mem n) = n" "list_all (deliverable E) q"
    and "length (concat (map (queued_bytes E) q)) \<le> w_room w"
  shows "\<exists>w' st'. writeLoop S mem hooks w q = Ret w' \<and>
    readLoop E (start_state (drop (length (w_out w)) (w_out w'))) = (st', ReadHeaderErr) \<and>
    events st' = concat (map (\<lambda>(r1, r2, m). delivered E m) q)"
proof -
  obtain w' where w': "writeLoop S mem hooks w q = Ret w'"
    "w_out w' = w_out w @ concat (map (queued_bytes E) q)"
    using writeLoop_sends [OF assms] by blast
  have "idle (start_state c)" "events (start_state c) = []" "conn (start_state c) = c" for c
    by (simp_all add: idle_def start_state_def)
  with readLoop_stream [OF assms(2,4), of "start_state (concat (map (queued_bytes E) q))"] w'
  show ?thesis by auto
qed

theorem packets_delivered_witness:
  "\<exists>w' st'. writeLoop demo_env (\<lambda>n. replicate n 0) [] \<lparr>w_out = [], w_room = 1000, writeFlow = 0\<rparr>
      [(replicate 8 1, replicate 8 2, demo_msg), (replicate 8 1, replicate 8 2, demo_msg)] = Ret w' \<and>
    readLoop demo_env (start_state (w_out w')) = (st', ReadHeaderErr) \<and>
    events st' = delivered demo_env demo_msg @ delivered demo_env demo_msg"
  using packets_delivered [of demo_env demo_env "\<lambda>n. replicate n 0"
      "[(replicate 8 1, replicate 8 2, demo_msg), (replicate 8 1, replicate 8 2, demo_msg)]"
      "\<lparr>w_out = [], w_room = 1000, writeFlow = 0\<rparr>" "[]"]
  by (simp add: linked_def demo_key demo_deliverable demo_wire_length)

text \<open>C2: authenticity. In every state that \<open>readLoop\<close> reaches on any byte stream whatsoever, an
  iteration that announces anything announces one message, and the signature block received with
  it verifies for exactly the head and the body of that message and the address of the peer.\<close>
theorem dispatch_authentic:
  assumes "rl_reach E c st" "readLoop_iter E st = Continue st'" "events st' \<noteq> events st"
  shows "\<exists>m. events st' = events st @ announces E m \<and>
    MessageSign_Verify (ce_crypto E) (msgS st') (head_bytes (MSGHead m) @ MSGBody m)
      (remoteP2pAddress E) = None"
  using readLoop_iter_verified [OF assms(2) rl_reach_head_inv [OF assms(1)]] assms(3)
  by (auto simp: verified_def)

theorem dispatch_authentic_witness:
  "\<exists>c st st' m. rl_reach demo_env c st \<and> readLoop_iter demo_env st = Continue st' \<and>
     events st' = events st @ announces demo_env m \<and> announces demo_env m \<noteq> [] \<and>
     MessageSign_Verify (ce_crypto demo_env) (msgS st') (head_bytes (MSGHead m) @ MSGBody m)
      (remoteP2pAddress demo_env) = None"
proof -
  let ?r1 = "replicate 8 1 :: bytes" and ?r2 = "replicate 8 2 :: bytes"
  from demo_deliverable obtain s where acc: "accepted demo_env demo_msg s"
    by (auto simp: deliverable_def split: sum.splits)
  let ?st = "start_state (wire_bytes demo_env ?r1 ?r2 demo_msg s)"
  have key: "key_ok (ce_gcm demo_env) (conn_key demo_env)" using demo_key by (simp add: usable_key_def)
  have ver: "minAppVer demo_env \<le> Version (MSGHead demo_msg)" using acc by (simp add: accepted_def)
  obtain n where h: "read_header demo_env ?st = Continue (?st\<lparr>
      conn := frame (ce_gcm demo_env) ?r2 (conn_key demo_env) (second_part demo_msg s), readFlow := n,
      msgBuf := buf_write (msgBuf ?st) 0 (head_bytes (MSGHead demo_msg)), msgH := MSGHead demo_msg,
      listenHeader := False\<rparr>)" (is "_ = Continue ?st1")
    using read_header_frame [OF _ key ver, of ?r1 ?st] by (auto simp: wire_bytes_def start_state_def)
  then have i1: "readLoop_iter demo_env ?st = Continue ?st1"
    by (simp add: readLoop_iter_def start_state_def)
  have b: "buf_read (msgBuf ?st1) 0 MsgHeaderLen = head_bytes (MSGHead demo_msg)"
    using buf_read_first [of "msgBuf ?st" "head_bytes (MSGHead demo_msg)"] by simp
  from read_second_frame [OF acc demo_key _ _ b, of ?r2 "[]"]
  obtain st' where i2: "readLoop_iter demo_env ?st1 = Continue st'"
    and ev: "events st' = events ?st1 @ delivered demo_env demo_msg"
    by (auto simp: readLoop_iter_def start_state_def)
  have ne: "events st' \<noteq> events ?st1" using ev by (simp add: delivered_def Let_def)
  have r: "rl_reach demo_env (wire_bytes demo_env ?r1 ?r2 demo_msg s) ?st1"
    using rl_reach.iter [OF rl_reach.start i1] .
  from dispatch_authentic [OF r i2 ne] r i2 ne show ?thesis by fastforce
qed

text \<open>C3: accounting. Whatever the stream, \<open>readLoop\<close> returns, and the bytes it reported to the
  read counters together with the bytes it left unread are all bytes of the stream.\<close>
theorem readLoop_accounts:
  "case readLoop E (start_state c) of (st', r) \<Rightarrow> readFlow st' + length (conn st') = length c"
proof (cases "readLoop E (start_state c)")
  case (Pair st' r)
  from readLoop_reach [OF rl_reach.start this]
  obtain st where "rl_reach E c st" "readLoop_iter E st = Closed st' r" by blast
  then show ?thesis
    using rl_reach_accounted [of E c st] readLoop_iter_account [of E st] Pair
    by (simp add: accounted_def)
qed

text \<open>C4: a message whose signature does not verify is not dispatched, and it also takes the
  connection down: the loop goes on without returning to the state in which it expects a head, so
  the head of the next message is taken for a second part of the wrong size, and the loop returns.\<close>
theorem bad_signature_closes:
  assumes "rejected E m s" "usable_key E" "length r1 = 8" "length r3 = 8"
  shows "\<exists>st'. readLoop E (start_state (wire_bytes E r1 r2 m s @
      frame (ce_gcm E) r3 (conn_key E) (head_bytes h) @ c)) = (st', SizeMismatch) \<and> events st' = []"
  using readLoop_after_rejected [OF assms, of "start_state _"] by (simp add: idle_def start_state_def)

theorem bad_signature_closes_witness:
  "\<exists>st'. readLoop demo_env (start_state (wire_bytes demo_env (replicate 8 1) (replicate 8 2) demo_msg
        ((demo_sign (\<lambda>x. Inr x))\<lparr>Signature := Some (replicate 64 0)\<rparr>) @
      frame tag_gcm (replicate 8 3) (Some (replicate 32 5)) (head_bytes (MSGHead demo_msg)) @ [])) =
      (st', SizeMismatch) \<and> events st' = []"
proof -
  let ?s = "(demo_sign (\<lambda>x. Inr x))\<lparr>Signature := Some (replicate 64 0)\<rparr>"
  have "head_bytes (MSGHead demo_msg) ! 1 = 1"
    by (simp add: demo_msg_def head_bytes_def Int16ToBytes_def nth_append numeral_2_eq_2)
  then have "echo_sign (head_bytes (MSGHead demo_msg) @ [1, 2, 3]) ! 1 = 1"
    by (simp add: echo_sign_def nth_append MsgHeaderLen_def)
  then have "echo_sign (head_bytes (MSGHead demo_msg) @ [1, 2, 3]) \<noteq> replicate 64 0"
    by (metis nth_replicate one_less_numeral_iff semiring_norm(76) zero_neq_one)
  then have "rejected demo_env demo_msg ?s"
    by (simp add: rejected_def sized_def sign_sized_def demo_msg_def demo_sign_def demo_env_def
        slice_bytes_def sign_sizes MsgHeaderLen_def MessageBeatLen_def MessageSign_Verify_def
        echo_crypto_def sign_msg_def ThresholdToHashBeforeSign_def)
  from bad_signature_closes [OF this demo_key, of "replicate 8 1" "replicate 8 3" "replicate 8 2"
      "MSGHead demo_msg" "[]"]
  show ?thesis by (simp add: demo_env_def conn_key_def)
qed

text \<open>C5: \<open>MessageHead.Encode\<close> writes exactly \<open>MsgHeaderLen\<close> bytes at the start of any buffer that
  is long enough and leaves the rest alone, and \<open>Decode\<close> recovers every field of the head.\<close>
theorem head_roundtrip:
  assumes "MsgHeaderLen \<le> length data"
  shows "\<exists>data'. MessageHead_Encode h data = (data', MsgHeaderLen) \<and> length data' = length data \<and>
    drop MsgHeaderLen data' = drop MsgHeaderLen data \<and> MessageHead_Decode (take MsgHeaderLen data') = Ret h"
  using assms by (simp add: MessageHead_Encode_bytes MessageHead_Decode_bytes)

theorem head_roundtrip_witness:
  "\<exists>data'. MessageHead_Encode (MSGHead demo_msg) (replicate 30 255) = (data', MsgHeaderLen) \<and>
    length data' = 30 \<and> drop MsgHeaderLen data' = replicate 9 255 \<and>
    MessageHead_Decode (take MsgHeaderLen data') = Ret (MSGHead demo_msg)"
  using head_roundtrip [of "replicate 30 255" "MSGHead demo_msg"] by (simp add: MsgHeaderLen_def)

text \<open>\<open>Decode\<close> loses nothing: any 21 bytes decode to a head whose encoding is these bytes, so
  heads and 21 byte strings correspond one to one.\<close>
theorem head_decode_encode:
  assumes "length X = MsgHeaderLen"
  shows "\<exists>h. MessageHead_Decode X = Ret h \<and> fst (MessageHead_Encode h (replicate MsgHeaderLen 0)) = X"
proof -
  obtain h where "MessageHead_Decode X = Ret h" using assms by (simp add: MessageHead_Decode_def)
  with head_bytes_Decode [OF assms] show ?thesis by (simp add: MessageHead_Encode_bytes)
qed

theorem head_decode_encode_witness:
  "\<exists>h. MessageHead_Decode (replicate 21 200) = Ret h \<and>
     fst (MessageHead_Encode h (replicate MsgHeaderLen 0)) = replicate 21 200"
  using head_decode_encode [of "replicate 21 200"] by (simp add: MsgHeaderLen_def)

text \<open>C6: \<open>Unpack\<close> inverts \<open>Pack\<close>: with or without a key, a frame followed by anything yields the
  plaintext, reports its exact size and leaves what follows unread.\<close>
theorem pack_unpack:
  assumes "length rnd = 8" "key_ok G k" "length (sealed G rnd k p) \<le> maxBody" "maxBody < 2 ^ 32"
  shows "\<exists>f. Pack G rnd k p = Inr f \<and> Unpack G (f @ c) k maxBody = (Inr p, length f, c)"
  using Unpack_frame [OF assms] by blast

theorem pack_unpack_witness:
  "\<exists>f. Pack tag_gcm (replicate 8 1) (Some (replicate 16 4)) [1, 2, 3] = Inr f \<and>
     Unpack tag_gcm (f @ [7]) (Some (replicate 16 4)) 100 = (Inr [1, 2, 3], length f, [7])"
  using pack_unpack [of "replicate 8 1" tag_gcm "Some (replicate 16 4)" "[1, 2, 3]" 100 "[7]"] tag_gcm_laws
  by (simp add: key_ok_def aes_key_ok_def sealed_def tag_gcm_def)

text \<open>The first message of a connection: \<open>ParseFirstMessage\<close> recovers the connection type, the
  port and the channel of \<open>CreateFirstMessage\<close>, and the address in its 16 byte form, or zeros when
  it has none.\<close>
theorem first_message_roundtrip:
  "ParseFirstMessage (CreateFirstMessage t ip port ch) =
     Inr (conn_type_bytes t, case IP_To16 ip of None \<Rightarrow> replicate 16 0 | Some x \<Rightarrow> x, port, ch)"
  by (rule ParseFirstMessage_Create)

text \<open>When signing fails, \<open>writePacket\<close> still reports success and sends a packet whose
  signature and data are whatever the allocated memory held before.\<close>
theorem unsigned_packet_sent:
  assumes "usable_key E" "\<And>n. length (mem n) = n" "length r1 = 8" "length r2 = 8"
    and "well_sized m m" "MessageSign_Sign (ce_crypto E) (MSGSign m) (head_bytes (MSGHead m) @ MSGBody m) = Inl err"
    and "length (MSGBody m) + MsgSignLen + length (MSGData m) + 16 \<le> MessageBeatLen"
  defines "garbage \<equiv> drop (MsgHeaderLen + length (MSGBody m))
    (mem (MsgHeaderLen + length (MSGBody m) + MsgSignLen + length (MSGData m)))"
  defines "sent \<equiv> frame (ce_gcm E) r1 (conn_key E) (head_bytes (MSGHead m)) @
    frame (ce_gcm E) r2 (conn_key E) (MSGBody m @ garbage)"
  assumes "length sent \<le> w_room w"
  shows "\<exists>w' hs. writePacket E mem r1 r2 hooks w m = Ret (w', None, hs) \<and> w_out w' = w_out w @ sent"
proof -
  let ?start = "\<lparr>PacketId = PacketId m, MSGHead = MSGHead m, MSGSign = MSGSign m, MSGBody = [], MSGData = []\<rparr>"
  let ?p = "\<lparr>PacketId = PacketId m, MSGHead = MSGHead m, MSGSign = MSGSign m, MSGBody = [],
    MSGData = head_bytes (MSGHead m) @ MSGBody m @ garbage\<rparr>"
  have ws: "well_sized ?start m" using assms(5) by (simp add: well_sized_def)
  have put: "PutIntoBuffer (ce_crypto E) mem ?start m = Ret (0, ?p)"
    using PutIntoBuffer_sign_failure [OF ws assms(2), of "ce_crypto E" err] assms(6) by (simp add: garbage_def)
  have parts: "GetHeader ?p = head_bytes (MSGHead m)" "GetBytesAfterHeader ?p = MSGBody m @ garbage"
    by (simp_all add: GetHeader_def GetBytesAfterHeader_def)
  have k: "key_ok (ce_gcm E) (conn_key E)" using assms(1) by (simp add: usable_key_def)
  have pk: "Pack (ce_gcm E) r1 (conn_key E) (head_bytes (MSGHead m)) =
      Inr (frame (ce_gcm E) r1 (conn_key E) (head_bytes (MSGHead m)))"
    "Pack (ce_gcm E) r2 (conn_key E) (MSGBody m @ garbage) =
      Inr (frame (ce_gcm E) r2 (conn_key E) (MSGBody m @ garbage))"
    using Pack_is_frame [OF assms(3) k, of "head_bytes (MSGHead m)"]
      Pack_is_frame [OF assms(4) k, of "MSGBody m @ garbage"] assms(2,7)
    by (simp_all add: MsgHeaderLen_def MessageBeatLen_def garbage_def)
  show ?thesis
    using assms(10) unfolding sent_def
    by (simp add: writePacket_def Let_def put parts pk WriteFull_fits write_chunks_fits)
qed

theorem unsigned_packet_sent_witness:
  "\<exists>w' hs. writePacket demo_env (\<lambda>n. replicate n 222) (replicate 8 1) (replicate 8 2) []
      \<lparr>w_out = [], w_room = 1000, writeFlow = 0\<rparr>
      (demo_msg\<lparr>MSGSign := demo_sign (\<lambda>_. Inl ''key locked'')\<rparr>) = Ret (w', None, hs) \<and>
    w_out w' = frame tag_gcm (replicate 8 1) (Some (replicate 32 5)) (head_bytes (MSGHead demo_msg)) @
      frame tag_gcm (replicate 8 2) (Some (replicate 32 5)) ([1, 2, 3] @ replicate 142 222)"
proof -
  let ?m = "demo_msg\<lparr>MSGSign := demo_sign (\<lambda>_. Inl ''key locked'')\<rparr>"
  have ws: "well_sized ?m ?m"
    by (simp add: well_sized_def demo_msg_def MsgHeaderLen_def sign_sizes)
  have sg: "MessageSign_Sign (ce_crypto demo_env) (MSGSign ?m) (head_bytes (MSGHead ?m) @ MSGBody ?m) =
      Inl ''key locked''"
    by (simp add: MessageSign_Sign_def demo_sign_def)
  show ?thesis
    using unsigned_packet_sent [OF demo_key, of "\<lambda>n. replicate n 222" "replicate 8 1" "replicate 8 2"
        ?m "''key locked''" "\<lparr>w_out = [], w_room = 1000, writeFlow = 0\<rparr>" "[]", OF _ _ _ ws sg]
    by (simp add: demo_msg_def demo_env_def conn_key_def MsgHeaderLen_def sign_sizes MessageBeatLen_def
        frame_def sealed_def tag_gcm_def)
qed

text \<open>The answer to a peer with an outdated version is never sent: \<open>SendBadVersionMsg\<close> builds a
  message without signing information, which \<open>Write\<close> refuses, so the send queue is unchanged.\<close>
theorem bad_version_not_sent:
  "SendBadVersionMsg closed newReqId minVer rspBadVersion sendCh data = (Some MissingSignInfo, sendCh)"
  by (simp add: SendBadVersionMsg_def ServerConn_Write_def bad_version_msg_def zero_sign_def)

text \<open>A message accepted by \<open>Write\<close> is appended to the send queue unchanged except for its
  packet id and its request id, which is kept when it is set and is otherwise the request id of
  the context or, without one, a newly generated id. On a closed connection nothing is queued.\<close>
theorem write_queues:
  assumes "P2pAddress (MSGSign m) \<noteq> []" "P2pPubKey (MSGSign m) \<noteq> None"
  shows "ServerConn_Write closed ctxReqId newReqId ctxPacketId sendCh m =
    (if closed then (Some ErrServerClosed, sendCh)
     else (None, sendCh @ [m\<lparr>PacketId := ctxPacketId,
       MSGHead := (MSGHead m)\<lparr>ReqId := if ReqId (MSGHead m) \<noteq> 0 then ReqId (MSGHead m)
         else if ctxReqId \<noteq> 0 then ctxReqId else newReqId\<rparr>\<rparr>]))"
  using assms by (simp add: ServerConn_Write_def asyncWrite_def Let_def)

theorem write_queues_witness:
  "ServerConn_Write False 0 42 7 [] (demo_msg\<lparr>MSGHead := (MSGHead demo_msg)\<lparr>ReqId := 0\<rparr>\<rparr>) =
     (None, [demo_msg\<lparr>PacketId := 7, MSGHead := (MSGHead demo_msg)\<lparr>ReqId := 42\<rparr>\<rparr>])"
  using write_queues [of "demo_msg\<lparr>MSGHead := (MSGHead demo_msg)\<lparr>ReqId := 0\<rparr>\<rparr>" False 0 42 7 "[]"]
  by (simp add: demo_msg_def demo_sign_def)

end
