(* ===== verification/Client_Conn.thy ===== *)
theory Client_Conn
  imports Conn_Props
begin

text \<open>
  The loops of a client connection (\<open>framework/client/cf/conn.go\<close>). They repeat the loops of the
  server connection, with three differences: a head of an outdated version is skipped and the loop
  goes on, the write loop does not drain its queue when it ends, and reads and writes of file
  slices are paused to limit their rate, which does not change what is read or written.
\<close>

section \<open>Reading\<close>

definition client_read_header :: "conn_env \<Rightarrow> rl_state \<Rightarrow> rl_iter" where
  "client_read_header E st =
     (let (res, n, c) = Unpack (ce_gcm E) (conn st) (conn_key E) MessageBeatLen;
          st1 = st\<lparr>conn := c, readFlow := readFlow st + n\<rparr>
      in case res of
           Inl err \<Rightarrow> Closed st1 ReadHeaderErr
         | Inr headerBytes \<Rightarrow>
             if length headerBytes < MsgHeaderLen then Closed st1 Panicked
             else
               (let st2 = st1\<lparr>msgBuf := buf_write (msgBuf st1) 0 (take MsgHeaderLen headerBytes)\<rparr>
                in case MessageHead_Decode (take MsgHeaderLen headerBytes) of
                     Panic p \<Rightarrow> Closed st2 Panicked
                   | Ret h \<Rightarrow>
                       if Version h < minAppVer E then Continue (st2\<lparr>msgH := h\<rparr>)
                       else Continue (st2\<lparr>msgH := h, listenHeader := False\<rparr>)))"

definition client_read_second :: "conn_env \<Rightarrow> rl_state \<Rightarrow> rl_iter" where
  "client_read_second E st = read_second E st"

definition client_readLoop_iter :: "conn_env \<Rightarrow> rl_state \<Rightarrow> rl_iter" where
  "client_readLoop_iter E st = (if listenHeader st then client_read_header E st else client_read_second E st)"

lemma client_read_header_current:
  assumes "read_header E st = Continue st'"
  shows "client_read_header E st = Continue st'"
proof (cases "Unpack (ce_gcm E) (conn st) (conn_key E) MessageBeatLen")
  case (fields r n c)
  have "buf_read (buf_write f 0 (take MsgHeaderLen hb)) 0 MsgHeaderLen = take MsgHeaderLen hb"
    if "MsgHeaderLen \<le> length hb" for f hb
    using buf_read_first [of f "take MsgHeaderLen hb"] that by simp
  with assms fields show ?thesis
    by (auto simp: read_header_def client_read_header_def Let_def not_less split: sum.splits go.splits if_splits)
qed

lemma client_read_header_consumes:
  assumes "client_read_header E st = Continue st'"
  shows "length (conn st') < length (conn st)"
proof (cases "Unpack (ce_gcm E) (conn st) (conn_key E) MessageBeatLen")
  case (fields r n c)
  from Unpack_account [OF fields] have "\<And>x. r = Inr x \<Longrightarrow> length c < length (conn st)"
    by (auto simp: EncryptionHeaderSize_def EncryptionNonceSize_def)
  with assms fields show ?thesis
    by (auto simp: client_read_header_def Let_def split: sum.splits go.splits if_splits)
qed

lemma client_iter_consumes:
  assumes "client_readLoop_iter E st = Continue st'"
  shows "length (conn st') < length (conn st)"
  using assms client_read_header_consumes [of E st st'] readLoop_iter_consumes [of E st st']
  by (auto simp: client_readLoop_iter_def client_read_second_def readLoop_iter_def split: if_splits)

function client_readLoop :: "conn_env \<Rightarrow> rl_state \<Rightarrow> rl_state \<times> close_reason" where
  "client_readLoop E st =
     (case client_readLoop_iter E st of Continue st' \<Rightarrow> client_readLoop E st' | Closed st' r \<Rightarrow> (st', r))"
  by pat_completeness auto
termination
  by (relation "measure (\<lambda>(E, st). length (conn st))") (auto dest: client_iter_consumes)

declare client_readLoop.simps [simp del]

section \<open>Writing\<close>

text \<open>A connection is absent for a \<open>nil\<close> pointer; otherwise it tells whether its queue has been closed.\<close>

definition client_asyncWrite ::
  "bool option \<Rightarrow> u64 \<Rightarrow> u64 \<Rightarrow> u64 \<Rightarrow> RelayMsgBuf list \<Rightarrow> RelayMsgBuf \<Rightarrow> write_error option \<times> RelayMsgBuf list" where
  "client_asyncWrite cc ctxReqId newReqId ctxPacketId sendCh m =
     (case cc of
        None \<Rightarrow> (Some NilConnection, sendCh)
      | Some closed \<Rightarrow>
          (let m1 = (if ReqId (MSGHead m) = 0
                     then m\<lparr>MSGHead := (MSGHead m)\<lparr>ReqId := if ctxReqId = 0 then newReqId else ctxReqId\<rparr>\<rparr>
                     else m);
               m2 = m1\<lparr>PacketId := ctxPacketId\<rparr>
           in if closed then (Some ErrServerClosed, sendCh) else (None, sendCh @ [m2])))"

definition client_Write ::
  "bool option \<Rightarrow> u64 \<Rightarrow> u64 \<Rightarrow> u64 \<Rightarrow> RelayMsgBuf list \<Rightarrow> RelayMsgBuf \<Rightarrow> write_error option \<times> RelayMsgBuf list" where
  "client_Write cc ctxReqId newReqId ctxPacketId sendCh m =
     (if P2pAddress (MSGSign m) = [] \<or> P2pPubKey (MSGSign m) = None
      then (Some MissingSignInfo, sendCh)
      else client_asyncWrite cc ctxReqId newReqId ctxPacketId sendCh m)"

lemma client_Write_server:
  "client_Write (Some closed) ctxReqId newReqId ctxPacketId sendCh m =
   ServerConn_Write closed ctxReqId newReqId ctxPacketId sendCh m"
  by (simp add: client_Write_def client_asyncWrite_def ServerConn_Write_def asyncWrite_def)

definition client_writePacket ::
  "conn_env \<Rightarrow> (nat \<Rightarrow> bytes) \<Rightarrow> bytes \<Rightarrow> bytes \<Rightarrow> write_hook list \<Rightarrow> w_state \<Rightarrow> RelayMsgBuf \<Rightarrow>
     (w_state \<times> write_error option \<times> write_hook list) go" where
  "client_writePacket E mem rnd1 rnd2 hooks w m = writePacket E mem rnd1 rnd2 hooks w m"

fun client_writeLoop :: "conn_env \<Rightarrow> (nat \<Rightarrow> bytes) \<Rightarrow> write_hook list \<Rightarrow> w_state \<Rightarrow> queued list \<Rightarrow> w_state go" where
  "client_writeLoop E mem hooks w [] = Ret w"
| "client_writeLoop E mem hooks w ((r1, r2, m) # q) =
     go_bind (client_writePacket E mem r1 r2 hooks w m) (\<lambda>(w', err, _).
       if err = None then client_writeLoop E mem hooks w' q else Ret w')"

section \<open>Streams\<close>

lemma client_readLoop_packet:
  assumes acc: "accepted E m s" and key: "usable_key E" and rnd: "length rnd1 = 8"
    and st: "idle st" "conn st = wire_bytes E rnd1 rnd2 m s @ c"
  shows "\<exists>st'. client_readLoop E st = client_readLoop E st' \<and> idle st' \<and> conn st' = c \<and>
    events st' = events st @ delivered E m"
proof -
  have "minAppVer E \<le> Version (MSGHead m)" using acc by (simp add: accepted_def)
  with read_header_frame [OF rnd _ this, of st] key st
  obtain n where hd: "client_read_header E st = Continue (st\<lparr>
      conn := frame (ce_gcm E) rnd2 (conn_key E) (second_part m s) @ c, readFlow := n,
      msgBuf := buf_write (msgBuf st) 0 (head_bytes (MSGHead m)), msgH := MSGHead m, listenHeader := False\<rparr>)"
    (is "_ = Continue ?st")
    by (auto simp: wire_bytes_def usable_key_def dest!: client_read_header_current)
  have "buf_read (msgBuf ?st) 0 MsgHeaderLen = head_bytes (MSGHead m)"
    using buf_read_first [of "msgBuf st" "head_bytes (MSGHead m)"] by simp
  with read_second_frame [OF acc key, of ?st rnd2 c] st(1)
  obtain st' where snd: "read_second E ?st = Continue st'" and st': "listenHeader st'" "rl_i st' = 0"
    "conn st' = c" "events st' = events st @ delivered E m"
    by (auto simp: idle_def)
  have "client_readLoop E st = client_readLoop E ?st"
    using hd st(1) by (subst client_readLoop.simps) (simp add: client_readLoop_iter_def idle_def)
  also have "\<dots> = client_readLoop E st'"
    using snd by (subst client_readLoop.simps) (simp add: client_readLoop_iter_def client_read_second_def)
  finally show ?thesis using st' by (auto simp: idle_def)
qed

lemma client_readLoop_stream:
  assumes "usable_key E" "list_all (deliverable E) q" "idle st"
    and "conn st = concat (map (queued_bytes E) q)"
  shows "\<exists>st'. client_readLoop E st = (st', ReadHeaderErr) \<and>
    events st' = events st @ concat (map (\<lambda>(r1, r2, m). delivered E m) q)"
  using assms(2-4)
proof (induction q arbitrary: st)
  case Nil
  have "ReadEncryptionHeader [] = (None, 0, [])"
    by (simp add: ReadEncryptionHeader_def ReadFull_def EncryptionHeaderSize_def EncryptionNonceSize_def)
  with Nil show ?case
    by (subst client_readLoop.simps)
      (simp add: client_readLoop_iter_def idle_def client_read_header_def Unpack_def)
next
  case (Cons x q)
  obtain r1 r2 m where x: "x = (r1, r2, m)" by (cases x)
  with Cons.prems obtain s where sg: "MessageSign_Sign (ce_crypto E) (MSGSign m)
      (head_bytes (MSGHead m) @ MSGBody m) = Inr s" and acc: "accepted E m s" and r1: "length r1 = 8"
    by (auto simp: deliverable_def split: sum.splits)
  have "queued_bytes E x = wire_bytes E r1 r2 m s" by (simp add: x queued_bytes_def sg)
  then have "conn st = wire_bytes E r1 r2 m s @ concat (map (queued_bytes E) q)"
    using Cons.prems by simp
  from client_readLoop_packet [OF acc assms(1) r1 Cons.prems(2) this]
  obtain st1 where "client_readLoop E st = client_readLoop E st1" "idle st1"
    "conn st1 = concat (map (queued_bytes E) q)" "events st1 = events st @ delivered E m"
    by auto
  with Cons.IH [of st1] Cons.prems show ?case by (simp add: x)
qed

lemma client_writeLoop_same:
  assumes "linked S E" "usable_key E" "\<And>n. length (mem n) = n" "list_all (deliverable E) q"
    and "length (concat (map (queued_bytes E) q)) \<le> w_room w"
  shows "client_writeLoop S mem hooks w q = writeLoop S mem hooks w q"
  using assms(4,5)
proof (induction q arbitrary: w)
  case Nil
  then show ?case by simp
next
  case (Cons x q)
  obtain r1 r2 m where x: "x = (r1, r2, m)" by (cases x)
  from writePacket_sends [OF assms(1-3), of r1 r2 m w hooks] Cons.prems
  obtain w1 hs where w1: "writePacket S mem r1 r2 hooks w m = Ret (w1, None, hs)"
    "w_room w1 = w_room w - length (queued_bytes E x)"
    by (auto simp: x)
  have "length (concat (map (queued_bytes E) q)) \<le> w_room w1"
    using Cons.prems w1(2) by simp
  with Cons.IH [of w1] Cons.prems w1(1) show ?case by (simp add: x client_writePacket_def)
qed

section \<open>Properties\<close>

text \<open>C9: a client connection and a server connection understand each other in both directions: what
  the write loop of one sends, the read loop of the other dispatches, all messages that can be
  signed and are acceptable, complete and in order.\<close>
theorem client_packets_delivered:
  assumes "linked S E" "usable_key E" "\<And>n. length (mem n) = n" "list_all (deliverable E) q"
    and "length (concat (map (queued_bytes E) q)) \<le> w_room w"
  shows "\<exists>w' st' st''. writeLoop S mem hooks w q = Ret w' \<and> client_writeLoop S mem hooks w q = Ret w' \<and>
    client_readLoop E (start_state (drop (length (w_out w)) (w_out w'))) = (st', ReadHeaderErr) \<and>
    readLoop E (start_state (drop (length (w_out w)) (w_out w'))) = (st'', ReadHeaderErr) \<and>
    events st' = concat (map (\<lambda>(r1, r2, m). delivered E m) q) \<and> events st'' = events st'"
proof -
  obtain w' where w': "writeLoop S mem hooks w q = Ret w'"
    "w_out w' = w_out w @ concat (map (queued_bytes E) q)"
    using writeLoop_sends [OF assms] by blast
  have "idle (start_state c)" "events (start_state c) = []" "conn (start_state c) = c" for c
    by (simp_all add: idle_def start_state_def)
  with client_readLoop_stream [OF assms(2,4), of "start_state (concat (map (queued_bytes E) q))"]
    readLoop_stream [OF assms(2,4), of "start_state (concat (map (queued_bytes E) q))"] w'
    client_writeLoop_same [OF assms]
  show ?thesis by auto
qed

theorem client_packets_delivered_witness:
  "\<exists>w' st'. client_writeLoop demo_env (\<lambda>n. replicate n 0) [] \<lparr>w_out = [], w_room = 1000, writeFlow = 0\<rparr>
      [(replicate 8 1, replicate 8 2, demo_msg)] = Ret w' \<and>
    client_readLoop demo_env (start_state (w_out w')) = (st', ReadHeaderErr) \<and>
    events st' = delivered demo_env demo_msg"
  using client_packets_delivered [of demo_env demo_env "\<lambda>n. replicate n 0"
      "[(replicate 8 1, replicate 8 2, demo_msg)]" "\<lparr>w_out = [], w_room = 1000, writeFlow = 0\<rparr>" "[]"]
  by (auto simp: linked_def demo_key demo_deliverable demo_wire_length)

text \<open>A client that receives a message of an outdated version skips its head only: the next frame
  it takes for a head is the second part of that message, so its next head is made of the first
  21 bytes of the body, the signature and the data of the skipped message.\<close>
theorem outdated_message_desync:
  assumes "usable_key E" "sized m s" "Version (MSGHead m) < minAppVer E" "length r1 = 8" "length r2 = 8"
    and "MessageHead_Decode (take MsgHeaderLen (second_part m s)) = Ret h"
  shows "\<exists>st1 st2. client_readLoop_iter E (start_state (wire_bytes E r1 r2 m s @ c)) = Continue st1 \<and>
    client_readLoop_iter E st1 = Continue st2 \<and> msgH st2 = h \<and> conn st2 = c"
proof -
  let ?k = "conn_key E" and ?G = "ce_gcm E"
  have key: "key_ok ?G ?k" using assms(1) by (simp add: usable_key_def)
  have len: "length (second_part m s) + 16 \<le> MessageBeatLen" "MsgHeaderLen \<le> length (second_part m s)"
    using sized_second_part [OF assms(2)] by (auto simp: MsgHeaderLen_def sign_sizes)
  have un: "\<exists>n. Unpack ?G (frame ?G r ?k p @ c') ?k MessageBeatLen = (Inr p, n, c')"
    if "length r = 8" "length p + 16 \<le> MessageBeatLen" for r p c'
    using Unpack_frame [OF that(1) key, of p MessageBeatLen c'] Pack_is_frame [OF that(1) key that(2)]
      length_sealed [OF key, of r p] that(2) by (auto simp: MessageBeatLen_def split: if_splits)
  have hb: "length (head_bytes (MSGHead m)) + 16 \<le> MessageBeatLen"
    by (simp add: MsgHeaderLen_def MessageBeatLen_def)
  obtain n1 where u1: "Unpack ?G (wire_bytes E r1 r2 m s @ c) ?k MessageBeatLen =
      (Inr (head_bytes (MSGHead m)), n1, frame ?G r2 ?k (second_part m s) @ c)"
    using un [OF assms(4) hb, of "frame ?G r2 ?k (second_part m s) @ c"] by (auto simp: wire_bytes_def)
  obtain n2 where u2: "Unpack ?G (frame ?G r2 ?k (second_part m s) @ c) ?k MessageBeatLen =
      (Inr (second_part m s), n2, c)"
    using un [OF assms(5) len(1), of c] by auto
  show ?thesis
    using u1 u2 len(2) assms(3,6)
    by (simp add: client_readLoop_iter_def client_read_header_def start_state_def MessageHead_Decode_bytes
        Let_def not_less)
qed

theorem outdated_message_desync_witness:
  "\<exists>st1 st2. client_readLoop_iter (demo_env\<lparr>minAppVer := 13\<rparr>) (start_state (wire_bytes (demo_env\<lparr>minAppVer := 13\<rparr>)
       (replicate 8 1) (replicate 8 2) demo_msg ((demo_sign Inr)\<lparr>Signature := Some (replicate 64 0)\<rparr>) @ [])) =
       Continue st1 \<and>
    client_readLoop_iter (demo_env\<lparr>minAppVer := 13\<rparr>) st1 = Continue st2 \<and>
    msgH st2 = head_of (take MsgHeaderLen (second_part demo_msg ((demo_sign Inr)\<lparr>Signature := Some (replicate 64 0)\<rparr>))) \<and>
    conn st2 = []"
proof -
  let ?s = "(demo_sign Inr)\<lparr>Signature := Some (replicate 64 0)\<rparr>"
  let ?E = "demo_env\<lparr>minAppVer := 13\<rparr>"
  have key: "usable_key ?E" using demo_key by (cases "encryptMessage demo_env") (simp_all add: usable_key_def conn_key_def)
  have sz: "sized demo_msg ?s"
    by (simp add: sized_def sign_sized_def demo_msg_def demo_sign_def slice_bytes_def sign_sizes
        MsgHeaderLen_def MessageBeatLen_def)
  then have "MsgHeaderLen \<le> length (second_part demo_msg ?s)"
    using sized_second_part [OF sz] by (simp add: MsgHeaderLen_def sign_sizes)
  then have "MessageHead_Decode (take MsgHeaderLen (second_part demo_msg ?s)) =
      Ret (head_of (take MsgHeaderLen (second_part demo_msg ?s)))"
    by (simp add: head_of_def MessageHead_Decode_def)
  from outdated_message_desync [OF key sz _ _ _ this, of "replicate 8 1" "replicate 8 2" "[]"]
  show ?thesis by (simp add: demo_msg_def)
qed

end
