(* ===== verification/Auto_Clean_Map.thy ===== *)
theory Auto_Clean_Map
  imports Prelude
begin

text \<open>
  The maps whose entries expire (\<open>framework/utils/auto_clean_map.go\<close>). Every store and every load
  of an entry adds a sleep of length \<open>delay\<close> to the entry's wait group; a goroutine of the entry
  deletes it when all its sleeps are over, unless the entry has been deleted or replaced before.
  Sleeps end in the order in which they start, so an entry is described by the end of the last
  one. Client calls are atomic here; \<open>Tick\<close> lets time pass and runs the goroutines of the entries
  whose sleeps have ended. The key-value contract on which the clients of the maps rely is the
  interface \<open>kv_store\<close>.
\<close>

section \<open>The interface\<close>

text \<open>
  \<open>peek\<close> is what a lookup would return now, \<open>load\<close> returns it and may change bookkeeping that is
  not visible to lookups.
\<close>

datatype ('k, 'v) kv_op = KStore 'k 'v | KLoad 'k | KDelete 'k

locale kv_store =
  fixes peek :: "'m \<Rightarrow> 'k \<Rightarrow> 'v option"
    and store :: "'m \<Rightarrow> 'k \<Rightarrow> 'v \<Rightarrow> 'm"
    and load :: "'m \<Rightarrow> 'k \<Rightarrow> 'v option \<times> 'm"
    and delete :: "'m \<Rightarrow> 'k \<Rightarrow> 'm"
  assumes peek_store: "peek (store m k v) k' = (if k' = k then Some v else peek m k')"
    and load_value: "fst (load m k) = peek m k"
    and peek_load: "peek (snd (load m k)) k' = peek m k'"
    and peek_delete: "peek (delete m k) k' = (if k' = k then None else peek m k')"
begin

fun kv_step :: "'m \<Rightarrow> ('k, 'v) kv_op \<Rightarrow> 'm" where
  "kv_step m (KStore k v) = store m k v"
| "kv_step m (KLoad k) = snd (load m k)"
| "kv_step m (KDelete k) = delete m k"

fun kv_writes :: "('k, 'v) kv_op \<Rightarrow> 'k option" where
  "kv_writes (KStore k v) = Some k"
| "kv_writes (KLoad k) = None"
| "kv_writes (KDelete k) = Some k"

lemma peek_step: "peek (kv_step m e) k =
  (case e of KStore k' v \<Rightarrow> if k = k' then Some v else peek m k
    | KLoad k' \<Rightarrow> peek m k
    | KDelete k' \<Rightarrow> if k = k' then None else peek m k)"
  by (cases e) (simp_all add: peek_store peek_load peek_delete)

lemma peek_run_other:
  "Some k \<notin> set (map kv_writes es) \<Longrightarrow> peek (foldl kv_step m es) k = peek m k"
  by (induction es arbitrary: m) (auto simp: peek_step split: kv_op.splits)

lemma load_store: "fst (load (store m k v) k) = Some v"
  by (simp add: load_value peek_store)

lemma load_after_others:
  "Some k \<notin> set (map kv_writes es) \<Longrightarrow> fst (load (foldl kv_step (store m k v) es) k) = Some v"
  by (simp add: load_value peek_run_other peek_store)

lemma load_after_delete:
  "Some k \<notin> set (map kv_writes es) \<Longrightarrow> fst (load (foldl kv_step (delete m k) es) k) = None"
  by (simp add: load_value peek_run_other peek_delete)

end

section \<open>AutoCleanMap\<close>

record ('k, 'v) AutoCleanMap =
  acm_delay :: nat
  acm_now :: nat
  myMap :: "'k \<Rightarrow> ('v \<times> nat) option"

definition NewAutoCleanMap :: "nat \<Rightarrow> nat \<Rightarrow> ('k, 'v) AutoCleanMap" where
  "NewAutoCleanMap delay now = \<lparr>acm_delay = delay, acm_now = now, myMap = Map.empty\<rparr>"

text \<open>\<open>pushDelete\<close> starts one more sleep for the entry at \<open>key\<close>.\<close>

definition pushDelete :: "('k, 'v) AutoCleanMap \<Rightarrow> 'k \<Rightarrow> ('k, 'v) AutoCleanMap" where
  "pushDelete m key =
     (case myMap m key of
        None \<Rightarrow> m
      | Some (v, _) \<Rightarrow> m\<lparr>myMap := (myMap m)(key \<mapsto> (v, acm_now m + acm_delay m))\<rparr>)"

definition acm_Delete :: "('k, 'v) AutoCleanMap \<Rightarrow> 'k \<Rightarrow> ('k, 'v) AutoCleanMap" where
  "acm_Delete m key =
     (if myMap m key \<noteq> None then m\<lparr>myMap := (myMap m)(key := None)\<rparr> else m)"

definition acm_Store :: "('k, 'v) AutoCleanMap \<Rightarrow> 'k \<Rightarrow> 'v \<Rightarrow> ('k, 'v) AutoCleanMap" where
  "acm_Store m key value =
     (let m1 = acm_Delete m key;
          m2 = m1\<lparr>myMap := (myMap m1)(key \<mapsto> (value, acm_now m1))\<rparr>
      in pushDelete m2 key)"

definition acm_Load :: "('k, 'v) AutoCleanMap \<Rightarrow> 'k \<Rightarrow> 'v option \<times> ('k, 'v) AutoCleanMap" where
  "acm_Load m key =
     (case myMap m key of
        None \<Rightarrow> (None, m)
      | Some (v, _) \<Rightarrow> (Some v, pushDelete m key))"

definition LoadWithoutPushDelete :: "('k, 'v) AutoCleanMap \<Rightarrow> 'k \<Rightarrow> 'v option" where
  "LoadWithoutPushDelete m key = map_option fst (myMap m key)"

definition HashKey :: "('k, 'v) AutoCleanMap \<Rightarrow> 'k \<Rightarrow> bool" where
  "HashKey m key \<longleftrightarrow> myMap m key \<noteq> None"

text \<open>Time passes and the goroutines of the entries whose sleeps are over delete them.\<close>

definition acm_tick :: "('k, 'v) AutoCleanMap \<Rightarrow> nat \<Rightarrow> ('k, 'v) AutoCleanMap" where
  "acm_tick m d =
     (let t = acm_now m + d
      in m\<lparr>acm_now := t,
           myMap := (\<lambda>k. case myMap m k of None \<Rightarrow> None
                        | Some (v, e) \<Rightarrow> if e \<le> t then None else Some (v, e))\<rparr>)"

lemmas acm_defs = pushDelete_def acm_Delete_def acm_Store_def acm_Load_def LoadWithoutPushDelete_def

lemma acm_Store_eq:
  "acm_Store m k v = m\<lparr>myMap := (myMap m)(k \<mapsto> (v, acm_now m + acm_delay m))\<rparr>"
  by (simp add: acm_defs Let_def)

interpretation acm: kv_store LoadWithoutPushDelete acm_Store acm_Load acm_Delete
  by unfold_locales
    (auto simp: acm_Store_eq acm_defs split: option.splits)

section \<open>Expiry\<close>

text \<open>The calls on a map with the passage of time between them.\<close>

datatype ('k, 'v) acm_event = Store 'k 'v | Load 'k | Delete 'k | Tick nat

fun acm_step :: "('k, 'v) AutoCleanMap \<Rightarrow> ('k, 'v) acm_event \<Rightarrow> ('k, 'v) AutoCleanMap" where
  "acm_step m (Store k v) = acm_Store m k v"
| "acm_step m (Load k) = snd (acm_Load m k)"
| "acm_step m (Delete k) = acm_Delete m k"
| "acm_step m (Tick d) = acm_tick m d"

text \<open>An entry present in the map always has a sleep that has not ended.\<close>

definition acm_inv :: "('k, 'v) AutoCleanMap \<Rightarrow> bool" where
  "acm_inv m \<longleftrightarrow> 0 < acm_delay m \<and>
     (\<forall>k v e. myMap m k = Some (v, e) \<longrightarrow> acm_now m < e \<and> e \<le> acm_now m + acm_delay m)"

lemma acm_step_delay [simp]: "acm_delay (acm_step m e) = acm_delay m"
  by (cases e) (auto simp: acm_Store_eq acm_defs acm_tick_def Let_def split: option.split)

lemma acm_step_inv: "acm_inv m \<Longrightarrow> acm_inv (acm_step m e)"
  by (cases e)
    (auto simp: acm_inv_def acm_Store_eq acm_defs acm_tick_def Let_def split: option.splits if_splits,
     (fastforce simp: le_diff_conv)+)

interpretation acm_sys: invariant_system acm_step acm_inv
  by unfold_locales (rule acm_step_inv)

text \<open>
  The abstract view of one key: \<open>age\<close> counts the time since the entry was last stored or loaded.
  It is what the documentation of the map describes, without maps, deadlines or goroutines.
\<close>

fun spec_step :: "nat \<Rightarrow> 'k \<Rightarrow> ('v \<times> nat) option \<Rightarrow> ('k, 'v) acm_event \<Rightarrow> ('v \<times> nat) option" where
  "spec_step delay k s (Store k' v) = (if k' = k then Some (v, 0) else s)"
| "spec_step delay k s (Load k') = (if k' = k then map_option (\<lambda>(v, age). (v, 0)) s else s)"
| "spec_step delay k s (Delete k') = (if k' = k then None else s)"
| "spec_step delay k s (Tick d) =
     (case s of None \<Rightarrow> None | Some (v, age) \<Rightarrow> if delay \<le> age + d then None else Some (v, age + d))"

definition acm_abs :: "('k, 'v) AutoCleanMap \<Rightarrow> 'k \<Rightarrow> ('v \<times> nat) option" where
  "acm_abs m k = map_option (\<lambda>(v, e). (v, acm_now m + acm_delay m - e)) (myMap m k)"

lemma acm_abs_step:
  assumes "acm_inv m"
  shows "acm_abs (acm_step m e) k = spec_step (acm_delay m) k (acm_abs m k) e"
proof (cases e)
  case (Tick d)
  show ?thesis
  proof (cases "myMap m k")
    case (Some x)
    obtain v t where x: "x = (v, t)" by (cases x)
    with assms Some have "acm_now m < t" "t \<le> acm_now m + acm_delay m" by (auto simp: acm_inv_def)
    then show ?thesis
      using Some x Tick by (auto simp: acm_abs_def acm_tick_def Let_def)
  qed (simp add: Tick acm_abs_def acm_tick_def Let_def)
qed (auto simp: acm_abs_def acm_Store_eq acm_defs split: option.splits)

lemma acm_abs_run:
  "acm_inv m \<Longrightarrow> acm_abs (foldl acm_step m es) k = foldl (spec_step (acm_delay m) k) (acm_abs m k) es"
proof (induction es arbitrary: m)
  case (Cons e es)
  then show ?case using acm_step_inv [of m e] by (simp add: acm_abs_step)
qed simp

lemma acm_inv_New: "0 < delay \<Longrightarrow> acm_inv (NewAutoCleanMap delay now)"
  by (simp add: acm_inv_def NewAutoCleanMap_def)

text \<open>The time an event takes, and whether it overwrites the entry of a key.\<close>

primrec elapsed :: "('k, 'v) acm_event \<Rightarrow> nat" where
  "elapsed (Store k v) = 0"
| "elapsed (Load k) = 0"
| "elapsed (Delete k) = 0"
| "elapsed (Tick d) = d"

primrec overwrites :: "'k \<Rightarrow> ('k, 'v) acm_event \<Rightarrow> bool" where
  "overwrites k (Store k' v) \<longleftrightarrow> k' = k"
| "overwrites k (Load k') \<longleftrightarrow> False"
| "overwrites k (Delete k') \<longleftrightarrow> k' = k"
| "overwrites k (Tick d) \<longleftrightarrow> False"

lemma spec_run_keeps:
  assumes "\<not> list_ex (overwrites k) es" "age + sum_list (map elapsed es) < delay"
  shows "\<exists>age'. foldl (spec_step delay k) (Some (v, age)) es = Some (v, age')"
  using assms
proof (induction es arbitrary: age)
  case (Cons e es)
  then show ?case
    using Cons.IH [of age] Cons.IH [of 0] Cons.IH [of "age + elapsed e"] by (cases e) auto
qed simp

lemma stored_entry_kept:
  assumes "acm_inv m" "\<not> list_ex (overwrites k) es" "sum_list (map elapsed es) < acm_delay m"
  shows "LoadWithoutPushDelete (foldl acm_step (acm_Store m k v) es) k = Some v"
proof -
  have inv: "acm_inv (acm_Store m k v)" using acm_step_inv [OF assms(1), of "Store k v"] by simp
  have "acm_abs (acm_Store m k v) k = Some (v, 0)" by (simp add: acm_abs_def acm_Store_eq)
  moreover have "acm_delay (acm_Store m k v) = acm_delay m" by (simp add: acm_Store_eq)
  ultimately obtain age where "acm_abs (foldl acm_step (acm_Store m k v) es) k = Some (v, age)"
    using acm_abs_run [OF inv, of es k] spec_run_keeps [OF assms(2), of 0] assms(3) by auto
  then show ?thesis by (auto simp: acm_abs_def acm_defs)
qed

section \<open>The goroutine of a replaced entry\<close>

text \<open>
  At a finer grain the goroutine of an entry takes two steps after its last sleep: it looks for a
  token in \<open>deletedCh\<close>, and if there is none it deletes whatever the map then holds at its key.
  Entries are numbered in the order in which they are stored.
\<close>

datatype 'k watcher = Waiting 'k | Passed 'k | Finished

record ('k, 'v) acm_fine =
  fine_map :: "'k \<Rightarrow> (nat \<times> 'v) option"
  fine_next :: nat
  fine_token :: "nat \<Rightarrow> bool"
  fine_watch :: "nat \<Rightarrow> 'k watcher"

datatype ('k, 'v) fine_event = FStore 'k 'v | FDelete 'k | SleepsOver nat | RemoveKey nat

definition fine_Delete :: "('k, 'v) acm_fine \<Rightarrow> 'k \<Rightarrow> ('k, 'v) acm_fine" where
  "fine_Delete m k =
     (case fine_map m k of
        None \<Rightarrow> m
      | Some (i, v) \<Rightarrow> m\<lparr>fine_map := (fine_map m)(k := None), fine_token := (fine_token m)(i := True)\<rparr>)"

fun fine_step :: "('k, 'v) acm_fine \<Rightarrow> ('k, 'v) fine_event \<Rightarrow> ('k, 'v) acm_fine" where
  "fine_step m (FStore k v) =
     (let m1 = fine_Delete m k; i = fine_next m1
      in m1\<lparr>fine_map := (fine_map m1)(k \<mapsto> (i, v)), fine_next := i + 1,
            fine_token := (fine_token m1)(i := False), fine_watch := (fine_watch m1)(i := Waiting k)\<rparr>)"
| "fine_step m (FDelete k) = fine_Delete m k"
| "fine_step m (SleepsOver i) =
     (case fine_watch m i of
        Waiting k \<Rightarrow> m\<lparr>fine_watch := (fine_watch m)(i := if fine_token m i then Finished else Passed k)\<rparr>
      | _ \<Rightarrow> m)"
| "fine_step m (RemoveKey i) =
     (case fine_watch m i of
        Passed k \<Rightarrow> m\<lparr>fine_map := (fine_map m)(k := None), fine_watch := (fine_watch m)(i := Finished)\<rparr>
      | _ \<Rightarrow> m)"

section \<open>Properties\<close>



text \<open>C11: the goroutine of an entry whose sleeps are over can delete the entry that replaced it: if a
  \<open>Store\<close> of the same key runs between the goroutine's look at \<open>deletedCh\<close> and its deletion, the
  new value is gone although its own goroutine is still waiting.\<close>
theorem replaced_entry_lost:
  assumes "fine_watch m i = Waiting k" "\<not> fine_token m i" "i < fine_next m"
  shows "let m' = foldl fine_step m [SleepsOver i, FStore k v, RemoveKey i]
    in fine_map m' k = None \<and> fine_watch m' (fine_next m) = Waiting k"
  using assms by (simp add: fine_Delete_def Let_def split: option.split)

theorem replaced_entry_lost_witness:
  "let m = fine_step \<lparr>fine_map = Map.empty, fine_next = 0, fine_token = (\<lambda>_. False),
       fine_watch = (\<lambda>_. Finished)\<rparr> (FStore ''a'' (1::nat));
     m' = foldl fine_step m [SleepsOver 0, FStore ''a'' 2, RemoveKey 0]
   in fine_map m' ''a'' = None \<and> fine_watch m' 1 = Waiting ''a''"
  using replaced_entry_lost [of "fine_step \<lparr>fine_map = Map.empty, fine_next = 0, fine_token = (\<lambda>_. False),
       fine_watch = (\<lambda>_. Finished)\<rparr> (FStore ''a'' (1::nat))" 0 "''a''" 2]
  by (simp add: fine_Delete_def Let_def)

end
