(* ===== verification/Snowflake.thy ===== *)
theory Snowflake
  imports Prelude
begin

unbundle bit_operations_syntax

text \<open>
  Identifiers: the snowflake generator of \<open>framework/utils/snowflake.go\<close> and the request ids
  derived from it in \<open>framework/core/codec.go\<close>. Timestamps and sequence numbers are \<open>int64\<close>
  values far from overflow and are integers here; an id is its 64 bit pattern. The clock is the
  list of its successive readings; a call that runs out of readings has not returned.
\<close>

definition twepoch :: int where
  "twepoch = 1685987883000"

definition NodeIdBits :: nat where
  "NodeIdBits = 8"

definition sequenceBits :: nat where
  "sequenceBits = 16"

definition maxNodeId :: int where
  "maxNodeId = (-1) XOR (push_bit NodeIdBits (-1))"

definition sequenceMask :: int where
  "sequenceMask = (-1) XOR (push_bit sequenceBits (-1))"

definition nodeIdShift :: nat where
  "nodeIdShift = sequenceBits"

definition timestampShift :: nat where
  "timestampShift = sequenceBits + NodeIdBits"

definition maxNextIdsNum :: int where
  "maxNextIdsNum = 100"

record IdWorker =
  seqno :: int
  lastTimestamp :: int
  nodeId :: int
  epoch :: int

definition NewIdWorker :: "int \<Rightarrow> string + IdWorker" where
  "NewIdWorker NodeId =
     (if maxNodeId < NodeId \<or> NodeId < 0 then Inl ''NodeId Id error''
      else Inr \<lparr>seqno = 0, lastTimestamp = -1, nodeId = NodeId, epoch = twepoch\<rparr>)"

definition InitIdWorker :: "u8 \<Rightarrow> string + IdWorker" where
  "InitIdWorker nodeid = NewIdWorker (uint nodeid)"

fun tilNextMillis :: "int \<Rightarrow> int list \<Rightarrow> (int \<times> int list) option" where
  "tilNextMillis lastTs [] = None"
| "tilNextMillis lastTs (t # ts) = (if t \<le> lastTs then tilNextMillis lastTs ts else Some (t, ts))"

definition make_id :: "IdWorker \<Rightarrow> int \<Rightarrow> u64" where
  "make_id w timestamp =
     push_bit timestampShift (word_of_int (timestamp - epoch w)) OR
     push_bit nodeIdShift (word_of_int (nodeId w)) OR word_of_int (seqno w)"

text \<open>The result of a call that returns: an error or an id, the worker and the clock after it.\<close>

definition nextid :: "IdWorker \<Rightarrow> int list \<Rightarrow> ((string + u64) \<times> IdWorker \<times> int list) option" where
  "nextid w clock =
     (case clock of
        [] \<Rightarrow> None
      | timestamp # ts \<Rightarrow>
          if timestamp < lastTimestamp w then Some (Inl ''Clock moved backwards'', w, ts)
          else if lastTimestamp w = timestamp then
            (let w1 = w\<lparr>seqno := (seqno w + 1) AND sequenceMask\<rparr>
             in if seqno w1 = 0 then
                  (case tilNextMillis (lastTimestamp w1) ts of
                     None \<Rightarrow> None
                   | Some (t, ts') \<Rightarrow> let w2 = w1\<lparr>lastTimestamp := t\<rparr> in Some (Inr (make_id w2 t), w2, ts'))
                else Some (Inr (make_id w1 timestamp), w1, ts))
          else
            (let w1 = w\<lparr>seqno := 0, lastTimestamp := timestamp\<rparr>
             in Some (Inr (make_id w1 timestamp), w1, ts)))"

text \<open>\<open>NextIds\<close> ignores the error of \<open>nextid\<close>; the id of a failed call is 0.\<close>

fun NextIds_loop :: "nat \<Rightarrow> IdWorker \<Rightarrow> int list \<Rightarrow> (u64 list \<times> IdWorker \<times> int list) option" where
  "NextIds_loop 0 w clock = Some ([], w, clock)"
| "NextIds_loop (Suc n) w clock =
     (case nextid w clock of
        None \<Rightarrow> None
      | Some (r, w', clock') \<Rightarrow>
          map_option (\<lambda>(ids, w'', clock''). ((case r of Inl _ \<Rightarrow> 0 | Inr i \<Rightarrow> i) # ids, w'', clock''))
            (NextIds_loop n w' clock'))"

definition NextIds :: "int \<Rightarrow> IdWorker \<Rightarrow> int list \<Rightarrow> ((string + u64 list) \<times> IdWorker \<times> int list) option" where
  "NextIds num w clock =
     (if maxNextIdsNum < num \<or> num < 0 then Some (Inl ''NextIds num error'', w, clock)
      else map_option (\<lambda>(ids, w', clock'). (Inr ids, w', clock')) (NextIds_loop (nat num) w clock))"

text \<open>
  Go gives \<open>&\<close> and \<open><<\<close> the same precedence and groups them from the left: the low byte of the
  snowflake is moved up, the byte above it is dropped.
\<close>

definition reqIdFromSnowFlake :: "u64 \<Rightarrow> u8 \<Rightarrow> u64" where
  "reqIdFromSnowFlake snowflake msgid =
     (snowflake AND 0xFFFFFFFFFFFF0000) OR push_bit 8 (snowflake AND 0xFF) OR ucast msgid"

text \<open>The program exits when the clock has moved backwards.\<close>

definition GenerateNewReqId :: "IdWorker \<Rightarrow> int list \<Rightarrow> u8 \<Rightarrow> ((u64 option) \<times> IdWorker \<times> int list) option" where
  "GenerateNewReqId w clock msgid =
     map_option (\<lambda>(r, w', clock'). ((case r of Inl _ \<Rightarrow> None | Inr s \<Rightarrow> Some (reqIdFromSnowFlake s msgid)), w', clock'))
       (nextid w clock)"

section \<open>The layout of an id\<close>

lemma or_push_bit_int:
  fixes x y :: int
  assumes "0 \<le> y" "y < 2 ^ n"
  shows "push_bit n x OR y = x * 2 ^ n + y"
proof -
  have "take_bit n y = y" using assms by (simp add: take_bit_int_eq_self)
  moreover have "push_bit n x AND take_bit n y = 0"
    by (rule bit_eqI) (auto simp: bit_simps)
  ultimately show ?thesis
    using disjunctive_add_eq_or [of "push_bit n x" y] by (simp add: push_bit_eq_mult)
qed

lemma sequenceMask_eq: "sequenceMask = 65535"
  by (simp add: sequenceMask_def sequenceBits_def) (simp add: mask_eq_exp_minus_1)

lemma maxNodeId_eq: "maxNodeId = 255"
  by (simp add: maxNodeId_def NodeIdBits_def) (simp add: mask_eq_exp_minus_1)

lemma and_sequenceMask: "x AND sequenceMask = x mod 65536"
proof -
  have "sequenceMask = mask 16" by (simp add: sequenceMask_eq mask_eq_exp_minus_1)
  then have "x AND sequenceMask = take_bit 16 x" by (simp only: take_bit_eq_mask)
  then show ?thesis by (simp add: take_bit_eq_mod)
qed

definition in_range :: "int \<Rightarrow> bool" where
  "in_range t \<longleftrightarrow> twepoch \<le> t \<and> t < twepoch + 2 ^ 39"

definition worker_inv :: "IdWorker \<Rightarrow> bool" where
  "worker_inv w \<longleftrightarrow> epoch w = twepoch \<and> 0 \<le> nodeId w \<and> nodeId w < 2 ^ 8 \<and>
     0 \<le> seqno w \<and> seqno w < 2 ^ 16 \<and> (lastTimestamp w = -1 \<or> in_range (lastTimestamp w))"

definition id_value :: "IdWorker \<Rightarrow> int \<Rightarrow> int" where
  "id_value w t = (t - twepoch) * 2 ^ 24 + nodeId w * 2 ^ 16 + seqno w"

lemma or_push_bits_word:
  "push_bit a (word_of_int x :: u64) OR push_bit b (word_of_int y) OR word_of_int z =
     word_of_int (push_bit a x OR (push_bit b y OR z))"
  by (simp add: or.assoc push_bit_of_int of_int_or_eq)

lemma uint_make_id:
  assumes "worker_inv w" "in_range t"
  shows "uint (make_id w t) = id_value w t"
proof -
  have n: "0 \<le> nodeId w" "nodeId w < 2 ^ 8" and q: "0 \<le> seqno w" "seqno w < 2 ^ 16"
    and t: "0 \<le> t - twepoch" "t - twepoch < 2 ^ 39" and e: "epoch w = twepoch"
    using assms by (auto simp: worker_inv_def in_range_def)
  let ?low = "push_bit 16 (nodeId w) OR seqno w"
  have low: "?low = nodeId w * 2 ^ 16 + seqno w" using q by (rule or_push_bit_int)
  have "push_bit 24 (t - twepoch) OR ?low = id_value w t"
    using or_push_bit_int [of ?low 24 "t - twepoch"] n q unfolding low id_value_def by simp
  then have "make_id w t = word_of_int (id_value w t)"
    unfolding make_id_def or_push_bits_word e
    by (simp add: timestampShift_def nodeIdShift_def sequenceBits_def NodeIdBits_def)
  moreover have "0 \<le> id_value w t" "id_value w t < 2 ^ 64"
    using n q t by (auto simp: id_value_def)
  ultimately show ?thesis by (simp add: unsigned_of_int take_bit_int_eq_self)
qed

section \<open>Issued ids increase\<close>

definition last_issued :: "IdWorker \<Rightarrow> int" where
  "last_issued w = (if lastTimestamp w = -1 then -1 else id_value w (lastTimestamp w))"

lemma tilNextMillis_later:
  "tilNextMillis lastTs ts = Some (t, ts') \<Longrightarrow> lastTs < t \<and> t \<in> set ts \<and> set ts' \<subseteq> set ts"
  by (induction ts) (auto split: if_splits)

lemma tilNextMillis_returns: "\<exists>t \<in> set ts. lastTs < t \<Longrightarrow> \<exists>r. tilNextMillis lastTs ts = Some r"
  by (induction ts) auto

lemma id_value_nonneg: "worker_inv w \<Longrightarrow> in_range t \<Longrightarrow> 0 \<le> id_value w t \<and> id_value w t < 2 ^ 63"
  by (auto simp: id_value_def worker_inv_def in_range_def)

lemma last_issued_later:
  assumes "worker_inv w" "in_range t" "lastTimestamp w < t" "0 \<le> q" "q < 2 ^ 16"
  shows "last_issued w < id_value (w\<lparr>seqno := q\<rparr>) t"
proof (cases "lastTimestamp w = -1")
  case True
  have "worker_inv (w\<lparr>seqno := q\<rparr>)" using assms by (simp add: worker_inv_def)
  with True assms(2) id_value_nonneg [of "w\<lparr>seqno := q\<rparr>" t] show ?thesis
    by (simp add: last_issued_def)
next
  case False
  have "id_value w (lastTimestamp w) < id_value (w\<lparr>seqno := q\<rparr>) t"
    using assms by (simp add: id_value_def worker_inv_def)
  with False show ?thesis by (simp add: last_issued_def)
qed

lemma nextid_step:
  assumes w: "worker_inv w" and c: "\<forall>t \<in> set clock. in_range t"
    and n: "nextid w clock = Some (r, w', clock')"
  shows "worker_inv w' \<and> nodeId w' = nodeId w \<and> set clock' \<subseteq> set clock \<and>
    (case r of Inl _ \<Rightarrow> w' = w | Inr i \<Rightarrow> last_issued w < uint i \<and> uint i = last_issued w' \<and> in_range (lastTimestamp w'))"
proof -
  obtain t ts where clock: "clock = t # ts" using n by (cases clock) (auto simp: nextid_def)
  have t: "in_range t" "t \<noteq> -1" using c clock by (auto simp: in_range_def twepoch_def)
  let ?q = "(seqno w + 1) mod 65536"
  consider "t < lastTimestamp w" | "lastTimestamp w < t"
    | "lastTimestamp w = t" "?q = 0" | "lastTimestamp w = t" "?q \<noteq> 0"
    by linarith
  then show ?thesis
  proof cases
    case 1
    with n w show ?thesis by (auto simp: clock nextid_def)
  next
    case 2
    let ?w = "w\<lparr>seqno := 0, lastTimestamp := t\<rparr>"
    have inv: "worker_inv ?w" using w t by (simp add: worker_inv_def)
    have "r = Inr (make_id ?w t)" "w' = ?w" "clock' = ts"
      using n 2 by (auto simp: clock nextid_def Let_def)
    then show ?thesis
      using inv uint_make_id [OF inv t(1)] last_issued_later [OF w t(1) 2, of 0] t clock
      by (auto simp: last_issued_def id_value_def)
  next
    case 3
    then obtain t' ts' where til: "tilNextMillis t ts = Some (t', ts')"
      using n by (auto simp: clock nextid_def Let_def and_sequenceMask split: option.splits)
    note later = tilNextMillis_later [OF til]
    then have t': "in_range t'" "t' \<noteq> -1" using c clock by (auto simp: in_range_def twepoch_def)
    let ?w = "w\<lparr>seqno := 0, lastTimestamp := t'\<rparr>"
    have inv: "worker_inv ?w" using w t' by (simp add: worker_inv_def)
    have "r = Inr (make_id ?w t')" "w' = ?w" "clock' = ts'"
      using n 3 til by (auto simp: clock nextid_def Let_def and_sequenceMask)
    then show ?thesis
      using inv uint_make_id [OF inv t'(1)] last_issued_later [OF w t'(1), of 0] t' later 3 clock
      by (auto simp: last_issued_def id_value_def)
  next
    case 4
    let ?w = "w\<lparr>seqno := seqno w + 1\<rparr>"
    have "seqno w + 1 \<noteq> 65536" using 4 by auto
    with w have "0 \<le> seqno w + 1" "seqno w + 1 < 65536" by (auto simp: worker_inv_def)
    then have q: "?q = seqno w + 1" "seqno w + 1 < 2 ^ 16" by auto
    have inv: "worker_inv ?w" using w q by (simp add: worker_inv_def)
    have "r = Inr (make_id ?w t)" "w' = ?w" "clock' = ts"
      using n 4 q by (auto simp: clock nextid_def Let_def and_sequenceMask)
    then show ?thesis
      using inv uint_make_id [OF inv t(1)] 4 t clock by (auto simp: last_issued_def id_value_def)
  qed
qed

text \<open>The ids a worker issues in a number of calls; the mutex makes calls sequential.\<close>

fun issued_ids :: "nat \<Rightarrow> IdWorker \<Rightarrow> int list \<Rightarrow> u64 list" where
  "issued_ids 0 w clock = []"
| "issued_ids (Suc n) w clock =
     (case nextid w clock of
        None \<Rightarrow> []
      | Some (Inl _, w', clock') \<Rightarrow> issued_ids n w' clock'
      | Some (Inr i, w', clock') \<Rightarrow> i # issued_ids n w' clock')"

lemma issued_ids_increase:
  assumes "worker_inv w" "\<forall>t \<in> set clock. in_range t"
  shows "sorted_wrt (<) (issued_ids n w clock) \<and> (\<forall>i \<in> set (issued_ids n w clock). last_issued w < uint i)"
  using assms
proof (induction n arbitrary: w clock)
  case (Suc n)
  show ?case
  proof (cases "nextid w clock")
    case (Some x)
    obtain r w' clock' where x: "x = (r, w', clock')" by (cases x)
    note step = nextid_step [OF Suc.prems Some [unfolded x]]
    then have IH: "sorted_wrt (<) (issued_ids n w' clock')"
      "\<forall>i \<in> set (issued_ids n w' clock'). last_issued w' < uint i"
      using Suc.IH [of w' clock'] Suc.prems by auto
    with step Some x show ?thesis
      by (auto split: sum.splits intro: word_less_def [THEN iffD2])
  qed simp
qed simp

lemma issued_ids_values:
  assumes "worker_inv w" "\<forall>t \<in> set clock. in_range t" "i \<in> set (issued_ids n w clock)"
  shows "\<exists>w' t. worker_inv w' \<and> nodeId w' = nodeId w \<and> in_range t \<and> uint i = id_value w' t"
  using assms
proof (induction n arbitrary: w clock)
  case (Suc n)
  show ?case
  proof (cases "nextid w clock")
    case (Some x)
    obtain r w' clock' where x: "x = (r, w', clock')" by (cases x)
    note step = nextid_step [OF Suc.prems(1,2) Some [unfolded x]]
    have "last_issued w' = id_value w' (lastTimestamp w')" if "in_range (lastTimestamp w')"
      using that by (auto simp: last_issued_def in_range_def twepoch_def)
    with step Some x Suc.IH [of w' clock'] Suc.prems show ?thesis
      by (fastforce split: sum.splits)
  qed (use Suc in auto)
qed simp

lemma InitIdWorker_inv: "InitIdWorker node = Inr w \<Longrightarrow> worker_inv w \<and> nodeId w = uint node"
  using unsigned_less [of node, where 'a = int]
  by (auto simp: InitIdWorker_def NewIdWorker_def worker_inv_def maxNodeId_eq split: if_splits)

lemma id_value_node:
  assumes "worker_inv w"
  shows "(id_value w t div 2 ^ 16) mod 2 ^ 8 = nodeId w"
proof -
  have "(a * 2 ^ 24 + n * 2 ^ 16 + q) div 2 ^ 16 mod 2 ^ 8 = n"
    if "0 \<le> n" "n < 2 ^ 8" "0 \<le> q" "q < 2 ^ 16" for a n q :: int
  proof -
    have "a * 2 ^ 24 + n * 2 ^ 16 + q = (a * 2 ^ 8 + n) * 2 ^ 16 + q" by simp
    then have "(a * 2 ^ 24 + n * 2 ^ 16 + q) div 2 ^ 16 = a * 2 ^ 8 + n"
      using that by (metis div_pos_pos_trivial div_mult_self3 add.right_neutral power_not_zero zero_neq_numeral)
    with that show ?thesis by simp
  qed
  then show ?thesis using assms by (simp only: id_value_def worker_inv_def)
qed

section \<open>Request ids\<close>

lemma reqId_masks: "(0xFF :: u64) = mask 8" "(0xFFFFFFFFFFFF0000 :: u64) = NOT (mask 16)"
  "(0xFFFFFFFFFFFF00FF :: u64) = NOT (push_bit 8 (mask 8))"
  by (simp_all add: mask_eq_exp_minus_1 push_bit_eq_mult not_eq_complement)

lemma bit_reqId:
  "n < 64 \<Longrightarrow> bit (reqIdFromSnowFlake s m) n =
     (if n < 8 then bit m n else if n < 16 then bit s (n - 8) else bit s n)"
  unfolding reqIdFromSnowFlake_def reqId_masks
  using bit_imp_le_length [of m n] by (auto simp: bit_simps)

lemma bits_outside_second_byte:
  fixes x y :: int
  assumes "take_bit 8 x = take_bit 8 y" "take_bit 16 x = x" "take_bit 16 y = y" "n < 8 \<or> 16 \<le> n"
  shows "bit x n = bit y n"
proof (cases "n < 8")
  case True
  then show ?thesis using assms(1) by (metis bit_take_bit_iff)
next
  case False
  then have "\<not> bit (take_bit 16 x) n" "\<not> bit (take_bit 16 y) n"
    using assms(4) by (simp_all add: bit_take_bit_iff)
  then show ?thesis using assms(2,3) by simp
qed

lemma reqId_make_id:
  assumes "\<And>n. n < 8 \<or> 16 \<le> n \<Longrightarrow> bit q n = bit (seqno w) n"
  shows "reqIdFromSnowFlake (make_id (w\<lparr>seqno := q\<rparr>) t) m = reqIdFromSnowFlake (make_id w t) m"
proof (rule bit_word_eqI)
  fix n assume n: "n < LENGTH(64)"
  have id: "bit (make_id (w\<lparr>seqno := q\<rparr>) t) k = bit (make_id w t) k" if "k < 8 \<or> 16 \<le> k" for k
    using assms [OF that] by (simp add: make_id_def bit_or_iff bit_word_of_int_iff)
  show "bit (reqIdFromSnowFlake (make_id (w\<lparr>seqno := q\<rparr>) t) m) n = bit (reqIdFromSnowFlake (make_id w t) m) n"
  proof (cases "8 \<le> n \<and> n < 16")
    case True
    then have "n - 8 < 8" by linarith
    with n True id [of "n - 8"] show ?thesis by (simp add: bit_reqId)
  next
    case False
    with n id [of n] show ?thesis by (auto simp: bit_reqId)
  qed
qed

section \<open>Properties\<close>

text \<open>C12: the ids issued by a worker strictly increase, whatever the clock does between two calls,
  including standing still and moving backwards, as long as its readings lie within the 39 bits of
  milliseconds that the layout has room for. Every id carries the node's id, so workers of
  different nodes never issue the same id, and every id is a positive \<open>int64\<close> or zero.\<close>
theorem snowflake_increasing:
  assumes "InitIdWorker node = Inr w" "\<forall>t \<in> set clock. in_range t"
  shows "sorted_wrt (<) (issued_ids n w clock) \<and>
    (\<forall>i \<in> set (issued_ids n w clock). (uint i div 2 ^ 16) mod 2 ^ 8 = uint node \<and> uint i < 2 ^ 63)"
proof -
  have w: "worker_inv w" "nodeId w = uint node" using InitIdWorker_inv [OF assms(1)] by simp_all
  have "(uint i div 2 ^ 16) mod 2 ^ 8 = uint node \<and> uint i < 2 ^ 63"
    if "i \<in> set (issued_ids n w clock)" for i
    using issued_ids_values [OF w(1) assms(2) that] id_value_node id_value_nonneg w(2) by metis
  with issued_ids_increase [OF w(1) assms(2)] show ?thesis by blast
qed

theorem snowflake_increasing_witness:
  "\<exists>w. InitIdWorker 7 = Inr w \<and>
     length (issued_ids 4 w [twepoch + 5, twepoch + 5, twepoch + 3, twepoch + 9]) = 3 \<and>
     sorted_wrt (<) (issued_ids 4 w [twepoch + 5, twepoch + 5, twepoch + 3, twepoch + 9])"
proof -
  let ?w = "\<lparr>seqno = 0, lastTimestamp = -1, nodeId = 7, epoch = twepoch\<rparr>"
  have w: "InitIdWorker 7 = Inr ?w" by (simp add: InitIdWorker_def NewIdWorker_def maxNodeId_eq)
  have "length (issued_ids 4 ?w [twepoch + 5, twepoch + 5, twepoch + 3, twepoch + 9]) = 3"
    by (simp add: numeral_eq_Suc nextid_def Let_def twepoch_def and_sequenceMask)
  with w snowflake_increasing [OF w, of "[twepoch + 5, twepoch + 5, twepoch + 3, twepoch + 9]" 4]
  show ?thesis by (simp add: in_range_def)
qed



text \<open>The lowest byte of a request id is the message id, and two request ids are equal exactly
  when they have the same message id and their snowflakes agree outside bits 8 to 15. So requests
  of one type whose snowflakes differ only in these bits, which hold the upper half of the
  sequence number, get the same request id.\<close>
theorem reqid_collisions:
  "reqIdFromSnowFlake s m AND 0xFF = ucast m \<and>
   (reqIdFromSnowFlake s m = reqIdFromSnowFlake s' m' \<longleftrightarrow>
      m = m' \<and> s AND 0xFFFFFFFFFFFF00FF = s' AND 0xFFFFFFFFFFFF00FF)"
proof (intro conjI iffI)
  show "reqIdFromSnowFlake s m AND 0xFF = ucast m"
    unfolding reqId_masks using bit_imp_le_length [of m]
    by (intro bit_word_eqI) (auto simp: bit_simps bit_reqId)
next
  assume eq: "reqIdFromSnowFlake s m = reqIdFromSnowFlake s' m'"
  have b: "(if n < 8 then bit m n else if n < 16 then bit s (n - 8) else bit s n) =
      (if n < 8 then bit m' n else if n < 16 then bit s' (n - 8) else bit s' n)" if "n < 64" for n
    using bit_reqId [OF that, of s m] bit_reqId [OF that, of s' m'] eq by simp
  show "m = m'"
  proof (rule bit_word_eqI)
    fix n assume "n < LENGTH(8)"
    then show "bit m n = bit m' n" using b [of n] by simp
  qed
  show "s AND 0xFFFFFFFFFFFF00FF = s' AND 0xFFFFFFFFFFFF00FF"
    unfolding reqId_masks
  proof (rule bit_word_eqI)
    fix n assume n: "n < LENGTH(64)"
    then show "bit (s AND NOT (push_bit 8 (mask 8))) n = bit (s' AND NOT (push_bit 8 (mask 8))) n"
      using b [of n] b [of "n + 8"] by (auto simp: bit_simps split: if_splits)
  qed
next
  assume "m = m' \<and> s AND 0xFFFFFFFFFFFF00FF = s' AND 0xFFFFFFFFFFFF00FF"
  then have m: "m = m'" and s: "bit (s AND NOT (push_bit 8 (mask 8))) n = bit (s' AND NOT (push_bit 8 (mask 8))) n" for n
    unfolding reqId_masks by simp_all
  show "reqIdFromSnowFlake s m = reqIdFromSnowFlake s' m'"
  proof (rule bit_word_eqI)
    fix n assume "n < LENGTH(64)"
    then show "bit (reqIdFromSnowFlake s m) n = bit (reqIdFromSnowFlake s' m') n"
      using s [of n] s [of "n - 8"] m by (auto simp: bit_reqId bit_simps)
  qed
qed



text \<open>When the clock has moved backwards, \<open>NextIds\<close> still reports success: the failed calls leave
  zeros in the result.\<close>
theorem nextids_zeros:
  assumes "0 \<le> num" "num \<le> maxNextIdsNum" "length clock = nat num" "\<forall>t \<in> set clock. t < lastTimestamp w"
  shows "NextIds num w clock = Some (Inr (replicate (nat num) 0), w, [])"
proof -
  have "NextIds_loop n w clock = Some (replicate n 0, w, [])"
    if "length clock = n" "\<forall>t \<in> set clock. t < lastTimestamp w" for n clock
    using that
  proof (induction n arbitrary: clock)
    case (Suc n)
    then obtain t ts where "clock = t # ts" by (cases clock) auto
    with Suc show ?case by (simp add: nextid_def)
  qed simp
  from this [OF assms(3,4)] assms(1,2) show ?thesis by (simp add: NextIds_def)
qed

theorem nextids_zeros_witness:
  "NextIds 2 \<lparr>seqno = 0, lastTimestamp = 10, nodeId = 1, epoch = twepoch\<rparr> [9, 8] =
     Some (Inr [0, 0], \<lparr>seqno = 0, lastTimestamp = 10, nodeId = 1, epoch = twepoch\<rparr>, [])"
  using nextids_zeros [of 2 "[9, 8]" "\<lparr>seqno = 0, lastTimestamp = 10, nodeId = 1, epoch = twepoch\<rparr>"]
  by (simp add: maxNextIdsNum_def numeral_2_eq_2)

end
