(* ===== verification/Requests.thy ===== *)
theory Requests
  imports Auto_Clean_Map Snowflake Server_Conn
begin

unbundle bit_operations_syntax

text \<open>
  Requests and the ids that tie responses to them: the values a context carries and the handler
  registry (\<open>framework/core/codec.go\<close>), the ids of remote callers
  (\<open>framework/core/remote_req_id.go\<close>), the table of sent requests and the sending of messages
  (\<open>pp/p2pserver/sp_peers.go\<close>). A nil context is \<open>None\<close>.
\<close>

section \<open>Contexts\<close>

record context_values =
  messageCtx :: "RelayMsgBuf option"
  netIDCtx :: "u64 option"
  reqIDCtx :: "u64 option"
  packetIDCtx :: "u64 option"
  parentReqIDCtx :: "u64 option"
  recvStartCtx :: "u64 option"
  srcP2pAddrCtx :: "bytes option"

definition Background :: context_values where
  "Background = \<lparr>messageCtx = None, netIDCtx = None, reqIDCtx = None, packetIDCtx = None,
     parentReqIDCtx = None, recvStartCtx = None, srcP2pAddrCtx = None\<rparr>"

definition CreateContextWithMessage :: "context_values \<Rightarrow> RelayMsgBuf \<Rightarrow> context_values" where
  "CreateContextWithMessage ctx message = ctx\<lparr>messageCtx := Some message\<rparr>"

definition MessageFromContext :: "context_values \<Rightarrow> RelayMsgBuf go" where
  "MessageFromContext ctx =
     (case messageCtx ctx of Some m \<Rightarrow> Ret m | None \<Rightarrow> Panic ''interface conversion'')"

definition CreateContextWithNetID :: "context_values \<Rightarrow> u64 \<Rightarrow> context_values" where
  "CreateContextWithNetID ctx netID = ctx\<lparr>netIDCtx := Some netID\<rparr>"

definition NetIDFromContext :: "context_values \<Rightarrow> u64 go" where
  "NetIDFromContext ctx = (case netIDCtx ctx of Some i \<Rightarrow> Ret i | None \<Rightarrow> Panic ''interface conversion'')"

definition ctx_value :: "context_values option \<Rightarrow> (context_values \<Rightarrow> 'a option) \<Rightarrow> 'a \<Rightarrow> 'a" where
  "ctx_value ctx f d = (case ctx of None \<Rightarrow> d | Some c \<Rightarrow> (case f c of None \<Rightarrow> d | Some v \<Rightarrow> v))"

definition GetPacketIdFromContext :: "context_values option \<Rightarrow> u64" where
  "GetPacketIdFromContext ctx = ctx_value ctx packetIDCtx 0"

definition GetReqIdFromContext :: "context_values option \<Rightarrow> u64" where
  "GetReqIdFromContext ctx = ctx_value ctx reqIDCtx 0"

definition GetRecvStartTimeFromContext :: "context_values option \<Rightarrow> u64" where
  "GetRecvStartTimeFromContext ctx = ctx_value ctx recvStartCtx 0"

definition GetRecvCostTimeFromContext :: "u64 \<Rightarrow> context_values option \<Rightarrow> u64" where
  "GetRecvCostTimeFromContext now ctx =
     ctx_value ctx (\<lambda>c. map_option (\<lambda>recvStart. now - recvStart) (recvStartCtx c)) 0"

definition GetParentReqIdFromContext :: "context_values option \<Rightarrow> u64" where
  "GetParentReqIdFromContext ctx = ctx_value ctx parentReqIDCtx 0"

definition GetSrcP2pAddrFromContext :: "context_values option \<Rightarrow> bytes" where
  "GetSrcP2pAddrFromContext ctx = ctx_value ctx srcP2pAddrCtx []"

definition CreateContextWithReqId :: "context_values \<Rightarrow> u64 \<Rightarrow> context_values" where
  "CreateContextWithReqId ctx reqId = ctx\<lparr>reqIDCtx := Some reqId\<rparr>"

definition CreateContextWithPacketId :: "context_values \<Rightarrow> u64 \<Rightarrow> context_values" where
  "CreateContextWithPacketId ctx packetId = ctx\<lparr>packetIDCtx := Some packetId\<rparr>"

definition CreateContextWithRecvStartTime :: "context_values \<Rightarrow> u64 \<Rightarrow> context_values" where
  "CreateContextWithRecvStartTime ctx t = ctx\<lparr>recvStartCtx := Some t\<rparr>"

definition CreateContextWithParentReqId :: "context_values \<Rightarrow> u64 \<Rightarrow> context_values" where
  "CreateContextWithParentReqId ctx reqId = ctx\<lparr>parentReqIDCtx := Some reqId\<rparr>"

definition CreateContextWithParentReqIdAsReqId :: "context_values option \<Rightarrow> context_values option" where
  "CreateContextWithParentReqIdAsReqId ctx =
     (case ctx of
        None \<Rightarrow> None
      | Some c \<Rightarrow> (case parentReqIDCtx c of None \<Rightarrow> ctx | Some p \<Rightarrow> Some (c\<lparr>reqIDCtx := Some p\<rparr>)))"

definition CreateContextWithSrcP2pAddr :: "context_values \<Rightarrow> bytes \<Rightarrow> context_values" where
  "CreateContextWithSrcP2pAddr ctx a = ctx\<lparr>srcP2pAddrCtx := Some a\<rparr>"

section \<open>Handlers\<close>

text \<open>\<open>messageRegistry\<close> is an array with one slot per message type; \<open>None\<close> is a nil handler.\<close>

definition Register :: "'h option list \<Rightarrow> MsgType \<Rightarrow> 'h \<Rightarrow> 'h option list go" where
  "Register messageRegistry cmd handler =
     (if unat (mt_Id cmd) < length messageRegistry
      then Ret (messageRegistry[unat (mt_Id cmd) := Some handler])
      else Panic ''index out of range'')"

definition GetHandlerFunc :: "'h option list \<Rightarrow> u8 \<Rightarrow> 'h option" where
  "GetHandlerFunc messageRegistry i =
     (if NUMBER_MESSAGE_TYPES \<le> i then None else messageRegistry ! unat i)"

lemma GetHandlerFunc_Register:
  assumes "length reg = unat NUMBER_MESSAGE_TYPES" "mt_Id cmd < NUMBER_MESSAGE_TYPES"
  shows "\<exists>reg'. Register reg cmd h = Ret reg' \<and> length reg' = unat NUMBER_MESSAGE_TYPES \<and>
    (\<forall>i. GetHandlerFunc reg' i = (if i = mt_Id cmd then Some h else GetHandlerFunc reg i))"
  using assms
  by (auto simp: Register_def GetHandlerFunc_def word_less_nat_alt word_le_nat_alt nth_list_update word_unat_eq_iff)

section \<open>Ids of remote callers\<close>

type_synonym remote_map = "(u64, string) AutoCleanMap"

definition StoreRemoteReqId :: "remote_map \<Rightarrow> u64 \<Rightarrow> string \<Rightarrow> remote_map" where
  "StoreRemoteReqId M reqId rootReqId = acm_Store M reqId rootReqId"

text \<open>\<open>snow\<close> is the id that \<open>NextSnowFlakeId\<close> returns, \<open>uuid\<close> a fresh UUID.\<close>

definition RegisterRemoteReqId ::
  "remote_map \<Rightarrow> u64 \<Rightarrow> string \<Rightarrow> context_values \<Rightarrow> string \<Rightarrow> remote_map \<times> context_values" where
  "RegisterRemoteReqId M snow uuid ctx remoteReqId =
     (let reqId = (if GetReqIdFromContext (Some ctx) = 0 then snow else GetReqIdFromContext (Some ctx));
          rid = (if remoteReqId = [] then uuid else remoteReqId)
      in (StoreRemoteReqId M reqId rid, CreateContextWithReqId ctx reqId))"

text \<open>Ids are \<open>int64\<close>; only positive ones are looked up. A lookup may extend an entry's life.\<close>

definition load_positive :: "remote_map \<Rightarrow> u64 \<Rightarrow> string option \<times> remote_map" where
  "load_positive M i = (if 0 <s i then acm_Load M i else (None, M))"

definition GetRemoteReqId :: "remote_map \<Rightarrow> context_values option \<Rightarrow> string \<times> remote_map" where
  "GetRemoteReqId M ctx =
     (if ctx = None then ([], M)
      else case load_positive M (GetParentReqIdFromContext ctx) of
             (Some rootId, M1) \<Rightarrow> (rootId, M1)
           | (None, M1) \<Rightarrow>
               (case load_positive M1 (GetReqIdFromContext ctx) of
                  (Some rootId, M2) \<Rightarrow> (rootId, M2)
                | (None, M2) \<Rightarrow> ([], M2)))"

definition InheritRemoteReqIdFromParentReqId :: "remote_map \<Rightarrow> context_values option \<Rightarrow> u64 \<Rightarrow> remote_map" where
  "InheritRemoteReqIdFromParentReqId M ctx reqId =
     (if ctx = None \<or> parentReqIDCtx (the ctx) = None then M
      else case load_positive M (GetParentReqIdFromContext ctx) of
             (Some rootId, M1) \<Rightarrow> StoreRemoteReqId M1 reqId rootId
           | (None, M1) \<Rightarrow> M1)"

definition RegisterReqId :: "remote_map \<Rightarrow> context_values option \<Rightarrow> string \<Rightarrow> remote_map" where
  "RegisterReqId M ctx rootReqId =
     (if 0 <s GetReqIdFromContext ctx then StoreRemoteReqId M (GetReqIdFromContext ctx) rootReqId else M)"

section \<open>Sent requests\<close>

type_synonym request_map = "(u64, u8) AutoCleanMap"

definition request_key :: "u64 \<Rightarrow> u8 \<Rightarrow> u64" where
  "request_key reqId t = (reqId AND 0x7FFFFFFFFFFFFF00) OR ucast t"

definition LoadRequestInfo :: "request_map \<Rightarrow> u64 \<Rightarrow> u8 \<Rightarrow> (u8 \<times> bool) \<times> request_map" where
  "LoadRequestInfo M reqId rspMsgType =
     (case acm_Load M (request_key reqId (GetReqIdFromRspId rspMsgType)) of
        (None, M') \<Rightarrow> ((MSG_ID_INVALID, False), M')
      | (Some msgTypeId, M') \<Rightarrow> ((msgTypeId, True), M'))"

definition StoreRequestInfo :: "request_map \<Rightarrow> u64 \<Rightarrow> u8 \<Rightarrow> request_map" where
  "StoreRequestInfo M reqId reqMsgType = acm_Store M (request_key reqId reqMsgType) reqMsgType"

lemma request_mask: "(0x7FFFFFFFFFFFFF00 :: u64) = NOT (mask 8) AND mask 63"
  by (simp add: mask_eq_exp_minus_1 not_eq_complement)

lemma bit_request_key:
  "n < 64 \<Longrightarrow> bit (request_key r t) n = (if n < 8 then bit t n else n < 63 \<and> bit r n)"
  unfolding request_key_def request_mask
  using bit_imp_le_length [of t n] by (auto simp: bit_simps)

lemma request_key_eq_iff:
  "request_key r t = request_key r' t' \<longleftrightarrow>
     t = t' \<and> r AND 0x7FFFFFFFFFFFFF00 = r' AND 0x7FFFFFFFFFFFFF00"
proof
  assume eq: "request_key r t = request_key r' t'"
  have b: "(if n < 8 then bit t n else n < 63 \<and> bit r n) = (if n < 8 then bit t' n else n < 63 \<and> bit r' n)"
    if "n < 64" for n
    using bit_request_key [OF that, of r t] bit_request_key [OF that, of r' t'] eq by simp
  have "t = t'"
  proof (rule bit_word_eqI)
    fix n assume "n < LENGTH(8)"
    then show "bit t n = bit t' n" using b [of n] by simp
  qed
  moreover have "r AND 0x7FFFFFFFFFFFFF00 = r' AND 0x7FFFFFFFFFFFFF00"
    unfolding request_mask
  proof (rule bit_word_eqI)
    fix n assume "n < LENGTH(64)"
    then show "bit (r AND (NOT (mask 8) AND mask 63)) n = bit (r' AND (NOT (mask 8) AND mask 63)) n"
      using b [of n] by (auto simp: bit_simps split: if_splits)
  qed
  ultimately show "t = t' \<and> r AND 0x7FFFFFFFFFFFFF00 = r' AND 0x7FFFFFFFFFFFFF00" ..
qed (simp add: request_key_def)

section \<open>Sending a message\<close>

text \<open>
  Five message types carry file data, which travels behind the signature and not in the body. A
  protobuf message is its Go type, its data and the rest of its fields; \<open>marshal\<close> stands for
  \<open>proto.Marshal\<close>.
\<close>

record 'p proto_msg =
  pm_type :: string
  pm_Data :: bytes
  pm_rest :: 'p

definition data_type :: "u8 \<Rightarrow> string option" where
  "data_type cmd =
     (if cmd = MSG_ID_REQ_UPLOAD_FILESLICE then Some ''ReqUploadFileSlice''
      else if cmd = MSG_ID_REQ_BACKUP_FILESLICE then Some ''ReqBackupFileSlice''
      else if cmd = MSG_ID_RSP_DOWNLOAD_SLICE then Some ''RspDownloadSlice''
      else if cmd = MSG_ID_RSP_TRANSFER_DOWNLOAD then Some ''RspTransferDownload''
      else if cmd = MSG_ID_RSP_VERIFY_DOWNLOAD then Some ''RspVerifyDownload''
      else None)"

definition detach_data :: "u8 \<Rightarrow> 'p proto_msg \<Rightarrow> (bytes \<times> 'p proto_msg) go" where
  "detach_data cmd pb =
     (case data_type cmd of
        None \<Rightarrow> Ret ([], pb)
      | Some t \<Rightarrow> if pm_type pb = t then Ret (pm_Data pb, pb\<lparr>pm_Data := []\<rparr>)
                  else Panic ''interface conversion'')"

record P2pServer =
  p2pPubKey :: bytes
  p2pAddress :: bytes
  p2pSigner :: "bytes \<Rightarrow> string + bytes"
  appVer :: u16
  requestInfoMap :: request_map
  remoteReqIdMap :: remote_map

datatype conn_kind = ToServerConn | ToClientConn | ToOther

datatype send_error = MarshalError | UnknownConnType | WriteFailed write_error

definition node_sign :: "P2pServer \<Rightarrow> MessageSign" where
  "node_sign p = \<lparr>Signature = None, P2pAddress = p2pAddress p, P2pPubKey = Some (p2pPubKey p),
     Signer = p2pSigner p\<rparr>"

text \<open>
  A request takes the request id of the context or a new one, and is remembered under it. The
  connection is its kind, whether its queue is closed, and the queue. \<open>newReqId\<close> is what
  \<open>GenerateNewReqId\<close> returns, for the request itself and again inside \<open>Write\<close>.
\<close>

definition request_id ::
  "P2pServer \<Rightarrow> context_values option \<Rightarrow> u64 \<Rightarrow> MsgType \<Rightarrow> u64 \<times> P2pServer" where
  "request_id p ctx newReqId cmd =
     (if take 3 (mt_Name cmd) = ''Req'' then
        (let r = GetReqIdFromContext ctx;
             reqId = (if r = 0 then newReqId else r);
             p1 = (if r = 0
                   then p\<lparr>remoteReqIdMap := InheritRemoteReqIdFromParentReqId (remoteReqIdMap p) ctx newReqId\<rparr>
                   else p)
         in (reqId, p1\<lparr>requestInfoMap := StoreRequestInfo (requestInfoMap p1) reqId (mt_Id cmd)\<rparr>))
      else (0, p))"

definition SendMessage ::
  "('p proto_msg \<Rightarrow> bytes option) \<Rightarrow> P2pServer \<Rightarrow> context_values option \<Rightarrow> u64 \<Rightarrow> conn_kind \<Rightarrow> bool \<Rightarrow>
     RelayMsgBuf list \<Rightarrow> 'p proto_msg \<Rightarrow> MsgType \<Rightarrow>
     (send_error option \<times> P2pServer \<times> RelayMsgBuf list) go" where
  "SendMessage marshal p ctx newReqId kind closed sendCh pb cmd =
     go_bind (detach_data (mt_Id cmd) pb) (\<lambda>(data, pb1).
       (let (reqId, p1) = request_id p ctx newReqId cmd
        in case marshal pb1 of
             None \<Rightarrow> Ret (Some MarshalError, p1, sendCh)
           | Some body \<Rightarrow>
               (let head = (MakeMessageHeader 1 (appVer p) (word_of_nat (length body)) cmd)\<lparr>ReqId := reqId\<rparr>;
                    msgBuf = \<lparr>PacketId = 0, MSGHead = head, MSGSign = node_sign p, MSGBody = body, MSGData = data\<rparr>
                in if kind = ToOther then Ret (Some UnknownConnType, p1, sendCh)
                   else
                     (let (err, q) = ServerConn_Write closed (GetReqIdFromContext ctx) newReqId
                            (GetPacketIdFromContext ctx) sendCh msgBuf
                      in Ret (map_option WriteFailed err, p1, q)))))"

lemma LoadRequestInfo_value:
  "fst (LoadRequestInfo M reqId rsp) =
     (case LoadWithoutPushDelete M (request_key reqId (GetReqIdFromRspId rsp)) of
        None \<Rightarrow> (MSG_ID_INVALID, False) | Some t \<Rightarrow> (t, True))"
  using acm.load_value [of M "request_key reqId (GetReqIdFromRspId rsp)"]
  by (cases "acm_Load M (request_key reqId (GetReqIdFromRspId rsp))")
    (simp add: LoadRequestInfo_def split: option.split)

lemma LoadRequestInfo_history:
  "fst (LoadRequestInfo (foldl (\<lambda>M (r, t). StoreRequestInfo M r t) (NewAutoCleanMap delay now) hist) r' rsp) =
     (if \<exists>r. (r, GetReqIdFromRspId rsp) \<in> set hist \<and> r AND 0x7FFFFFFFFFFFFF00 = r' AND 0x7FFFFFFFFFFFFF00
      then (GetReqIdFromRspId rsp, True) else (MSG_ID_INVALID, False))"
proof -
  let ?k = "request_key r' (GetReqIdFromRspId rsp)"
  have "LoadWithoutPushDelete (foldl (\<lambda>M (r, t). StoreRequestInfo M r t) (NewAutoCleanMap delay now) hist) ?k =
      (if \<exists>r t. (r, t) \<in> set hist \<and> request_key r t = ?k then Some (GetReqIdFromRspId rsp) else None)"
  proof (induction hist rule: rev_induct)
    case Nil
    then show ?case by (simp add: LoadWithoutPushDelete_def NewAutoCleanMap_def)
  next
    case (snoc x hist)
    obtain r t where x: "x = (r, t)" by (cases x)
    have "t = GetReqIdFromRspId rsp" if "request_key r t = ?k"
      using that by (simp add: request_key_eq_iff)
    with snoc x show ?case
      by (auto simp: StoreRequestInfo_def acm.peek_store split: if_splits)
  qed
  then show ?thesis
    by (auto simp: LoadRequestInfo_value request_key_eq_iff)
qed

section \<open>Properties\<close>




text \<open>C17: \<open>SendMessage\<close> of a well-typed request over an open connection queues exactly one message:
  signed by this node, with the marshalled body announced in the head, the file data detached
  from the body, and the request id under which the request is remembered.\<close>
theorem send_request:
  assumes "take 3 (mt_Name cmd) = ''Req''" "kind \<noteq> ToOther" "p2pAddress p \<noteq> []"
    and "case data_type (mt_Id cmd) of None \<Rightarrow> True | Some t \<Rightarrow> pm_type pb = t"
    and "marshal (if data_type (mt_Id cmd) = None then pb else pb\<lparr>pm_Data := []\<rparr>) = Some body"
    and "(if GetReqIdFromContext ctx = 0 then newReqId else GetReqIdFromContext ctx) = reqId" "reqId \<noteq> 0"
  shows "\<exists>p' m. SendMessage marshal p ctx newReqId kind False sendCh pb cmd = Ret (None, p', sendCh @ [m]) \<and>
    ReqId (MSGHead m) = reqId \<and> Cmd (MSGHead m) = mt_Id cmd \<and> MSGBody m = body \<and>
    Len (MSGHead m) = word_of_nat (length body) \<and>
    MSGData m = (if data_type (mt_Id cmd) = None then [] else pm_Data pb) \<and>
    MSGSign m = node_sign p \<and> PacketId m = GetPacketIdFromContext ctx \<and>
    requestInfoMap p' = StoreRequestInfo (requestInfoMap p) reqId (mt_Id cmd)"
proof -
  obtain data pb1 where d: "detach_data (mt_Id cmd) pb = Ret (data, pb1)"
    "pb1 = (if data_type (mt_Id cmd) = None then pb else pb\<lparr>pm_Data := []\<rparr>)"
    "data = (if data_type (mt_Id cmd) = None then [] else pm_Data pb)"
    using assms(4) by (auto simp: detach_data_def split: option.splits)
  show ?thesis
    using assms(1-3,6,7) assms(5) [folded d(2)] d(3)
    by (auto simp: SendMessage_def d(1) request_id_def Let_def ServerConn_Write_def asyncWrite_def
        node_sign_def MakeMessageHeader_def)
qed

theorem send_request_witness:
  "\<exists>p' m. SendMessage (\<lambda>pb. Some [1, 2]) \<lparr>p2pPubKey = [4], p2pAddress = [5], p2pSigner = Inr, appVer = 12,
        requestInfoMap = NewAutoCleanMap 3600 0, remoteReqIdMap = NewAutoCleanMap 86400 0\<rparr>
      (Some Background) 0x1209 ToClientConn False [] \<lparr>pm_type = ''ReqUploadFileSlice'', pm_Data = [9], pm_rest = ()\<rparr>
      \<lparr>mt_Id = MSG_ID_REQ_UPLOAD_FILESLICE, mt_Name = ''ReqUpFS''\<rparr> = Ret (None, p', [m]) \<and>
    ReqId (MSGHead m) = 0x1209 \<and> MSGData m = [9]"
  using send_request [of "\<lparr>mt_Id = MSG_ID_REQ_UPLOAD_FILESLICE, mt_Name = ''ReqUpFS''\<rparr>" ToClientConn
      "\<lparr>p2pPubKey = [4], p2pAddress = [5], p2pSigner = Inr, appVer = 12,
        requestInfoMap = NewAutoCleanMap 3600 0, remoteReqIdMap = NewAutoCleanMap 86400 0\<rparr>"
      "\<lparr>pm_type = ''ReqUploadFileSlice'', pm_Data = [9], pm_rest = ()\<rparr>" "\<lambda>pb. Some [1, 2]" "[1, 2]"
      "Some Background" "0x1209" "0x1209" "[]"]
  by (simp add: data_type_def GetReqIdFromContext_def ctx_value_def Background_def) force

end
