(* ===== verification/Verification.thy ===== *)
theory Verification
  imports Requests
begin

text \<open>
  Verification of incoming messages: the table of handlers and verifiers of
  \<open>pp/event/event_handle.go\<close> and the verifiers of \<open>pp/event/verification.go\<close>, which tie a
  response to a request, a sender to the list of SP nodes, and the task data relayed by other
  nodes to the signature of an SP node. An error is a string, \<open>None\<close> is a nil error.
\<close>

type_synonym go_error = "string option"

text \<open>\<open>Wrap\<close> of \<open>github.com/pkg/errors\<close> returns nil when the error it wraps is nil.\<close>

definition errors_Wrap :: "go_error \<Rightarrow> string \<Rightarrow> go_error" where
  "errors_Wrap err msg = map_option (\<lambda>e. msg @ '': '' @ e) err"

section \<open>Messages signed by an SP node\<close>

text \<open>
  The parts of the four message types that the verifiers look at. A target is the message itself,
  a message that carries one in a field (whose pointer may be nil), or neither.
\<close>

record 'b sp_msg =
  SpP2PAddress :: bytes
  NodeSign :: "bytes option"
  sp_ReqId :: string
  sp_body :: 'b

datatype 'b target = Itself "'b sp_msg" | Carries "'b sp_msg option" | NoField

record 'b verify_env =
  ve_crypto :: p2p_crypto
  SPMap :: "bytes \<Rightarrow> string option"
  P2PPubKeyFromBech32 :: "string \<Rightarrow> bytes option"
  ve_Marshal :: "'b sp_msg \<Rightarrow> bytes option"
  ve_Unmarshal :: "bytes \<Rightarrow> 'b target option"

definition GetSpPubkey :: "'b verify_env \<Rightarrow> bytes \<Rightarrow> string + bytes" where
  "GetSpPubkey V spP2pAddr =
     (case SPMap V spP2pAddr of
        None \<Rightarrow> Inl ''could not find sp info by the given SP address''
      | Some key \<Rightarrow>
          (case P2PPubKeyFromBech32 V key of
             None \<Rightarrow> Inl ''error decoding P2P pubKey from bech32''
           | Some pk \<Rightarrow> Inr pk))"

definition verify_sp_signed ::
  "'b verify_env \<Rightarrow> string \<Rightarrow> ('b sp_msg \<Rightarrow> 'b sp_msg) \<Rightarrow> 'b sp_msg option \<Rightarrow> go_error" where
  "verify_sp_signed V noMsg clear msg =
     (case msg of
        None \<Rightarrow> Some noMsg
      | Some m \<Rightarrow>
          if SpP2PAddress m = [] then Some ''key information is missing''
          else case NodeSign m of
            None \<Rightarrow> Some ''key information is missing''
          | Some nodeSign \<Rightarrow>
              (case GetSpPubkey V (SpP2PAddress m) of
                 Inl err \<Rightarrow> errors_Wrap (Some err) ''failed to get the pubkey of the sp''
               | Inr spP2pPubkey \<Rightarrow>
                   if \<not> VerifyP2pAddrBytes (ve_crypto V) spP2pPubkey (SpP2PAddress m)
                   then errors_Wrap None ''failed to verify p2p address''
                   else
                     (case ve_Marshal V (clear m) of
                        None \<Rightarrow> Some ''failed encoding the sign message of the sp''
                      | Some msgBytes \<Rightarrow>
                          if \<not> VerifyP2pSignBytes (ve_crypto V) spP2pPubkey nodeSign
                                 (CalcHashBytes (ve_crypto V) msgBytes)
                          then Some ''failed verifying the signature of the sp''
                          else None)))"

definition verifyRspUploadFile :: "'b verify_env \<Rightarrow> 'b sp_msg option \<Rightarrow> go_error" where
  "verifyRspUploadFile V = verify_sp_signed V ''RspUploadFile msg is empty'' (\<lambda>m. m\<lparr>NodeSign := None\<rparr>)"

definition verifyRspBackupStatus :: "'b verify_env \<Rightarrow> 'b sp_msg option \<Rightarrow> go_error" where
  "verifyRspBackupStatus V = verify_sp_signed V ''RspBackupStatus msg is empty'' (\<lambda>m. m\<lparr>NodeSign := None\<rparr>)"

definition verifyNoticeFileSliceBackup :: "'b verify_env \<Rightarrow> 'b sp_msg option \<Rightarrow> go_error" where
  "verifyNoticeFileSliceBackup V =
     verify_sp_signed V ''NoticeFileSliceBackup msg is empty'' (\<lambda>m. m\<lparr>NodeSign := None\<rparr>)"

definition verifyRspFileStorageInfo :: "'b verify_env \<Rightarrow> 'b sp_msg option \<Rightarrow> go_error" where
  "verifyRspFileStorageInfo V =
     verify_sp_signed V ''RspFileStorageInfo msg is empty'' (\<lambda>m. m\<lparr>NodeSign := None, sp_ReqId := []\<rparr>)"

section \<open>Verifiers\<close>

definition verifySpP2pAddress :: "'b verify_env \<Rightarrow> context_values \<Rightarrow> go_error" where
  "verifySpP2pAddress V ctx =
     (if SPMap V (GetSrcP2pAddrFromContext (Some ctx)) = None
      then Some ''source p2p address is not in the SP list'' else None)"

definition GetReqIdFromMessage :: "context_values \<Rightarrow> u64 go" where
  "GetReqIdFromMessage ctx = go_bind (MessageFromContext ctx) (\<lambda>m. Ret (ReqId (MSGHead m)))"

definition verifyReqId :: "request_map \<Rightarrow> context_values \<Rightarrow> u8 \<Rightarrow> (go_error \<times> request_map) go" where
  "verifyReqId M ctx msgTypeId =
     go_bind (GetReqIdFromMessage ctx) (\<lambda>r.
       (let ((t, found), M') = LoadRequestInfo M r msgTypeId
        in Ret (if found then None else Some ''no previous request for this rsp found'', M')))"

text \<open>Unmarshals the message and checks the SP message in it, as the target or in a field.\<close>

definition check_target ::
  "'b verify_env \<Rightarrow> ('b sp_msg option \<Rightarrow> go_error) \<Rightarrow> (unit \<Rightarrow> go_error) \<Rightarrow> context_values \<Rightarrow> go_error go" where
  "check_target V verify from_sp ctx =
     go_bind (MessageFromContext ctx) (\<lambda>m.
       Ret (case ve_Unmarshal V (MSGBody m) of
              None \<Rightarrow> errors_Wrap (Some ''bad wire format'') ''protobuf Unmarshal error''
            | Some (Itself x) \<Rightarrow> (case from_sp () of Some e \<Rightarrow> Some e | None \<Rightarrow> verify (Some x))
            | Some (Carries f) \<Rightarrow> verify f
            | Some NoField \<Rightarrow> Some ''field is not found in the message''))"

definition with_reqid ::
  "request_map \<Rightarrow> context_values \<Rightarrow> u8 \<Rightarrow> go_error go \<Rightarrow> (go_error \<times> request_map) go" where
  "with_reqid M ctx i rest =
     go_bind (verifyReqId M ctx i) (\<lambda>(e, M').
       case e of Some err \<Rightarrow> Ret (Some err, M') | None \<Rightarrow> go_bind rest (\<lambda>e'. Ret (e', M')))"

definition RspUploadFileVerifier ::
  "'b verify_env \<Rightarrow> request_map \<Rightarrow> context_values \<Rightarrow> u8 \<Rightarrow> (go_error \<times> request_map) go" where
  "RspUploadFileVerifier V M ctx i =
     with_reqid M ctx i (check_target V (verifyRspUploadFile V) (\<lambda>_. verifySpP2pAddress V ctx) ctx)"

text \<open>
  Without the check of the request id only a field is looked for; a target that is the message
  itself has no such field.
\<close>

definition check_field ::
  "'b verify_env \<Rightarrow> ('b sp_msg option \<Rightarrow> go_error) \<Rightarrow> context_values \<Rightarrow> go_error go" where
  "check_field V verify ctx =
     go_bind (MessageFromContext ctx) (\<lambda>m.
       Ret (case ve_Unmarshal V (MSGBody m) of
              None \<Rightarrow> errors_Wrap (Some ''bad wire format'') ''protobuf Unmarshal error''
            | Some (Carries f) \<Rightarrow> verify f
            | Some _ \<Rightarrow> Some ''field is not found in the message''))"

definition RspUploadFileWithNoReqIdVerifier :: "'b verify_env \<Rightarrow> context_values \<Rightarrow> go_error go" where
  "RspUploadFileWithNoReqIdVerifier V ctx = check_field V (verifyRspUploadFile V) ctx"

definition RspBackupStatusVerifier ::
  "'b verify_env \<Rightarrow> request_map \<Rightarrow> context_values \<Rightarrow> u8 \<Rightarrow> (go_error \<times> request_map) go" where
  "RspBackupStatusVerifier V M ctx i =
     with_reqid M ctx i (check_target V (verifyRspBackupStatus V) (\<lambda>_. None) ctx)"

definition RspBackupStatusWithNoReqIdVerifier :: "'b verify_env \<Rightarrow> context_values \<Rightarrow> go_error go" where
  "RspBackupStatusWithNoReqIdVerifier V ctx = check_field V (verifyRspBackupStatus V) ctx"

definition NoticeFileSliceBackupVerifier :: "'b verify_env \<Rightarrow> context_values \<Rightarrow> go_error go" where
  "NoticeFileSliceBackupVerifier V ctx = check_target V (verifyNoticeFileSliceBackup V) (\<lambda>_. None) ctx"

definition RspFileStorageInfoVerifier ::
  "'b verify_env \<Rightarrow> request_map \<Rightarrow> context_values \<Rightarrow> u8 \<Rightarrow> (go_error \<times> request_map) go" where
  "RspFileStorageInfoVerifier V M ctx i =
     with_reqid M ctx i (check_target V (verifyRspFileStorageInfo V) (\<lambda>_. verifySpP2pAddress V ctx) ctx)"

definition RspFileStorageInfoWithNoReqIdVerifier :: "'b verify_env \<Rightarrow> context_values \<Rightarrow> go_error go" where
  "RspFileStorageInfoWithNoReqIdVerifier V ctx = check_field V (verifyRspFileStorageInfo V) ctx"

definition PpRspVerifier :: "request_map \<Rightarrow> context_values \<Rightarrow> u8 \<Rightarrow> (go_error \<times> request_map) go" where
  "PpRspVerifier M ctx i = verifyReqId M ctx i"

definition SpRspVerifier ::
  "'b verify_env \<Rightarrow> request_map \<Rightarrow> context_values \<Rightarrow> u8 \<Rightarrow> (go_error \<times> request_map) go" where
  "SpRspVerifier V M ctx i =
     (case verifySpP2pAddress V ctx of Some e \<Rightarrow> Ret (Some e, M) | None \<Rightarrow> verifyReqId M ctx i)"

definition SpAddressVerifier :: "'b verify_env \<Rightarrow> context_values \<Rightarrow> go_error" where
  "SpAddressVerifier V ctx = verifySpP2pAddress V ctx"

section \<open>The table of events\<close>

datatype verifier = NilVerifier | V_SpRspVerifier | V_PpRspVerifier | V_SpAddressVerifier |
  V_RspUploadFileVerifier | V_RspUploadFileWithNoReqIdVerifier |
  V_RspBackupStatusVerifier | V_RspBackupStatusWithNoReqIdVerifier |
  V_NoticeFileSliceBackupVerifier |
  V_RspFileStorageInfoVerifier | V_RspFileStorageInfoWithNoReqIdVerifier

definition event_table :: "(u8 \<times> string \<times> verifier) list" where
  "event_table =
    [(MSG_ID_RSP_GET_SPLIST, ''RspGetSPList'', V_SpRspVerifier),
     (MSG_ID_RSP_GET_PPSTATUS, ''RspGetPPStatus'', V_SpRspVerifier),
     (MSG_ID_RSP_GET_PPDOWNGRADEINFO, ''RspGetPPDowngradeInfo'', V_SpRspVerifier),
     (MSG_ID_RSP_GET_WALLETOZ, ''RspGetWalletOz'', V_SpRspVerifier),
     (MSG_ID_RSP_REPORT_NODESTATUS, ''RspReportNodeStatus'', V_SpRspVerifier),
     (MSG_ID_RSP_REGISTER, ''RspRegister'', V_SpRspVerifier),
     (MSG_ID_RSP_ACTIVATE_PP, ''RspActivate'', V_SpRspVerifier),
     (MSG_ID_RSP_UPDATE_STAKE_PP, ''RspUpdateDeposit'', V_SpRspVerifier),
     (MSG_ID_RSP_DEACTIVATE_PP, ''RspDeactivate'', V_SpRspVerifier),
     (MSG_ID_NOTICE_UNBONDING_PP, ''NoticeUnbondingPP'', V_SpRspVerifier),
     (MSG_ID_RSP_PREPAY, ''RspPrepay'', V_SpRspVerifier),
     (MSG_ID_RSP_MINING, ''RspMining'', V_SpRspVerifier),
     (MSG_ID_RSP_START_MAINTENANCE, ''RspStartMaintenance'', V_SpRspVerifier),
     (MSG_ID_RSP_STOP_MAINTENANCE, ''RspStopMaintenance'', V_SpRspVerifier),
     (MSG_ID_RSP_FIND_MY_FILELIST, ''RspFindMyFileList'', V_SpRspVerifier),
     (MSG_ID_RSP_UPLOAD_FILE, ''RspUploadFile'', V_RspUploadFileVerifier),
     (MSG_ID_RSP_REPORT_UPLOAD_SLICE_RESULT, ''RspReportUploadSliceResult'', V_SpRspVerifier),
     (MSG_ID_RSP_REGISTER_NEWPP, ''RspRegisterNewPP'', V_SpRspVerifier),
     (MSG_ID_RSP_REPORT_DOWNLOAD_RESULT, ''RspReportDownloadResult'', V_SpRspVerifier),
     (MSG_ID_RSP_UPLOAD_SLICES_WRONG, ''RspUploadSlicesWrong'', V_RspUploadFileWithNoReqIdVerifier),
     (MSG_ID_RSP_REPORT_BACKUP_SLICE_RESULT, ''RspReportBackupSliceResult'', V_SpRspVerifier),
     (MSG_ID_RSP_FILE_BACKUP_STATUS, ''RspBackupStatus'', V_RspBackupStatusVerifier),
     (MSG_ID_RSP_FILE_STORAGEINFO, ''RspFileStorageInfo'', V_RspFileStorageInfoVerifier),
     (MSG_ID_RSP_FILE_REPLICA_INFO, ''RspFileReplicaInfo'', V_SpRspVerifier),
     (MSG_ID_RSP_FILE_STATUS, ''RspFileStatus'', V_SpRspVerifier),
     (MSG_ID_RSP_DOWNLOAD_FILE_WRONG, ''RspDownloadFileWrong'', V_RspFileStorageInfoVerifier),
     (MSG_ID_RSP_SHARELINK, ''RspShareLink'', V_SpRspVerifier),
     (MSG_ID_RSP_SHARE_FILE, ''RspShareFile'', V_SpRspVerifier),
     (MSG_ID_RSP_GET_SHAREFILE, ''RspGetShareFile'', V_RspFileStorageInfoVerifier),
     (MSG_ID_RSP_DELETE_SHARE, ''RspDeleteShare'', V_SpRspVerifier),
     (MSG_ID_RSP_SP_LATENCY_CHECK, ''RspSpLatencyCheck'', V_SpRspVerifier),
     (MSG_ID_RSP_DELETE_FILE, ''RspDeleteFile'', V_SpRspVerifier),
     (MSG_ID_RSP_CLEAR_EXPIRED_SHARE_LINKS, ''RspClearExpiredShareLinks'', V_SpRspVerifier),
     (MSG_ID_NOTICE_ACTIVATED_SP, ''NoticeActivatedPP'', V_SpAddressVerifier),
     (MSG_ID_NOTICE_STATE_CHANGE_PP, ''NoticeUpdatedDeposit'', V_SpAddressVerifier),
     (MSG_ID_NOTICE_ACTIVATE_PP, ''NoticeDeactivatedPP'', V_SpAddressVerifier),
     (MSG_ID_RSP_STATE_CHANGE_PP, ''RspStateChange'', V_SpAddressVerifier),
     (MSG_ID_REQ_UPLOAD_FILESLICE, ''ReqUploadFileSlice'', V_RspUploadFileWithNoReqIdVerifier),
     (MSG_ID_RSP_UPLOAD_FILESLICE, ''RspUploadFileSlice'', V_PpRspVerifier),
     (MSG_ID_REQ_BACKUP_FILESLICE, ''ReqBackupFileSlice'', V_RspBackupStatusWithNoReqIdVerifier),
     (MSG_ID_RSP_BACKUP_FILESLICE, ''RspBackupFileSlice'', V_PpRspVerifier),
     (MSG_ID_REQ_DOWNLOAD_SLICE, ''ReqDownloadSlice'', V_RspFileStorageInfoWithNoReqIdVerifier),
     (MSG_ID_RSP_DOWNLOAD_SLICE, ''RspDownloadSlice'', V_PpRspVerifier),
     (MSG_ID_REQ_TRANSFER_DOWNLOAD, ''ReqTransferDownload'', V_NoticeFileSliceBackupVerifier),
     (MSG_ID_RSP_TRANSFER_DOWNLOAD, ''RspTransferDownload'', NilVerifier),
     (MSG_ID_REQ_VERIFY_DOWNLOAD, ''ReqVerifyDownload'', NilVerifier),
     (MSG_ID_RSP_VERIFY_DOWNLOAD, ''RspVerifyDownload'', NilVerifier),
     (MSG_ID_RSP_VERIFY_RESULT, ''RspVerifyDownloadResult'', NilVerifier),
     (MSG_ID_REQ_CLEAR_DOWNLOAD_TASK, ''ReqClearDownloadTask'', NilVerifier),
     (MSG_ID_UPLOAD_SPEED_OF_PROGRESS, ''UploadSpeedOfProgress'', NilVerifier),
     (MSG_ID_NOTICE_FILESLICE_BACKUP, ''NoticeFileSliceBackup'', V_NoticeFileSliceBackupVerifier),
     (MSG_ID_NOTICE_FILESLICE_VERIFY, ''NoticeFileSliceVerify'', NilVerifier),
     (MSG_ID_NOTICE_SP_UNDERMAINTENANCE, ''NoticeSpUnderMaintenance'', V_SpAddressVerifier),
     (MSG_ID_NOTICE_RELOCATE_SP, ''NoticeRelocateSp'', V_SpAddressVerifier),
     (MSG_ID_RSP_TRANSFER_DOWNLOAD_RESULT, ''RspTransferDownloadResult'', NilVerifier),
     (MSG_ID_RSP_VERIFY_DOWNLOAD_RESULT, ''RspVerifyDownloadResult'', NilVerifier),
     (MSG_ID_RSP_BADVERSION, ''RspBadVersion'', NilVerifier),
     (MSG_ID_REQ_GET_HDINFO, ''ReqGetHDInfo'', NilVerifier),
     (MSG_ID_RSP_GET_HDINFO, ''RspGetHDInfo'', NilVerifier)]"

text \<open>The handlers and the verifiers by message id.\<close>

record event_registry =
  messageRegistry :: "string option list"
  verifierMap :: "verifier list"

definition registerEvent :: "event_registry \<Rightarrow> u8 \<Rightarrow> string \<Rightarrow> verifier \<Rightarrow> event_registry go" where
  "registerEvent R i hf vf =
     go_bind (Register (messageRegistry R) \<lparr>mt_Id = i, mt_Name = []\<rparr> hf) (\<lambda>reg.
       if unat i < length (verifierMap R)
       then Ret (R\<lparr>messageRegistry := reg, verifierMap := (verifierMap R)[unat i := vf]\<rparr>)
       else Panic ''index out of range'')"

fun register_events :: "event_registry \<Rightarrow> (u8 \<times> string \<times> verifier) list \<Rightarrow> event_registry go" where
  "register_events R [] = Ret R"
| "register_events R ((i, hf, vf) # es) = go_bind (registerEvent R i hf vf) (\<lambda>R'. register_events R' es)"

definition RegisterAllEventHandlers :: "event_registry go" where
  "RegisterAllEventHandlers =
     register_events \<lparr>messageRegistry = replicate (unat NUMBER_MESSAGE_TYPES) None,
       verifierMap = replicate (unat NUMBER_MESSAGE_TYPES) NilVerifier\<rparr> event_table"

definition run_verifier ::
  "'b verify_env \<Rightarrow> request_map \<Rightarrow> verifier \<Rightarrow> context_values \<Rightarrow> u8 \<Rightarrow> (go_error \<times> request_map) go" where
  "run_verifier V M vf ctx i =
     (let keep = (\<lambda>e. go_bind e (\<lambda>x. Ret (x, M)))
      in case vf of
           NilVerifier \<Rightarrow> Ret (None, M)
         | V_SpRspVerifier \<Rightarrow> SpRspVerifier V M ctx i
         | V_PpRspVerifier \<Rightarrow> PpRspVerifier M ctx i
         | V_SpAddressVerifier \<Rightarrow> Ret (SpAddressVerifier V ctx, M)
         | V_RspUploadFileVerifier \<Rightarrow> RspUploadFileVerifier V M ctx i
         | V_RspUploadFileWithNoReqIdVerifier \<Rightarrow> keep (RspUploadFileWithNoReqIdVerifier V ctx)
         | V_RspBackupStatusVerifier \<Rightarrow> RspBackupStatusVerifier V M ctx i
         | V_RspBackupStatusWithNoReqIdVerifier \<Rightarrow> keep (RspBackupStatusWithNoReqIdVerifier V ctx)
         | V_NoticeFileSliceBackupVerifier \<Rightarrow> keep (NoticeFileSliceBackupVerifier V ctx)
         | V_RspFileStorageInfoVerifier \<Rightarrow> RspFileStorageInfoVerifier V M ctx i
         | V_RspFileStorageInfoWithNoReqIdVerifier \<Rightarrow> keep (RspFileStorageInfoWithNoReqIdVerifier V ctx))"

definition VerifyMessage ::
  "'b verify_env \<Rightarrow> event_registry \<Rightarrow> request_map \<Rightarrow> context_values \<Rightarrow> u8 \<Rightarrow> (go_error \<times> request_map) go" where
  "VerifyMessage V R M ctx i =
     (if unat i < length (verifierMap R) then run_verifier V M (verifierMap R ! unat i) ctx i
      else Panic ''index out of range'')"

section \<open>Lemmas\<close>

definition checks_reqid :: "verifier \<Rightarrow> bool" where
  "checks_reqid vf \<longleftrightarrow> vf \<in> {V_SpRspVerifier, V_PpRspVerifier, V_RspUploadFileVerifier,
     V_RspBackupStatusVerifier, V_RspFileStorageInfoVerifier}"

lemma verify_sp_signed_None:
  "verify_sp_signed V e clear (Some m) = None \<longleftrightarrow>
     SpP2PAddress m \<noteq> [] \<and> (\<exists>sg pk. NodeSign m = Some sg \<and> GetSpPubkey V (SpP2PAddress m) = Inr pk \<and>
       (VerifyP2pAddrBytes (ve_crypto V) pk (SpP2PAddress m) \<longrightarrow>
          (\<exists>b. ve_Marshal V (clear m) = Some b \<and>
             VerifyP2pSignBytes (ve_crypto V) pk sg (CalcHashBytes (ve_crypto V) b))))"
  by (auto simp: verify_sp_signed_def errors_Wrap_def split: option.split sum.split)

lemma verifyReqId_unfold:
  assumes "messageCtx ctx = Some m"
  shows "verifyReqId M ctx i = Ret (if snd (fst (LoadRequestInfo M (ReqId (MSGHead m)) i)) then None
      else Some ''no previous request for this rsp found'', snd (LoadRequestInfo M (ReqId (MSGHead m)) i))"
  using assms
  by (cases "LoadRequestInfo M (ReqId (MSGHead m)) i")
    (auto simp: verifyReqId_def GetReqIdFromMessage_def MessageFromContext_def)

lemma verifyReqId_None:
  assumes "messageCtx ctx = Some m" "verifyReqId M ctx i = Ret (None, M')"
  shows "snd (fst (LoadRequestInfo M (ReqId (MSGHead m)) i))"
  using assms(2) unfolding verifyReqId_unfold [OF assms(1)] by (auto split: if_splits)

lemma checks_reqid_sound:
  assumes "checks_reqid vf" "messageCtx ctx = Some m" "run_verifier V M vf ctx i = Ret (None, M')"
  shows "snd (fst (LoadRequestInfo M (ReqId (MSGHead m)) i))"
proof -
  have "\<exists>M''. verifyReqId M ctx i = Ret (None, M'')"
    using assms(1,3)
    by (auto simp: checks_reqid_def run_verifier_def SpRspVerifier_def PpRspVerifier_def
        RspUploadFileVerifier_def RspBackupStatusVerifier_def RspFileStorageInfoVerifier_def
        with_reqid_def go_simps split: option.splits)
  with verifyReqId_None [OF assms(2)] show ?thesis by blast
qed

lemma register_events_lookup:
  assumes "length (messageRegistry R) = unat NUMBER_MESSAGE_TYPES"
    and "length (verifierMap R) = unat NUMBER_MESSAGE_TYPES"
    and "\<forall>(i, h, v) \<in> set es. i < NUMBER_MESSAGE_TYPES" "distinct (map fst es)"
  shows "\<exists>R'. register_events R es = Ret R' \<and> length (verifierMap R') = unat NUMBER_MESSAGE_TYPES \<and>
    (\<forall>(i, h, v) \<in> set es. verifierMap R' ! unat i = v \<and> messageRegistry R' ! unat i = Some h) \<and>
    (\<forall>i. i \<notin> set (map fst es) \<longrightarrow> verifierMap R' ! unat i = verifierMap R ! unat i \<and>
       messageRegistry R' ! unat i = messageRegistry R ! unat i)"
  using assms
proof (induction es arbitrary: R)
  case (Cons e es)
  obtain i h v where e: "e = (i, h, v)" by (cases e)
  let ?R = "R\<lparr>messageRegistry := (messageRegistry R)[unat i := Some h],
    verifierMap := (verifierMap R)[unat i := v]\<rparr>"
  have i: "unat i < unat NUMBER_MESSAGE_TYPES"
    using Cons.prems by (auto simp: e word_less_nat_alt)
  then have reg: "registerEvent R i h v = Ret ?R"
    using Cons.prems by (simp add: registerEvent_def Register_def)
  obtain R' where R': "register_events ?R es = Ret R'" "length (verifierMap R') = unat NUMBER_MESSAGE_TYPES"
    and new: "\<forall>(i, h, v) \<in> set es. verifierMap R' ! unat i = v \<and> messageRegistry R' ! unat i = Some h"
    and old: "\<forall>j. j \<notin> set (map fst es) \<longrightarrow> verifierMap R' ! unat j = verifierMap ?R ! unat j \<and>
       messageRegistry R' ! unat j = messageRegistry ?R ! unat j"
    using Cons.IH [of ?R] Cons.prems by (auto simp: e)
  have hd: "verifierMap R' ! unat i = v" "messageRegistry R' ! unat i = Some h"
    using old Cons.prems i by (auto simp: e)
  have "\<forall>j. j \<notin> set (map fst (e # es)) \<longrightarrow> verifierMap R' ! unat j = verifierMap R ! unat j \<and>
       messageRegistry R' ! unat j = messageRegistry R ! unat j"
    using old by (auto simp: e nth_list_update word_unat_eq_iff)
  with R' new hd show ?case by (auto simp: e reg)
qed simp

lemma event_table_ids: "distinct (map fst event_table)" "list_all (\<lambda>(i, h, v). i < NUMBER_MESSAGE_TYPES) event_table"
  by (simp_all add: event_table_def msg_id_defs)

lemma RegisterAllEventHandlers_lookup:
  obtains R where "RegisterAllEventHandlers = Ret R" "length (verifierMap R) = unat NUMBER_MESSAGE_TYPES"
    and "\<And>i h v. (i, h, v) \<in> set event_table \<Longrightarrow> verifierMap R ! unat i = v \<and> messageRegistry R ! unat i = Some h"
  using register_events_lookup [of "\<lparr>messageRegistry = replicate (unat NUMBER_MESSAGE_TYPES) None,
       verifierMap = replicate (unat NUMBER_MESSAGE_TYPES) NilVerifier\<rparr>" event_table] event_table_ids
  unfolding RegisterAllEventHandlers_def list_all_iff by fastforce

lemma event_table_reqids:
  "map fst (filter (\<lambda>(i, h, v). checks_reqid v \<and> GetReqIdFromRspId i = MSG_ID_INVALID) event_table) =
     [MSG_ID_NOTICE_UNBONDING_PP]"
  by (simp add: event_table_def checks_reqid_def GetReqIdFromRspId_def msg_id_defs)

text \<open>A concrete environment in which one SP node is known, for the witnesses.\<close>

definition demo_verify_env :: "unit verify_env" where
  "demo_verify_env = \<lparr>ve_crypto = \<lparr>CalcHashBytes = (\<lambda>x. x), VerifyP2pAddrBytes = (\<lambda>pk a. pk = a),
       VerifyP2pSignBytes = (\<lambda>pk sg x. sg = x)\<rparr>,
     SPMap = (\<lambda>a. if a = [7] then Some ''sp'' else None), P2PPubKeyFromBech32 = (\<lambda>s. Some [7]),
     ve_Marshal = (\<lambda>m. Some []), ve_Unmarshal = (\<lambda>b. None)\<rparr>"

definition demo_rsp_ctx :: "u64 \<Rightarrow> context_values" where
  "demo_rsp_ctx r = CreateContextWithSrcP2pAddr (CreateContextWithMessage Background
     (received_msg \<lparr>Tag = 1, Len = 0, DataLen = 0, Cmd = MSG_ID_RSP_REGISTER, ReqId = r, Version = 12\<rparr> [] [])) [7]"

section \<open>Properties\<close>


text \<open>C19: a message whose registered verifier checks the request id passes \<open>VerifyMessage\<close> only if
  this node has sent a request of the type that the message answers, under the request id in the
  message's head up to its lowest byte and sign.\<close>
theorem verified_response_was_requested:
  assumes "RegisterAllEventHandlers = Ret R" "(i, h, v) \<in> set event_table" "checks_reqid v"
    and "messageCtx ctx = Some m"
    and "VerifyMessage V R (foldl (\<lambda>M (r, t). StoreRequestInfo M r t) (NewAutoCleanMap delay now) hist) ctx i =
      Ret (None, M')"
  shows "\<exists>r. (r, GetReqIdFromRspId i) \<in> set hist \<and>
    r AND 0x7FFFFFFFFFFFFF00 = ReqId (MSGHead m) AND 0x7FFFFFFFFFFFFF00"
proof -
  let ?M = "foldl (\<lambda>M (r, t). StoreRequestInfo M r t) (NewAutoCleanMap delay now) hist"
  have v: "verifierMap R ! unat i = v"
    using assms(1,2) by (metis RegisterAllEventHandlers_lookup go.inject(1))
  then have "run_verifier V ?M v ctx i = Ret (None, M')"
    using assms(5) by (auto simp: VerifyMessage_def split: if_splits)
  from checks_reqid_sound [OF assms(3,4) this]
  show ?thesis unfolding LoadRequestInfo_history by (auto split: if_splits)
qed

theorem verified_response_was_requested_witness:
  "\<exists>R M'. RegisterAllEventHandlers = Ret R \<and>
     VerifyMessage demo_verify_env R (StoreRequestInfo (NewAutoCleanMap 3600 0) 0x1200 MSG_ID_REQ_REGISTER)
       (demo_rsp_ctx 0x1209) MSG_ID_RSP_REGISTER = Ret (None, M') \<and>
     (\<exists>r :: u64. (r, GetReqIdFromRspId MSG_ID_RSP_REGISTER) \<in> set [(0x1200, MSG_ID_REQ_REGISTER)] \<and>
       r AND 0x7FFFFFFFFFFFFF00 = 0x1209 AND 0x7FFFFFFFFFFFFF00)"
proof -
  let ?hist = "[(0x1200, MSG_ID_REQ_REGISTER)] :: (u64 \<times> u8) list"
  let ?M = "foldl (\<lambda>M (r, t). StoreRequestInfo M r t) (NewAutoCleanMap 3600 0) ?hist"
  let ?m = "received_msg \<lparr>Tag = 1, Len = 0, DataLen = 0, Cmd = MSG_ID_RSP_REGISTER, ReqId = 0x1209, Version = 12\<rparr> [] []"
  obtain R where R: "RegisterAllEventHandlers = Ret R" "length (verifierMap R) = unat NUMBER_MESSAGE_TYPES"
    and look: "\<And>i h v. (i, h, v) \<in> set event_table \<Longrightarrow> verifierMap R ! unat i = v \<and> messageRegistry R ! unat i = Some h"
    by (rule RegisterAllEventHandlers_lookup) blast
  have tab: "(MSG_ID_RSP_REGISTER, ''RspRegister'', V_SpRspVerifier) \<in> set event_table"
    by (simp add: event_table_def)
  have ctx: "messageCtx (demo_rsp_ctx 0x1209) = Some ?m"
    by (simp add: demo_rsp_ctx_def CreateContextWithSrcP2pAddr_def CreateContextWithMessage_def)
  have rq: "GetReqIdFromRspId MSG_ID_RSP_REGISTER = MSG_ID_REQ_REGISTER"
    by (simp add: GetReqIdFromRspId_def msg_id_defs)
  have "fst (LoadRequestInfo ?M 0x1209 MSG_ID_RSP_REGISTER) = (MSG_ID_REQ_REGISTER, True)"
    unfolding LoadRequestInfo_history rq by simp
  then have "\<exists>M'. SpRspVerifier demo_verify_env ?M (demo_rsp_ctx 0x1209) MSG_ID_RSP_REGISTER = Ret (None, M')"
    unfolding SpRspVerifier_def verifyReqId_unfold [OF ctx]
    by (simp add: verifySpP2pAddress_def demo_rsp_ctx_def CreateContextWithSrcP2pAddr_def demo_verify_env_def
        GetSrcP2pAddrFromContext_def ctx_value_def received_msg_def CopyMessageHeader_def)
  then obtain M' where v: "VerifyMessage demo_verify_env R ?M (demo_rsp_ctx 0x1209) MSG_ID_RSP_REGISTER = Ret (None, M')"
    using R(2) look [OF tab]
    by (auto simp: VerifyMessage_def run_verifier_def NUMBER_MESSAGE_TYPES_def MSG_ID_RSP_REGISTER_def)
  have "checks_reqid V_SpRspVerifier" by (simp add: checks_reqid_def)
  from verified_response_was_requested [OF R(1) tab this ctx v] R(1) v show ?thesis
    by (auto simp: received_msg_def CopyMessageHeader_def)
qed

text \<open>Among all registered message types whose verifier checks the request id, the notice that
  this node is being unbonded is the only one that answers no request, so whatever requests this
  node has sent, \<open>VerifyMessage\<close> never accepts such a notice.\<close>
theorem unbonding_notice_unverifiable:
  assumes "RegisterAllEventHandlers = Ret R" "messageCtx ctx = Some m"
    and "\<forall>(r, t) \<in> set hist. t \<noteq> MSG_ID_INVALID"
  shows "map fst (filter (\<lambda>(i, h, v). checks_reqid v \<and> GetReqIdFromRspId i = MSG_ID_INVALID) event_table) =
      [MSG_ID_NOTICE_UNBONDING_PP] \<and>
    VerifyMessage V R (foldl (\<lambda>M (r, t). StoreRequestInfo M r t) (NewAutoCleanMap delay now) hist) ctx
      MSG_ID_NOTICE_UNBONDING_PP \<noteq> Ret (None, M')"
proof
  show "map fst (filter (\<lambda>(i, h, v). checks_reqid v \<and> GetReqIdFromRspId i = MSG_ID_INVALID) event_table) =
      [MSG_ID_NOTICE_UNBONDING_PP]"
    by (rule event_table_reqids)
  let ?M = "foldl (\<lambda>M (r, t). StoreRequestInfo M r t) (NewAutoCleanMap delay now) hist"
  have tab: "(MSG_ID_NOTICE_UNBONDING_PP, ''NoticeUnbondingPP'', V_SpRspVerifier) \<in> set event_table"
    by (simp add: event_table_def)
  then have v: "verifierMap R ! unat MSG_ID_NOTICE_UNBONDING_PP = V_SpRspVerifier"
    using assms(1) by (metis RegisterAllEventHandlers_lookup go.inject(1))
  have inv: "GetReqIdFromRspId MSG_ID_NOTICE_UNBONDING_PP = MSG_ID_INVALID"
    by (simp add: GetReqIdFromRspId_def msg_id_defs)
  show "VerifyMessage V R ?M ctx MSG_ID_NOTICE_UNBONDING_PP \<noteq> Ret (None, M')"
  proof
    assume "VerifyMessage V R ?M ctx MSG_ID_NOTICE_UNBONDING_PP = Ret (None, M')"
    then have "run_verifier V ?M V_SpRspVerifier ctx MSG_ID_NOTICE_UNBONDING_PP = Ret (None, M')"
      using v by (auto simp: VerifyMessage_def split: if_splits)
    from checks_reqid_sound [OF _ assms(2) this] show False
      using assms(3) unfolding LoadRequestInfo_history inv
      by (auto simp: checks_reqid_def split: if_splits)
  qed
qed

theorem unbonding_notice_unverifiable_witness:
  "\<exists>R. RegisterAllEventHandlers = Ret R \<and>
    (\<forall>M'. VerifyMessage demo_verify_env R (StoreRequestInfo (NewAutoCleanMap 3600 0) 0x1200 MSG_ID_REQ_REGISTER)
      (demo_rsp_ctx 0x1200) MSG_ID_NOTICE_UNBONDING_PP \<noteq> Ret (None, M'))"
proof -
  obtain R where R: "RegisterAllEventHandlers = Ret R"
    by (rule RegisterAllEventHandlers_lookup) blast
  have "\<exists>m. messageCtx (demo_rsp_ctx 0x1200) = Some m"
    by (simp add: demo_rsp_ctx_def CreateContextWithSrcP2pAddr_def CreateContextWithMessage_def)
  then obtain m where "messageCtx (demo_rsp_ctx 0x1200) = Some m" ..
  then have "VerifyMessage demo_verify_env R (StoreRequestInfo (NewAutoCleanMap 3600 0) 0x1200 MSG_ID_REQ_REGISTER)
      (demo_rsp_ctx 0x1200) MSG_ID_NOTICE_UNBONDING_PP \<noteq> Ret (None, M')" for M'
    using unbonding_notice_unverifiable [OF R, of "demo_rsp_ctx 0x1200" m "[(0x1200, MSG_ID_REQ_REGISTER)]"
        demo_verify_env 3600 0 M'] by (simp add: msg_id_defs)
  with R show ?thesis by blast
qed

end
