(* ===== verification/Fsm.thy ===== *)
theory Fsm
  imports Prelude
begin

text \<open>
  The table-driven state machine of \<open>framework/utils/fsm.go\<close>. A transition names the new state and
  an optional action; the action is a value here, which the client of the machine runs.
\<close>

record Event =
  ev_Id :: nat
  ev_Name :: string

record State =
  st_Id :: nat
  st_Name :: string

record 'a TransitionItem =
  NewState :: nat
  Action :: "'a option"

record 'a Fsm =
  initStateId :: nat
  stateId :: nat
  StateTransTable :: "'a TransitionItem list list"
  stateList :: "State list"
  eventList :: "Event list"

definition zero_Fsm :: "'a Fsm" where
  "zero_Fsm = \<lparr>initStateId = 0, stateId = 0, StateTransTable = [], stateList = [], eventList = []\<rparr>"

text \<open>\<open>RunFsm\<close> returns the machine in its new state and the action to run; every slice access is
  checked, also the two in the final log line.\<close>

definition RunFsm :: "'a Fsm \<Rightarrow> nat \<Rightarrow> ('a Fsm \<times> 'a option) go" where
  "RunFsm fsm e =
     (if length (stateList fsm) \<le> stateId fsm \<or> length (StateTransTable fsm) \<le> stateId fsm \<or>
         length (StateTransTable fsm ! stateId fsm) \<le> e
      then Panic ''index out of range''
      else
        (let item = StateTransTable fsm ! stateId fsm ! e
         in if length (eventList fsm) \<le> e \<or> length (stateList fsm) \<le> NewState item
            then Panic ''index out of range''
            else Ret (fsm\<lparr>stateId := NewState item\<rparr>, Action item)))"

definition GetState :: "'a Fsm \<Rightarrow> State go" where
  "GetState fsm =
     (if stateId fsm < length (stateList fsm) then Ret (stateList fsm ! stateId fsm)
      else Panic ''index out of range'')"

definition InitFsm ::
  "'a Fsm \<Rightarrow> State list \<Rightarrow> Event list \<Rightarrow> ('a Fsm \<Rightarrow> 'a Fsm) \<Rightarrow> nat \<Rightarrow> string + 'a Fsm" where
  "InitFsm fsm states evs f init =
     (if states = [] \<or> evs = [] then Inl ''invalid number of states or events''
      else Inr ((f (fsm\<lparr>stateList := states, eventList := evs\<rparr>))\<lparr>initStateId := init\<rparr>))"

section \<open>Well-formed machines\<close>

text \<open>A table is rectangular, its entries name states, and the current state is one.\<close>

definition wf_fsm :: "'a Fsm \<Rightarrow> bool" where
  "wf_fsm fsm \<longleftrightarrow> stateId fsm < length (stateList fsm) \<and>
     length (StateTransTable fsm) = length (stateList fsm) \<and>
     list_all (\<lambda>row. length row = length (eventList fsm) \<and>
       list_all (\<lambda>item. NewState item < length (stateList fsm)) row) (StateTransTable fsm)"

definition transition :: "'a Fsm \<Rightarrow> nat \<Rightarrow> 'a TransitionItem" where
  "transition fsm e = StateTransTable fsm ! stateId fsm ! e"

lemma RunFsm_wf:
  assumes "wf_fsm fsm" "e < length (eventList fsm)"
  shows "RunFsm fsm e = Ret (fsm\<lparr>stateId := NewState (transition fsm e)\<rparr>, Action (transition fsm e))"
  using assms unfolding wf_fsm_def RunFsm_def transition_def Let_def list_all_length
  by (auto simp: not_le)

lemma wf_fsm_step:
  assumes "wf_fsm fsm" "e < length (eventList fsm)"
  shows "wf_fsm (fsm\<lparr>stateId := NewState (transition fsm e)\<rparr>)"
  using assms unfolding wf_fsm_def transition_def list_all_length by auto

lemma GetState_wf: "wf_fsm fsm \<Longrightarrow> GetState fsm = Ret (stateList fsm ! stateId fsm)"
  by (simp add: wf_fsm_def GetState_def)

end
