(* ===== verification/Network.thy ===== *)
theory Network
  imports Fsm "HOL-Library.Multiset"
begin

text \<open>
  The life cycle of a storage node (\<open>pp/network\<close>): its state machine, the actions and timers that
  register it with an SP node and reconnect it, and the message handlers of \<open>pp/event\<close> that raise
  the events of the machine. A handler is a computation on the state of the node that can panic,
  keeping the changes made before the panic. Messages sent to the SP, scheduled jobs and changes
  of the SP are recorded as effects.
\<close>

section \<open>Events, states and the transition table\<close>

definition EVENT_SP_NO_PP_IN_STORE :: nat where
  "EVENT_SP_NO_PP_IN_STORE = 0"

definition EVENT_RCV_RSP_REGISTER_NEW_PP :: nat where
  "EVENT_RCV_RSP_REGISTER_NEW_PP = 1"

definition EVENT_RCV_STATUS_INACTIVE :: nat where
  "EVENT_RCV_STATUS_INACTIVE = 2"

definition EVENT_RCV_STATUS_SUSPEND :: nat where
  "EVENT_RCV_STATUS_SUSPEND = 3"

definition EVENT_RCV_RSP_ACTIVATED :: nat where
  "EVENT_RCV_RSP_ACTIVATED = 4"

definition EVENT_RCV_STATE_OFFLINE :: nat where
  "EVENT_RCV_STATE_OFFLINE = 5"

definition EVENT_START_MINING :: nat where
  "EVENT_START_MINING = 6"

definition EVENT_RCV_MINING_NOT_STARTED :: nat where
  "EVENT_RCV_MINING_NOT_STARTED = 7"

definition EVENT_MAINTANENCE_STOP :: nat where
  "EVENT_MAINTANENCE_STOP = 8"

definition EVENT_MAINTANENCE_START :: nat where
  "EVENT_MAINTANENCE_START = 9"

definition EVENT_CONN_RECONN :: nat where
  "EVENT_CONN_RECONN = 10"

definition EVENT_RCV_RSP_FIRST_NODE_STATUS :: nat where
  "EVENT_RCV_RSP_FIRST_NODE_STATUS = 11"

definition EVENT_RCV_SUSPENDED_STATE :: nat where
  "EVENT_RCV_SUSPENDED_STATE = 12"

definition EVENT_GET_SP_LIST :: nat where
  "EVENT_GET_SP_LIST = 13"

definition STATE_INIT :: nat where
  "STATE_INIT = 0"

definition STATE_GOT_SP_LIST :: nat where
  "STATE_GOT_SP_LIST = 1"

definition STATE_NOT_CREATED :: nat where
  "STATE_NOT_CREATED = 2"

definition STATE_NOT_ACTIVATED :: nat where
  "STATE_NOT_ACTIVATED = 3"

definition STATE_NOT_REGISTERED :: nat where
  "STATE_NOT_REGISTERED = 4"

definition STATE_REGISTERING :: nat where
  "STATE_REGISTERING = 5"

definition STATE_REGISTERED :: nat where
  "STATE_REGISTERED = 6"

definition STATE_MAINTANENCE :: nat where
  "STATE_MAINTANENCE = 7"

definition STATE_SUSPENDED :: nat where
  "STATE_SUSPENDED = 8"

definition STATE_OFFLINE :: nat where
  "STATE_OFFLINE = 9"

lemmas event_defs =
  EVENT_SP_NO_PP_IN_STORE_def EVENT_RCV_RSP_REGISTER_NEW_PP_def EVENT_RCV_STATUS_INACTIVE_def
  EVENT_RCV_STATUS_SUSPEND_def EVENT_RCV_RSP_ACTIVATED_def EVENT_RCV_STATE_OFFLINE_def
  EVENT_START_MINING_def EVENT_RCV_MINING_NOT_STARTED_def EVENT_MAINTANENCE_STOP_def
  EVENT_MAINTANENCE_START_def EVENT_CONN_RECONN_def EVENT_RCV_RSP_FIRST_NODE_STATUS_def
  EVENT_RCV_SUSPENDED_STATE_def EVENT_GET_SP_LIST_def

lemmas state_defs =
  STATE_INIT_def STATE_GOT_SP_LIST_def STATE_NOT_CREATED_def
  STATE_NOT_ACTIVATED_def STATE_NOT_REGISTERED_def STATE_REGISTERING_def
  STATE_REGISTERED_def STATE_MAINTANENCE_def STATE_SUSPENDED_def
  STATE_OFFLINE_def

definition e_list :: "Event list" where
  "e_list =
    [\<lparr>ev_Id = EVENT_SP_NO_PP_IN_STORE, ev_Name = ''EVENT_SP_NO_PP_IN_STORE''\<rparr>,
     \<lparr>ev_Id = EVENT_RCV_RSP_REGISTER_NEW_PP, ev_Name = ''EVENT_RCV_RSP_REGISTER_NEW_PP''\<rparr>,
     \<lparr>ev_Id = EVENT_RCV_STATUS_INACTIVE, ev_Name = ''EVENT_RCV_STATUS_INACTIVE''\<rparr>,
     \<lparr>ev_Id = EVENT_RCV_STATUS_SUSPEND, ev_Name = ''EVENT_RCV_STATUS_SUSPEND''\<rparr>,
     \<lparr>ev_Id = EVENT_RCV_RSP_ACTIVATED, ev_Name = ''EVENT_RCV_RSP_ACTIVATED''\<rparr>,
     \<lparr>ev_Id = EVENT_RCV_STATE_OFFLINE, ev_Name = ''EVENT_RCV_STATE_OFFLINE''\<rparr>,
     \<lparr>ev_Id = EVENT_START_MINING, ev_Name = ''EVENT_START_MINING''\<rparr>,
     \<lparr>ev_Id = EVENT_RCV_MINING_NOT_STARTED, ev_Name = ''EVENT_RCV_MINING_NOT_STARTED''\<rparr>,
     \<lparr>ev_Id = EVENT_MAINTANENCE_STOP, ev_Name = ''EVENT_MAINTANENCE_STOP''\<rparr>,
     \<lparr>ev_Id = EVENT_MAINTANENCE_START, ev_Name = ''EVENT_MAINTANENCE_START''\<rparr>,
     \<lparr>ev_Id = EVENT_CONN_RECONN, ev_Name = ''EVENT_CONN_RECONN''\<rparr>,
     \<lparr>ev_Id = EVENT_RCV_RSP_FIRST_NODE_STATUS, ev_Name = ''EVENT_RCV_RSP_FIRST_NODE_STATUS''\<rparr>,
     \<lparr>ev_Id = EVENT_RCV_SUSPENDED_STATE, ev_Name = ''EVENT_RCV_SUSPENDED_STATE''\<rparr>,
     \<lparr>ev_Id = EVENT_GET_SP_LIST, ev_Name = ''EVENT_GET_SP_LIST''\<rparr>]"

definition s_list :: "State list" where
  "s_list =
    [\<lparr>st_Id = STATE_INIT, st_Name = ''STATE_INIT''\<rparr>,
     \<lparr>st_Id = STATE_GOT_SP_LIST, st_Name = ''STATE_GOT_SP_LIST''\<rparr>,
     \<lparr>st_Id = STATE_NOT_CREATED, st_Name = ''STATE_NOT_CREATED''\<rparr>,
     \<lparr>st_Id = STATE_NOT_ACTIVATED, st_Name = ''STATE_NOT_ACTIVATED''\<rparr>,
     \<lparr>st_Id = STATE_NOT_REGISTERED, st_Name = ''STATE_NOT_REGISTERED''\<rparr>,
     \<lparr>st_Id = STATE_REGISTERING, st_Name = ''STATE_REGISTERING''\<rparr>,
     \<lparr>st_Id = STATE_REGISTERED, st_Name = ''STATE_REGISTERED''\<rparr>,
     \<lparr>st_Id = STATE_MAINTANENCE, st_Name = ''STATE_MAINTANENCE''\<rparr>,
     \<lparr>st_Id = STATE_SUSPENDED, st_Name = ''STATE_SUSPENDED''\<rparr>,
     \<lparr>st_Id = STATE_OFFLINE, st_Name = ''STATE_OFFLINE''\<rparr>]"

datatype net_action = GetPPStatusFromSP | StartRegisterToSp

definition fsmTable :: "(nat \<times> nat \<times> net_action TransitionItem) list" where
  "fsmTable =
    [(STATE_INIT, EVENT_GET_SP_LIST, \<lparr>NewState = STATE_GOT_SP_LIST, Action = Some GetPPStatusFromSP\<rparr>),
     (STATE_GOT_SP_LIST, EVENT_SP_NO_PP_IN_STORE, \<lparr>NewState = STATE_NOT_CREATED, Action = None\<rparr>),
     (STATE_GOT_SP_LIST, EVENT_RCV_STATUS_INACTIVE, \<lparr>NewState = STATE_NOT_ACTIVATED, Action = None\<rparr>),
     (STATE_GOT_SP_LIST, EVENT_RCV_RSP_ACTIVATED, \<lparr>NewState = STATE_REGISTERING, Action = Some StartRegisterToSp\<rparr>),
     (STATE_NOT_CREATED, EVENT_RCV_RSP_REGISTER_NEW_PP, \<lparr>NewState = STATE_NOT_ACTIVATED, Action = None\<rparr>),
     (STATE_NOT_ACTIVATED, EVENT_RCV_RSP_ACTIVATED, \<lparr>NewState = STATE_NOT_REGISTERED, Action = None\<rparr>),
     (STATE_NOT_REGISTERED, EVENT_RCV_STATE_OFFLINE, \<lparr>NewState = STATE_OFFLINE, Action = None\<rparr>),
     (STATE_NOT_REGISTERED, EVENT_START_MINING, \<lparr>NewState = STATE_REGISTERING, Action = Some StartRegisterToSp\<rparr>),
     (STATE_REGISTERING, EVENT_RCV_RSP_FIRST_NODE_STATUS, \<lparr>NewState = STATE_REGISTERED, Action = None\<rparr>),
     (STATE_REGISTERING, EVENT_RCV_SUSPENDED_STATE, \<lparr>NewState = STATE_SUSPENDED, Action = None\<rparr>),
     (STATE_REGISTERED, EVENT_CONN_RECONN, \<lparr>NewState = STATE_REGISTERING, Action = Some StartRegisterToSp\<rparr>),
     (STATE_REGISTERED, EVENT_RCV_SUSPENDED_STATE, \<lparr>NewState = STATE_SUSPENDED, Action = None\<rparr>),
     (STATE_REGISTERED, EVENT_MAINTANENCE_START, \<lparr>NewState = STATE_MAINTANENCE, Action = None\<rparr>),
     (STATE_REGISTERED, EVENT_RCV_STATE_OFFLINE, \<lparr>NewState = STATE_OFFLINE, Action = None\<rparr>),
     (STATE_REGISTERED, EVENT_RCV_STATUS_SUSPEND, \<lparr>NewState = STATE_SUSPENDED, Action = None\<rparr>),
     (STATE_MAINTANENCE, EVENT_MAINTANENCE_STOP, \<lparr>NewState = STATE_REGISTERING, Action = None\<rparr>),
     (STATE_SUSPENDED, EVENT_RCV_STATE_OFFLINE, \<lparr>NewState = STATE_OFFLINE, Action = None\<rparr>),
     (STATE_SUSPENDED, EVENT_START_MINING, \<lparr>NewState = STATE_REGISTERING, Action = Some StartRegisterToSp\<rparr>),
     (STATE_SUSPENDED, EVENT_RCV_MINING_NOT_STARTED, \<lparr>NewState = STATE_NOT_REGISTERED, Action = None\<rparr>),
     (STATE_OFFLINE, EVENT_START_MINING, \<lparr>NewState = STATE_REGISTERING, Action = Some StartRegisterToSp\<rparr>)]"

text \<open>All entries of the table first lead from a state to itself; the entries of \<open>fsmTable\<close> then
  replace theirs.\<close>

definition self_rows :: "net_action TransitionItem list list" where
  "self_rows = map (\<lambda>s. map (\<lambda>_. \<lparr>NewState = st_Id s, Action = None\<rparr>) e_list) s_list"

definition put_item ::
  "'a TransitionItem list list \<Rightarrow> nat \<times> nat \<times> 'a TransitionItem \<Rightarrow> 'a TransitionItem list list" where
  "put_item t row = (case row of (s, e, item) \<Rightarrow> t[s := (t ! s)[e := item]])"

definition fill_table :: "net_action Fsm \<Rightarrow> net_action Fsm" where
  "fill_table fsm = fsm\<lparr>StateTransTable := foldl put_item (StateTransTable fsm @ self_rows) fsmTable\<rparr>"

definition Network_InitFsm :: "net_action Fsm \<Rightarrow> net_action Fsm" where
  "Network_InitFsm fsm = (case InitFsm fsm s_list e_list fill_table STATE_INIT of Inl _ \<Rightarrow> fsm | Inr f \<Rightarrow> f)"

definition fsm0 :: "net_action Fsm" where
  "fsm0 = Network_InitFsm zero_Fsm"

text \<open>What the machine does in a state on an event: the row of \<open>fsmTable\<close>, or nothing.\<close>

definition table_spec :: "nat \<Rightarrow> nat \<Rightarrow> net_action TransitionItem" where
  "table_spec s e =
     (case map_of (map (\<lambda>(s, e, i). ((s, e), i)) fsmTable) (s, e) of
        None \<Rightarrow> \<lparr>NewState = s, Action = None\<rparr> | Some item \<Rightarrow> item)"

lemma fsm0_lists [simp]: "stateList fsm0 = s_list" "eventList fsm0 = e_list" "stateId fsm0 = STATE_INIT"
  by (simp_all add: fsm0_def Network_InitFsm_def InitFsm_def fill_table_def zero_Fsm_def s_list_def e_list_def
      STATE_INIT_def)

lemma fsm0_table:
  "StateTransTable fsm0 = map (\<lambda>s. map (table_spec s) [0..<14]) [0..<10]"
  by code_simp

lemma length_lists [simp]: "length s_list = 10" "length e_list = 14"
  by (simp_all add: s_list_def e_list_def)

lemma table_spec_range: "s < 10 \<Longrightarrow> e < 14 \<Longrightarrow> NewState (table_spec s e) < 10"
proof -
  have "list_all (\<lambda>s. list_all (\<lambda>e. NewState (table_spec s e) < 10) [0..<14]) [0..<10]"
    by code_simp
  then show "s < 10 \<Longrightarrow> e < 14 \<Longrightarrow> NewState (table_spec s e) < 10" by (auto simp: list_all_iff)
qed

lemma st_Id_s_list: "s < 10 \<Longrightarrow> st_Id (s_list ! s) = s"
proof -
  have "map st_Id s_list = [0..<10]" by code_simp
  then show "s < 10 \<Longrightarrow> st_Id (s_list ! s) = s" by (metis length_lists(1) nth_map nth_upt add_0)
qed
section \<open>The state of a node\<close>

text \<open>
  \<open>jobs\<close> are the jobs waiting in the clock of the peer, with their delays in seconds. The globals
  of the package and the part of \<open>setting\<close> that the handlers write are fields of the state.
\<close>

datatype job = TryRegister | TryReloadConnectSP | RetryGetSPList

datatype sp_request = ReqRegister | ReqMining | ReqGetPPStatus | ReqGetSPList | ReqReportNodeStatus

datatype effect = SendToSP sp_request | ConfirmOptSP string | CloseSpConn | FatalExit

record CandidateSp =
  NetworkAddr :: string
  SpResponseTimeCost :: int

record net_state =
  fsm :: "net_action Fsm"
  reloadConnectSpRetry :: nat
  reloadRegisterRetry :: nat
  reloadConnecting :: bool
  jobs :: "(job \<times> nat) multiset"
  retryCounter :: nat
  nodeStatusResponded :: bool
  consecutiveFailureCount :: nat
  candidateSps :: "CandidateSp list"
  set_State :: nat
  IsPP :: bool
  IsPPSyncedWithSP :: bool
  effects :: "effect list"

text \<open>
  What the node finds around it: whether its wallet can sign and is logged in, its random
  numbers, the name of its SP connection, if it has one, and \<open>sort.Slice\<close> by cost, which does not
  fix the order of equal costs.
\<close>

record net_env =
  wallet_signs :: bool
  CheckLogin :: bool
  rand_Intn :: "nat \<Rightarrow> nat"
  spConn :: bool
  GetSpName :: string
  sorted_candidates :: "CandidateSp list \<Rightarrow> CandidateSp list"

type_synonym net_m = "net_state \<Rightarrow> net_state \<times> bool"

definition skip_m :: net_m where
  "skip_m n = (n, False)"

definition panic_m :: net_m where
  "panic_m n = (n, True)"

definition mod_m :: "(net_state \<Rightarrow> net_state) \<Rightarrow> net_m" where
  "mod_m f n = (f n, False)"

definition seq_m :: "net_m \<Rightarrow> net_m \<Rightarrow> net_m" where
  "seq_m a b n = (case a n of (n', p) \<Rightarrow> if p then (n', True) else b n')"

definition when_m :: "bool \<Rightarrow> net_m \<Rightarrow> net_m" where
  "when_m c a = (if c then a else skip_m)"

definition get_m :: "(net_state \<Rightarrow> net_m) \<Rightarrow> net_m" where
  "get_m f n = f n n"

definition effect_m :: "effect \<Rightarrow> net_m" where
  "effect_m x = mod_m (\<lambda>n. n\<lparr>effects := effects n @ [x]\<rparr>)"

definition AddJobWithInterval :: "nat \<Rightarrow> job \<Rightarrow> net_m" where
  "AddJobWithInterval d j = mod_m (\<lambda>n. n\<lparr>jobs := add_mset (j, d) (jobs n)\<rparr>)"

definition GetStateFromFsm :: "(nat \<Rightarrow> net_m) \<Rightarrow> net_m" where
  "GetStateFromFsm k n = (case GetState (fsm n) of Panic _ \<Rightarrow> (n, True) | Ret s \<Rightarrow> k (st_Id s) n)"

section \<open>Actions and timers\<close>

definition RegisterToSP :: "net_env \<Rightarrow> net_m" where
  "RegisterToSP E = when_m (wallet_signs E) (effect_m (SendToSP ReqRegister))"

definition GetSPList :: "net_env \<Rightarrow> net_m" where
  "GetSPList E = when_m (wallet_signs E) (effect_m (SendToSP ReqGetSPList))"

definition StartMining :: "net_env \<Rightarrow> net_m" where
  "StartMining E = when_m (CheckLogin E) (effect_m (SendToSP ReqMining))"

definition MIN_RELOAD_REGISTER_INTERVAL :: nat where
  "MIN_RELOAD_REGISTER_INTERVAL = 30"

definition MAX_RELOAD_REGISTER_INTERVAL :: nat where
  "MAX_RELOAD_REGISTER_INTERVAL = 300"

definition tryRegister :: "net_env \<Rightarrow> net_m" where
  "tryRegister E = GetStateFromFsm (\<lambda>s.
     if s = STATE_REGISTERING then
       seq_m (RegisterToSP E)
       (seq_m (mod_m (\<lambda>n. n\<lparr>reloadRegisterRetry := reloadRegisterRetry n + 1\<rparr>))
         (get_m (\<lambda>n.
            (let i = MIN_RELOAD_REGISTER_INTERVAL * reloadRegisterRetry n +
                   rand_Intn E MIN_RELOAD_REGISTER_INTERVAL;
                 i' = (if i > MAX_RELOAD_REGISTER_INTERVAL then MAX_RELOAD_REGISTER_INTERVAL else i)
             in AddJobWithInterval i' TryRegister))))
     else mod_m (\<lambda>n. n\<lparr>reloadRegisterRetry := 0\<rparr>))"

definition run_action :: "net_env \<Rightarrow> net_action \<Rightarrow> net_m" where
  "run_action E a =
     (case a of
        GetPPStatusFromSP \<Rightarrow> effect_m (SendToSP ReqGetPPStatus)
      | StartRegisterToSp \<Rightarrow>
          seq_m (tryRegister E) (mod_m (\<lambda>n. n\<lparr>reloadConnectSpRetry := 0\<rparr>)))"

definition Network_RunFsm :: "net_env \<Rightarrow> nat \<Rightarrow> net_m" where
  "Network_RunFsm E e n =
     (case RunFsm (fsm n) e of
        Panic _ \<Rightarrow> (n, True)
      | Ret (f, act) \<Rightarrow>
          (case act of None \<Rightarrow> (n\<lparr>fsm := f\<rparr>, False) | Some a \<Rightarrow> run_action E a (n\<lparr>fsm := f\<rparr>)))"

text \<open>\<open>ConnectToSP\<close> tells whether it made a new connection and whether it failed.\<close>

definition MIN_RELOAD_SP_INTERVAL :: nat where
  "MIN_RELOAD_SP_INTERVAL = 3"

definition MAX_RELOAD_SP_INTERVAL :: nat where
  "MAX_RELOAD_SP_INTERVAL = 300"

definition tryReloadConnectSP :: "net_env \<Rightarrow> bool \<Rightarrow> bool \<Rightarrow> net_m" where
  "tryReloadConnectSP E newConnection failed =
     (if newConnection then
        seq_m (Network_RunFsm E EVENT_CONN_RECONN)
          (mod_m (\<lambda>n. n\<lparr>reloadConnecting := False, reloadConnectSpRetry := 0\<rparr>))
      else if failed then
        get_m (\<lambda>n.
          (let i = MIN_RELOAD_SP_INTERVAL * 10 ^ reloadConnectSpRetry n * 2
           in seq_m (mod_m (\<lambda>n. n\<lparr>reloadConnecting := True,
                  reloadConnectSpRetry := reloadConnectSpRetry n + (if i < MAX_RELOAD_SP_INTERVAL then 1 else 0)\<rparr>))
                (AddJobWithInterval (min i MAX_RELOAD_SP_INTERVAL) TryReloadConnectSP)))
      else mod_m (\<lambda>n. n\<lparr>reloadConnecting := False\<rparr>))"

definition reloadConnectSP :: "net_env \<Rightarrow> bool \<Rightarrow> bool \<Rightarrow> net_m" where
  "reloadConnectSP E newConnection failed = get_m (\<lambda>n.
     when_m (\<not> reloadConnecting n)
       (seq_m (mod_m (\<lambda>n. n\<lparr>reloadConnecting := True\<rparr>))
         (seq_m (tryReloadConnectSP E newConnection failed) (GetSPList E))))"

definition SPLIST_INTERVAL_BASE :: nat where
  "SPLIST_INTERVAL_BASE = 60"

definition SPLIST_MAX_JITTER :: nat where
  "SPLIST_MAX_JITTER = 10"

definition MAX_RETRY_TIMES :: nat where
  "MAX_RETRY_TIMES = 3"

text \<open>The fatal exit ends the process; it is an effect after which the function does not go on.\<close>

definition StartGetSPList :: "net_env \<Rightarrow> net_m" where
  "StartGetSPList E = GetStateFromFsm (\<lambda>s.
     if s = STATE_INIT then
       seq_m (mod_m (\<lambda>n. n\<lparr>retryCounter := retryCounter n + 1\<rparr>))
         (get_m (\<lambda>n.
            if retryCounter n \<ge> MAX_RETRY_TIMES then effect_m FatalExit
            else seq_m (GetSPList E)
              (AddJobWithInterval (SPLIST_INTERVAL_BASE + rand_Intn E SPLIST_MAX_JITTER) RetryGetSPList)))
     else mod_m (\<lambda>n. n\<lparr>retryCounter := 0\<rparr>))"

section \<open>Status reports and the choice of an SP\<close>

definition MAX_NUMBER_NODE_STATUS_FALIURE :: nat where
  "MAX_NUMBER_NODE_STATUS_FALIURE = 3"

definition LatencyCheckTopSpsConsidered :: nat where
  "LatencyCheckTopSpsConsidered = 4"

fun UpdateSpCandidateList :: "CandidateSp list \<Rightarrow> CandidateSp \<Rightarrow> CandidateSp list" where
  "UpdateSpCandidateList [] c = [c]"
| "UpdateSpCandidateList (x # xs) c =
     (if NetworkAddr x = NetworkAddr c then x\<lparr>SpResponseTimeCost := SpResponseTimeCost c\<rparr> # xs
      else x # UpdateSpCandidateList xs c)"

definition ChangeSp :: "net_env \<Rightarrow> net_m" where
  "ChangeSp E = get_m (\<lambda>n.
     if candidateSps n = [] then when_m (spConn E) (effect_m CloseSpConn)
     else
       (let cs = sorted_candidates E (candidateSps n);
            k = min LatencyCheckTopSpsConsidered (length cs);
            i = rand_Intn E k;
            j = (if GetSpName E = NetworkAddr (cs ! i) then (i + 1) mod k else i)
        in seq_m (mod_m (\<lambda>n. n\<lparr>candidateSps := cs\<rparr>))
             (when_m (GetSpName E \<noteq> NetworkAddr (cs ! j)) (effect_m (ConfirmOptSP (NetworkAddr (cs ! j)))))))"

definition doReportNodeStatus :: "net_env \<Rightarrow> net_m" where
  "doReportNodeStatus E = get_m (\<lambda>n.
     if \<not> nodeStatusResponded n \<and> consecutiveFailureCount n > MAX_NUMBER_NODE_STATUS_FALIURE
     then ChangeSp E
     else seq_m (mod_m (\<lambda>n. n\<lparr>consecutiveFailureCount :=
                   if nodeStatusResponded n then 0 else consecutiveFailureCount n + 1\<rparr>))
            (GetStateFromFsm (\<lambda>s. when_m (s = STATE_REGISTERED) (effect_m (SendToSP ReqReportNodeStatus)))))"

section \<open>Message handlers\<close>

text \<open>
  A handler first verifies and decodes its message; \<open>ok\<close> tells whether both succeed. The result of
  a response is absent when the field \<open>Result\<close> is nil, whose dereference panics.
\<close>

definition with_result :: "bool option \<Rightarrow> (bool \<Rightarrow> net_m) \<Rightarrow> net_m" where
  "with_result r k = (case r of None \<Rightarrow> panic_m | Some success \<Rightarrow> k success)"

definition PP_INACTIVE :: nat where
  "PP_INACTIVE = 0"

definition PP_ACTIVE :: nat where
  "PP_ACTIVE = 1"

definition PP_UNBONDING :: nat where
  "PP_UNBONDING = 2"

definition RspGetSPList :: "net_env \<Rightarrow> bool \<Rightarrow> bool option \<Rightarrow> bool \<Rightarrow> net_m" where
  "RspGetSPList E ok result spTrusted =
     when_m ok (with_result result (\<lambda>success.
       when_m (success \<and> spTrusted) (Network_RunFsm E EVENT_GET_SP_LIST)))"

record RspGetPPStatus_msg =
  ps_result :: "bool option"
  ps_please_register :: bool
  ps_IsActive :: nat
  ps_suspend :: bool

definition RspGetPPStatus :: "net_env \<Rightarrow> bool \<Rightarrow> RspGetPPStatus_msg \<Rightarrow> net_m" where
  "RspGetPPStatus E ok m =
     when_m ok (with_result (ps_result m) (\<lambda>success.
       if \<not> success then
         when_m (ps_please_register m)
           (seq_m (Network_RunFsm E EVENT_SP_NO_PP_IN_STORE) (mod_m (\<lambda>n. n\<lparr>IsPPSyncedWithSP := True\<rparr>)))
       else
         seq_m (mod_m (\<lambda>n. n\<lparr>set_State := ps_IsActive m\<rparr>))
         (seq_m (when_m (ps_IsActive m = PP_ACTIVE) (mod_m (\<lambda>n. n\<lparr>IsPP := True, IsPPSyncedWithSP := True\<rparr>)))
         (seq_m (if ps_IsActive m = PP_ACTIVE then Network_RunFsm E EVENT_RCV_RSP_ACTIVATED
                 else Network_RunFsm E EVENT_RCV_STATUS_INACTIVE)
           (when_m (ps_suspend m) (Network_RunFsm E EVENT_RCV_STATUS_SUSPEND))))))"

definition RspRegisterNewPP :: "net_env \<Rightarrow> bool \<Rightarrow> bool option \<Rightarrow> bool \<Rightarrow> net_m" where
  "RspRegisterNewPP E ok result alreadyPp =
     when_m ok (with_result result (\<lambda>success.
       if \<not> success then when_m alreadyPp (mod_m (\<lambda>n. n\<lparr>IsPP := True, IsPPSyncedWithSP := True\<rparr>))
       else seq_m (Network_RunFsm E EVENT_RCV_RSP_REGISTER_NEW_PP)
              (mod_m (\<lambda>n. n\<lparr>IsPP := True, IsPPSyncedWithSP := True\<rparr>))))"

text \<open>\<open>NoticeActivatedPP\<close> decodes its message but does not verify it; the other two notices do
  neither.\<close>

definition NoticeActivatedPP :: "net_env \<Rightarrow> bool \<Rightarrow> bool option \<Rightarrow> net_m" where
  "NoticeActivatedPP E unmarshalled result =
     when_m unmarshalled (with_result result (\<lambda>_.
       seq_m (mod_m (\<lambda>n. n\<lparr>set_State := PP_ACTIVE\<rparr>)) (Network_RunFsm E EVENT_RCV_RSP_ACTIVATED)))"

definition NoticeUnbondingPP :: net_m where
  "NoticeUnbondingPP = mod_m (\<lambda>n. n\<lparr>set_State := PP_UNBONDING\<rparr>)"

definition NoticeDeactivatedPP :: net_m where
  "NoticeDeactivatedPP = mod_m (\<lambda>n. n\<lparr>set_State := PP_INACTIVE\<rparr>)"

definition RspRegister :: "net_env \<Rightarrow> bool \<Rightarrow> bool \<Rightarrow> bool \<Rightarrow> bool option \<Rightarrow> bool \<Rightarrow> net_m" where
  "RspRegister E ok forThisNode isSuspended result isPP =
     when_m (ok \<and> forThisNode)
       (seq_m (when_m isSuspended (Network_RunFsm E EVENT_RCV_SUSPENDED_STATE))
         (with_result result (\<lambda>success.
            when_m success
              (seq_m (mod_m (\<lambda>n. n\<lparr>IsPPSyncedWithSP := True, IsPP := isPP\<rparr>))
                (when_m isPP (StartMining E))))))"

definition RspMining :: "net_env \<Rightarrow> bool \<Rightarrow> bool option \<Rightarrow> net_m" where
  "RspMining E ok result =
     when_m ok (with_result result (\<lambda>success.
       if \<not> success then Network_RunFsm E EVENT_RCV_MINING_NOT_STARTED
       else effect_m (SendToSP ReqReportNodeStatus)))"

definition RspReportNodeStatus :: "net_env \<Rightarrow> bool \<Rightarrow> bool option \<Rightarrow> bool \<Rightarrow> net_m" where
  "RspReportNodeStatus E ok result suspended =
     when_m ok (with_result result (\<lambda>success.
       when_m success
         (seq_m (when_m suspended (Network_RunFsm E EVENT_RCV_SUSPENDED_STATE))
         (seq_m (GetStateFromFsm (\<lambda>s.
             when_m (s = STATE_REGISTERING) (Network_RunFsm E EVENT_RCV_RSP_FIRST_NODE_STATUS)))
           (mod_m (\<lambda>n. n\<lparr>nodeStatusResponded := True\<rparr>))))))"

definition RspStartMaintenance :: "net_env \<Rightarrow> bool \<Rightarrow> bool option \<Rightarrow> net_m" where
  "RspStartMaintenance E ok result =
     when_m ok (with_result result (\<lambda>success. when_m success (Network_RunFsm E EVENT_MAINTANENCE_START)))"

definition RspStopMaintenance :: "net_env \<Rightarrow> bool \<Rightarrow> bool option \<Rightarrow> net_m" where
  "RspStopMaintenance E ok result = when_m ok (with_result result (\<lambda>success. skip_m))"

text \<open>The terminal command \<open>startmining\<close>.\<close>

definition cmd_StartMining :: "net_env \<Rightarrow> net_m" where
  "cmd_StartMining E = GetStateFromFsm (\<lambda>s.
     when_m (s = STATE_NOT_REGISTERED \<or> s = STATE_SUSPENDED \<or> s = STATE_OFFLINE)
       (Network_RunFsm E EVENT_START_MINING))"

section \<open>Runs of a node\<close>

datatype net_event =
    GotSPList bool "bool option" bool
  | GotPPStatus bool RspGetPPStatus_msg
  | GotRegisterNewPP bool "bool option" bool
  | ActivatedNotice bool "bool option"
  | UnbondingNotice
  | DeactivatedNotice
  | GotRegister bool bool bool "bool option" bool
  | GotMining bool "bool option"
  | GotNodeStatus bool "bool option" bool
  | GotStartMaintenance bool "bool option"
  | GotStopMaintenance bool "bool option"
  | StartMiningCommand
  | ReportTimer
  | SpMeasured CandidateSp
  | SpOffline bool bool
  | RunTryRegister nat
  | RunTryReload nat bool bool
  | RunGetSPList nat

definition take_job :: "job \<times> nat \<Rightarrow> net_m \<Rightarrow> net_m" where
  "take_job j m = get_m (\<lambda>n.
     when_m (j \<in># jobs n) (seq_m (mod_m (\<lambda>n. n\<lparr>jobs := jobs n - {#j#}\<rparr>)) m))"

primrec handle :: "net_env \<Rightarrow> net_event \<Rightarrow> net_m" where
  "handle E (GotSPList ok r t) = RspGetSPList E ok r t"
| "handle E (GotPPStatus ok m) = RspGetPPStatus E ok m"
| "handle E (GotRegisterNewPP ok r a) = RspRegisterNewPP E ok r a"
| "handle E (ActivatedNotice u r) = NoticeActivatedPP E u r"
| "handle E UnbondingNotice = NoticeUnbondingPP"
| "handle E DeactivatedNotice = NoticeDeactivatedPP"
| "handle E (GotRegister ok f s r i) = RspRegister E ok f s r i"
| "handle E (GotMining ok r) = RspMining E ok r"
| "handle E (GotNodeStatus ok r s) = RspReportNodeStatus E ok r s"
| "handle E (GotStartMaintenance ok r) = RspStartMaintenance E ok r"
| "handle E (GotStopMaintenance ok r) = RspStopMaintenance E ok r"
| "handle E StartMiningCommand = cmd_StartMining E"
| "handle E ReportTimer = doReportNodeStatus E"
| "handle E (SpMeasured c) = mod_m (\<lambda>n. n\<lparr>candidateSps := UpdateSpCandidateList (candidateSps n) c\<rparr>)"
| "handle E (SpOffline new failed) = reloadConnectSP E new failed"
| "handle E (RunTryRegister d) = take_job (TryRegister, d) (tryRegister E)"
| "handle E (RunTryReload d new failed) = take_job (TryReloadConnectSP, d) (tryReloadConnectSP E new failed)"
| "handle E (RunGetSPList d) = take_job (RetryGetSPList, d) (StartGetSPList E)"

definition net_step :: "net_state \<Rightarrow> net_env \<times> net_event \<Rightarrow> net_state" where
  "net_step n x = fst (handle (fst x) (snd x) n)"

definition net0 :: net_state where
  "net0 = \<lparr>fsm = fsm0, reloadConnectSpRetry = 0, reloadRegisterRetry = 0, reloadConnecting = False, jobs = {#},
     retryCounter = 0, nodeStatusResponded = False, consecutiveFailureCount = 0, candidateSps = [],
     set_State = PP_INACTIVE, IsPP = False, IsPPSyncedWithSP = False, effects = []\<rparr>"

definition StartPP :: "net_env \<Rightarrow> net_state" where
  "StartPP E = fst (StartGetSPList E net0)"

section \<open>Invariant\<close>

definition net_fsm_ok :: "net_state \<Rightarrow> bool" where
  "net_fsm_ok n \<longleftrightarrow> stateList (fsm n) = s_list \<and> eventList (fsm n) = e_list \<and>
     StateTransTable (fsm n) = StateTransTable fsm0 \<and> stateId (fsm n) < 10"

abbreviation state_of :: "net_state \<Rightarrow> nat" where
  "state_of n \<equiv> stateId (fsm n)"

definition env_ok :: "net_state \<Rightarrow> net_env \<times> net_event \<Rightarrow> bool" where
  "env_ok n x \<longleftrightarrow> (\<forall>k > 0. rand_Intn (fst x) k < k) \<and>
     (\<forall>cs. mset (sorted_candidates (fst x) cs) = mset cs \<and>
        sorted (map SpResponseTimeCost (sorted_candidates (fst x) cs)))"

fun delay_ok :: "job \<times> nat \<Rightarrow> bool" where
  "delay_ok (TryRegister, d) \<longleftrightarrow> 30 \<le> d \<and> d \<le> 300"
| "delay_ok (TryReloadConnectSP, d) \<longleftrightarrow> d \<in> {6, 60, 300}"
| "delay_ok (RetryGetSPList, d) \<longleftrightarrow> 60 \<le> d \<and> d < 70"

definition waiting :: "job \<Rightarrow> net_state \<Rightarrow> bool" where
  "waiting j n \<longleftrightarrow> j \<in># image_mset fst (jobs n)"

text \<open>The part of the invariant that does not speak of waiting jobs.\<close>

definition net_base :: "net_state \<Rightarrow> bool" where
  "net_base n \<longleftrightarrow> net_fsm_ok n \<and> reloadConnectSpRetry n \<le> 2 \<and> (\<forall>x \<in># jobs n. delay_ok x) \<and>
     distinct (map NetworkAddr (candidateSps n))"

text \<open>A node that is registering, reconnecting or fetching its first SP list has a job waiting
  that goes on with it.\<close>

definition net_inv :: "net_state \<Rightarrow> bool" where
  "net_inv n \<longleftrightarrow> net_base n \<and>
     (state_of n = STATE_REGISTERING \<longrightarrow> waiting TryRegister n) \<and>
     (reloadConnecting n \<longrightarrow> waiting TryReloadConnectSP n) \<and>
     (state_of n = STATE_INIT \<longrightarrow> waiting RetryGetSPList n \<or> FatalExit \<in> set (effects n))"

lemma Network_RunFsm_ok:
  assumes "net_fsm_ok n" "e < 14"
  shows "Network_RunFsm E e n =
    (let i = table_spec (state_of n) e; n1 = n\<lparr>fsm := (fsm n)\<lparr>stateId := NewState i\<rparr>\<rparr>
     in case Action i of None \<Rightarrow> (n1, False) | Some a \<Rightarrow> run_action E a n1)"
proof -
  have st: "state_of n < 10" using assms(1) by (simp add: net_fsm_ok_def)
  have tr: "transition (fsm n) e = table_spec (state_of n) e"
    using assms st by (simp add: net_fsm_ok_def transition_def fsm0_table)
  have "wf_fsm (fsm n)"
    using assms table_spec_range by (auto simp: wf_fsm_def net_fsm_ok_def fsm0_table list_all_length)
  then have "RunFsm (fsm n) e = Ret ((fsm n)\<lparr>stateId := NewState (table_spec (state_of n) e)\<rparr>,
      Action (table_spec (state_of n) e))"
    using RunFsm_wf [of "fsm n" e] assms tr by (simp add: net_fsm_ok_def)
  then show ?thesis by (simp add: Network_RunFsm_def Let_def)
qed

lemma GetStateFromFsm_ok:
  assumes "net_fsm_ok n"
  shows "GetStateFromFsm k n = k (state_of n) n"
proof -
  have "state_of n < 10" "stateList (fsm n) = s_list" using assms by (simp_all add: net_fsm_ok_def)
  then show ?thesis by (simp add: GetStateFromFsm_def GetState_def st_Id_s_list)
qed

named_theorems net_m_defs \<open>the combinators of handlers\<close>
named_theorems keeps_intros \<open>rules for predicates that a handler keeps\<close>

lemmas [net_m_defs] = skip_m_def panic_m_def mod_m_def seq_m_def when_m_def get_m_def effect_m_def
  AddJobWithInterval_def with_result_def

definition keeps :: "(net_state \<Rightarrow> bool) \<Rightarrow> net_m \<Rightarrow> bool" where
  "keeps I m \<longleftrightarrow> (\<forall>n. I n \<longrightarrow> I (fst (m n)))"

lemma keepsD: "keeps I m \<Longrightarrow> I n \<Longrightarrow> I (fst (m n))"
  by (simp add: keeps_def)

lemma keeps_seq [keeps_intros]: "keeps I a \<Longrightarrow> keeps I b \<Longrightarrow> keeps I (seq_m a b)"
  by (auto simp: keeps_def seq_m_def split_def)

lemma keeps_when [keeps_intros]: "(c \<Longrightarrow> keeps I a) \<Longrightarrow> keeps I (when_m c a)"
  by (simp add: keeps_def when_m_def skip_m_def)

lemma keeps_if [keeps_intros]: "(c \<Longrightarrow> keeps I a) \<Longrightarrow> (\<not> c \<Longrightarrow> keeps I b) \<Longrightarrow> keeps I (if c then a else b)"
  by simp

lemma keeps_get [keeps_intros]: "(\<And>n. keeps I (f n)) \<Longrightarrow> keeps I (get_m f)"
  by (simp add: keeps_def get_m_def)

lemma keeps_result [keeps_intros]: "(\<And>b. keeps I (k b)) \<Longrightarrow> keeps I (with_result r k)"
  by (simp add: keeps_def with_result_def panic_m_def split: option.split)

lemma keeps_skip [keeps_intros]: "keeps I skip_m"
  by (simp add: keeps_def skip_m_def)

lemma keeps_state [keeps_intros]: "(\<And>s. keeps I (k s)) \<Longrightarrow> keeps I (GetStateFromFsm k)"
  by (simp add: keeps_def GetStateFromFsm_def split: go.split)

lemma keeps_mod: "(\<And>n. I n \<Longrightarrow> I (f n)) \<Longrightarrow> keeps I (mod_m f)"
  by (simp add: keeps_def mod_m_def)

text \<open>Facts read off the table: how the machine comes to register, and how it leaves its first state.\<close>

lemma all_entries:
  assumes "list_all (\<lambda>s. list_all (\<lambda>e. P s e) [0..<14]) [0..<10]" "s < 10" "e < 14"
  shows "P s e"
  using assms by (auto simp: list_all_iff)

lemma to_registering:
  assumes "NewState (table_spec s e) = STATE_REGISTERING" "e \<noteq> EVENT_MAINTANENCE_STOP" "s < 10" "e < 14"
  shows "s = STATE_REGISTERING \<or> Action (table_spec s e) = Some StartRegisterToSp"
proof -
  have "list_all (\<lambda>s. list_all (\<lambda>e. NewState (table_spec s e) = STATE_REGISTERING \<longrightarrow>
      e \<noteq> EVENT_MAINTANENCE_STOP \<longrightarrow>
      s = STATE_REGISTERING \<or> Action (table_spec s e) = Some StartRegisterToSp) [0..<14]) [0..<10]"
    by code_simp
  from all_entries [OF this assms(3,4)] assms(1,2) show ?thesis by simp
qed

lemma to_init:
  assumes "NewState (table_spec s e) = STATE_INIT" "s < 10" "e < 14"
  shows "s = STATE_INIT \<and> Action (table_spec s e) = None"
proof -
  have "list_all (\<lambda>s. list_all (\<lambda>e. NewState (table_spec s e) = STATE_INIT \<longrightarrow>
      s = STATE_INIT \<and> Action (table_spec s e) = None) [0..<14]) [0..<10]"
    by code_simp
  from all_entries [OF this assms(2,3)] assms(1) show ?thesis by blast
qed

lemma register_action:
  assumes "Action (table_spec s e) = Some StartRegisterToSp" "s < 10" "e < 14"
  shows "NewState (table_spec s e) = STATE_REGISTERING"
proof -
  have "list_all (\<lambda>s. list_all (\<lambda>e. Action (table_spec s e) = Some StartRegisterToSp \<longrightarrow>
      NewState (table_spec s e) = STATE_REGISTERING) [0..<14]) [0..<10]"
    by code_simp
  from all_entries [OF this assms(2,3)] assms(1) show ?thesis by simp
qed

section \<open>Every handler keeps the invariant\<close>

lemma tryRegister_registering:
  assumes "net_fsm_ok n" "state_of n = STATE_REGISTERING"
  shows "tryRegister E n = (n\<lparr>
    effects := (if wallet_signs E then effects n @ [SendToSP ReqRegister] else effects n),
    reloadRegisterRetry := reloadRegisterRetry n + 1,
    jobs := add_mset (TryRegister, min (30 * (reloadRegisterRetry n + 1) + rand_Intn E 30) 300) (jobs n)\<rparr>, False)"
  using assms
  by (simp add: tryRegister_def GetStateFromFsm_ok net_m_defs RegisterToSP_def Let_def min_def
      MIN_RELOAD_REGISTER_INTERVAL_def MAX_RELOAD_REGISTER_INTERVAL_def)

text \<open>Registering from a state that satisfies all but the claim about its own job.\<close>

lemma tryRegister_inv:
  assumes "net_base n" "reloadConnecting n \<longrightarrow> waiting TryReloadConnectSP n"
    and "state_of n = STATE_INIT \<longrightarrow> waiting RetryGetSPList n \<or> FatalExit \<in> set (effects n)"
  shows "net_inv (fst (tryRegister E n)) \<and> state_of (fst (tryRegister E n)) = state_of n"
proof (cases "state_of n = STATE_REGISTERING")
  case True
  have ok: "net_fsm_ok n" using assms(1) by (simp add: net_base_def)
  show ?thesis
    using assms True unfolding tryRegister_registering [OF ok True]
    by (auto simp: net_inv_def net_base_def net_fsm_ok_def waiting_def)
next
  case False
  then have "tryRegister E n = (n\<lparr>reloadRegisterRetry := 0\<rparr>, False)"
    using assms(1) by (simp add: tryRegister_def net_base_def GetStateFromFsm_ok mod_m_def)
  with assms False show ?thesis
    by (auto simp: net_inv_def net_base_def net_fsm_ok_def waiting_def)
qed

lemma RunFsm_inv:
  assumes inv: "net_inv n" and e: "e < 14" "e \<noteq> EVENT_MAINTANENCE_STOP"
  shows "net_inv (fst (Network_RunFsm E e n))"
    and "snd (Network_RunFsm E e n) = False"
    and "state_of (fst (Network_RunFsm E e n)) = NewState (table_spec (state_of n) e)"
    and "reloadConnecting (fst (Network_RunFsm E e n)) = reloadConnecting n"
proof -
  let ?i = "table_spec (state_of n) e"
  let ?n = "n\<lparr>fsm := (fsm n)\<lparr>stateId := NewState ?i\<rparr>\<rparr>"
  have ok: "net_fsm_ok n" and s: "state_of n < 10" using inv by (simp_all add: net_inv_def net_base_def net_fsm_ok_def)
  have run: "Network_RunFsm E e n =
      (case Action ?i of None \<Rightarrow> (?n, False) | Some a \<Rightarrow> run_action E a ?n)"
    using Network_RunFsm_ok [OF ok e(1)] by (simp add: Let_def)
  have base: "net_base ?n"
    using inv table_spec_range [OF s e(1)] by (auto simp: net_inv_def net_base_def net_fsm_ok_def)
  have init: "state_of ?n = STATE_INIT \<longrightarrow> waiting RetryGetSPList ?n \<or> FatalExit \<in> set (effects ?n)"
    using inv to_init [OF _ s e(1)] by (auto simp: net_inv_def waiting_def)
  have conn: "reloadConnecting ?n \<longrightarrow> waiting TryReloadConnectSP ?n"
    using inv by (simp add: net_inv_def waiting_def)
  have all: "net_inv (fst (Network_RunFsm E e n)) \<and> snd (Network_RunFsm E e n) = False \<and>
    state_of (fst (Network_RunFsm E e n)) = NewState ?i \<and>
    reloadConnecting (fst (Network_RunFsm E e n)) = reloadConnecting n"
  proof (cases "Action ?i = Some StartRegisterToSp")
    case True
    have reg: "state_of ?n = STATE_REGISTERING" using register_action [OF True s e(1)] by simp
    have "net_fsm_ok ?n" using base by (simp add: net_base_def)
    from tryRegister_registering [OF this reg, of E] tryRegister_inv [OF base conn init, of E] reg True run
    show ?thesis
      by (auto simp: run_action_def seq_m_def mod_m_def net_inv_def net_base_def net_fsm_ok_def waiting_def)
  next
    case False
    then have "net_inv ?n"
      using base conn init inv to_registering [OF _ e(2) s e(1)] by (auto simp: net_inv_def waiting_def)
    with False run show ?thesis
      by (auto simp: run_action_def net_m_defs net_inv_def net_base_def net_fsm_ok_def waiting_def
          split: option.split net_action.split)
  qed
  then show "net_inv (fst (Network_RunFsm E e n))" "snd (Network_RunFsm E e n) = False"
    "state_of (fst (Network_RunFsm E e n)) = NewState ?i"
    "reloadConnecting (fst (Network_RunFsm E e n)) = reloadConnecting n"
    by simp_all
qed

lemma keeps_RunFsm [keeps_intros]:
  "e < 14 \<Longrightarrow> e \<noteq> EVENT_MAINTANENCE_STOP \<Longrightarrow> keeps net_inv (Network_RunFsm E e)"
  by (simp add: keeps_def RunFsm_inv(1))

lemma keeps_effect [keeps_intros]: "keeps net_inv (effect_m x)"
  by (auto simp: keeps_def net_m_defs net_inv_def net_base_def net_fsm_ok_def waiting_def)

lemmas net_inv_defs = net_inv_def net_base_def net_fsm_ok_def waiting_def

lemma distinct_UpdateSpCandidateList:
  "distinct (map NetworkAddr cs) \<Longrightarrow>
     distinct (map NetworkAddr (UpdateSpCandidateList cs c)) \<and>
     set (map NetworkAddr (UpdateSpCandidateList cs c)) = insert (NetworkAddr c) (set (map NetworkAddr cs))"
  by (induction cs c rule: UpdateSpCandidateList.induct) auto

lemma distinct_sorted_candidates:
  assumes "env_ok n (E, e)" "distinct (map NetworkAddr cs)"
  shows "distinct (map NetworkAddr (sorted_candidates E cs))"
proof -
  have "mset (map NetworkAddr (sorted_candidates E cs)) = mset (map NetworkAddr cs)"
    using assms(1) by (simp add: env_ok_def)
  with assms(2) show ?thesis using mset_eq_imp_distinct_iff by blast
qed

lemma keeps_ChangeSp:
  assumes "env_ok n0 (E, e0)"
  shows "keeps net_inv (ChangeSp E)"
  using distinct_sorted_candidates [OF assms]
  by (auto simp: keeps_def ChangeSp_def net_m_defs Let_def net_inv_defs)

lemma keeps_doReportNodeStatus:
  assumes "env_ok n0 (E, e0)"
  shows "keeps net_inv (doReportNodeStatus E)"
  unfolding doReportNodeStatus_def
  by (intro keeps_intros keeps_mod keeps_ChangeSp [OF assms]) (simp add: net_inv_defs)

lemma tryReloadConnectSP_inv:
  assumes "net_base n" "state_of n = STATE_REGISTERING \<longrightarrow> waiting TryRegister n"
    and "state_of n = STATE_INIT \<longrightarrow> waiting RetryGetSPList n \<or> FatalExit \<in> set (effects n)"
  shows "net_inv (fst (tryReloadConnectSP E new failed n)) \<and> \<not> snd (tryReloadConnectSP E new failed n)"
proof -
  let ?n = "n\<lparr>reloadConnecting := False\<rparr>"
  have 1: "net_inv ?n" using assms by (auto simp: net_inv_defs)
  have 2: "reloadConnectSpRetry n \<in> {0, 1, 2}" using assms(1) by (auto simp: net_base_def)
  have run: "Network_RunFsm E EVENT_CONN_RECONN n = (case Network_RunFsm E EVENT_CONN_RECONN ?n of
      (m, p) \<Rightarrow> (m\<lparr>reloadConnecting := reloadConnecting n\<rparr>, p))"
    if "net_fsm_ok n"
  proof -
    have "net_fsm_ok ?n" "EVENT_CONN_RECONN < 14" using that by (simp_all add: net_fsm_ok_def EVENT_CONN_RECONN_def)
    from Network_RunFsm_ok [OF this, of E] Network_RunFsm_ok [OF that this(2), of E] that
    show ?thesis
      by (auto simp: Let_def run_action_def net_m_defs tryRegister_def RegisterToSP_def GetStateFromFsm_def
          split: option.split net_action.split go.split)
  qed
  have e: "EVENT_CONN_RECONN < 14" "EVENT_CONN_RECONN \<noteq> EVENT_MAINTANENCE_STOP" by (simp_all add: event_defs)
  have "net_fsm_ok n" using assms(1) by (simp add: net_base_def)
  note new = run [OF this] RunFsm_inv(1) [OF 1 e, of E] RunFsm_inv(2) [OF 1 e, of E]
  show ?thesis
  proof (cases new)
    case True
    with new show ?thesis
      by (auto simp: tryReloadConnectSP_def seq_m_def mod_m_def split_def net_inv_defs)
  next
    case False
    with assms 1 2 show ?thesis
      by (auto simp: tryReloadConnectSP_def net_m_defs Let_def net_inv_defs MIN_RELOAD_SP_INTERVAL_def
          MAX_RELOAD_SP_INTERVAL_def)
  qed
qed

lemma keeps_reloadConnectSP: "keeps net_inv (reloadConnectSP E new failed)"
proof -
  have "net_inv (fst (reloadConnectSP E new failed n))" if "net_inv n" for n
  proof (cases "reloadConnecting n")
    case True
    with that show ?thesis by (simp add: reloadConnectSP_def net_m_defs)
  next
    case False
    let ?r = "tryReloadConnectSP E new failed (n\<lparr>reloadConnecting := True\<rparr>)"
    have "net_inv (fst ?r) \<and> \<not> snd ?r"
      by (rule tryReloadConnectSP_inv) (use that in \<open>auto simp: net_inv_defs\<close>)
    moreover have "keeps net_inv (GetSPList E)"
      unfolding GetSPList_def by (intro keeps_intros)
    ultimately show ?thesis
      using False by (auto simp: reloadConnectSP_def get_m_def when_m_def seq_m_def mod_m_def split_def keeps_def)
  qed
  then show ?thesis by (simp add: keeps_def)
qed

lemma waiting_remove:
  "j' \<noteq> j \<Longrightarrow> waiting j' (n\<lparr>jobs := jobs n - {#(j, d)#}\<rparr>) = waiting j' n"
proof -
  have "waiting j' m \<longleftrightarrow> (\<exists>x. (j', x) \<in># jobs m)" for m :: net_state
    by (force simp: waiting_def)
  moreover assume "j' \<noteq> j"
  then have "(j', x) \<in># jobs n - {#(j, d)#} \<longleftrightarrow> (j', x) \<in># jobs n" for x
    by (auto simp: in_diff_count)
  ultimately show ?thesis by simp
qed

lemma net_base_remove: "net_base n \<Longrightarrow> net_base (n\<lparr>jobs := jobs n - M\<rparr>)"
  by (auto simp: net_base_def net_fsm_ok_def dest: in_diffD)

lemma StartGetSPList_inv:
  assumes "env_ok n0 (E, e0)" "net_base n" "state_of n = STATE_REGISTERING \<longrightarrow> waiting TryRegister n"
    and "reloadConnecting n \<longrightarrow> waiting TryReloadConnectSP n"
  shows "net_inv (fst (StartGetSPList E n))"
proof -
  have "net_fsm_ok n" using assms(2) by (simp add: net_base_def)
  note st = GetStateFromFsm_ok [OF this]
  have "rand_Intn E 10 < 10" using assms(1) by (simp add: env_ok_def)
  with assms(2-4) st show ?thesis
    by (auto simp: StartGetSPList_def net_m_defs GetSPList_def net_inv_defs SPLIST_INTERVAL_BASE_def
        SPLIST_MAX_JITTER_def)
qed

lemma keeps_take_job:
  assumes "\<And>n. net_inv n \<Longrightarrow> j \<in># jobs n \<Longrightarrow> net_inv (fst (m (n\<lparr>jobs := jobs n - {#j#}\<rparr>)))"
  shows "keeps net_inv (take_job j m)"
  using assms by (auto simp: keeps_def take_job_def net_m_defs split_def)

lemma keeps_handle:
  assumes "env_ok n0 (E, e)"
  shows "keeps net_inv (handle E e)"
proof (cases e)
  case (GotPPStatus ok m)
  show ?thesis
    unfolding GotPPStatus handle.simps RspGetPPStatus_def
    by (intro keeps_intros keeps_mod) (auto simp: event_defs net_inv_defs)
next
  case (RunTryRegister d)
  show ?thesis
    unfolding RunTryRegister handle.simps
  proof (rule keeps_take_job)
    fix n assume "net_inv n"
    then show "net_inv (fst (tryRegister E (n\<lparr>jobs := jobs n - {#(TryRegister, d)#}\<rparr>)))"
      by (intro tryRegister_inv [THEN conjunct1]) (auto simp: waiting_remove net_base_remove net_inv_def)
  qed
next
  case (RunTryReload d new failed)
  show ?thesis
    unfolding RunTryReload handle.simps
  proof (rule keeps_take_job)
    fix n assume "net_inv n"
    then show "net_inv (fst (tryReloadConnectSP E new failed (n\<lparr>jobs := jobs n - {#(TryReloadConnectSP, d)#}\<rparr>)))"
      by (intro tryReloadConnectSP_inv [THEN conjunct1]) (auto simp: waiting_remove net_base_remove net_inv_def)
  qed
next
  case (RunGetSPList d)
  show ?thesis
    unfolding RunGetSPList handle.simps
  proof (rule keeps_take_job)
    fix n assume "net_inv n"
    then show "net_inv (fst (StartGetSPList E (n\<lparr>jobs := jobs n - {#(RetryGetSPList, d)#}\<rparr>)))"
      by (intro StartGetSPList_inv [OF assms]) (auto simp: waiting_remove net_base_remove net_inv_def)
  qed
next
  case (SpMeasured c)
  show ?thesis
    unfolding SpMeasured handle.simps
    by (rule keeps_mod) (auto simp: net_inv_defs dest: distinct_UpdateSpCandidateList)
qed (simp_all, ((simp add: RspGetSPList_def RspRegisterNewPP_def NoticeActivatedPP_def NoticeUnbondingPP_def
      NoticeDeactivatedPP_def RspRegister_def RspMining_def RspReportNodeStatus_def RspStartMaintenance_def
      RspStopMaintenance_def cmd_StartMining_def StartMining_def keeps_doReportNodeStatus [OF assms]
      keeps_reloadConnectSP;
    (intro keeps_intros keeps_mod)?; (simp add: event_defs net_inv_defs)?)+)?)

interpretation net_sys: guarded_system net_step env_ok net_inv
  by unfold_locales (use keeps_handle in \<open>auto simp: net_step_def keeps_def\<close>)

lemma StartPP_inv: "env_ok n0 (E, e0) \<Longrightarrow> net_inv (StartPP E)"
  unfolding StartPP_def
  by (rule StartGetSPList_inv, assumption)
    (simp_all add: net0_def net_base_def net_fsm_ok_def STATE_INIT_def STATE_REGISTERING_def)

end
