(* ===== verification/Network_Props.thy ===== *)
theory Network_Props
  imports Network
begin

text \<open>
  Properties of the life cycle of a storage node: which events its handlers raise, the states it
  can and cannot reach with them, the jobs that keep it going, and the choice of a new SP.
\<close>

section \<open>The events a handler raises\<close>

primrec raises :: "net_event \<Rightarrow> nat list" where
  "raises (GotSPList ok r t) = [EVENT_GET_SP_LIST]"
| "raises (GotPPStatus ok m) =
     (if ok \<and> ps_result m = Some True then
        [if ps_IsActive m = PP_ACTIVE then EVENT_RCV_RSP_ACTIVATED else EVENT_RCV_STATUS_INACTIVE,
         EVENT_RCV_STATUS_SUSPEND]
      else [EVENT_SP_NO_PP_IN_STORE])"
| "raises (GotRegisterNewPP ok r a) = [EVENT_RCV_RSP_REGISTER_NEW_PP]"
| "raises (ActivatedNotice u r) = (if u \<and> r \<noteq> None then [EVENT_RCV_RSP_ACTIVATED] else [])"
| "raises UnbondingNotice = []"
| "raises DeactivatedNotice = []"
| "raises (GotRegister ok f s r i) = [EVENT_RCV_SUSPENDED_STATE]"
| "raises (GotMining ok r) = [EVENT_RCV_MINING_NOT_STARTED]"
| "raises (GotNodeStatus ok r s) = [EVENT_RCV_SUSPENDED_STATE, EVENT_RCV_RSP_FIRST_NODE_STATUS]"
| "raises (GotStartMaintenance ok r) = [EVENT_MAINTANENCE_START]"
| "raises (GotStopMaintenance ok r) = []"
| "raises StartMiningCommand = [EVENT_START_MINING]"
| "raises ReportTimer = []"
| "raises (SpMeasured c) = []"
| "raises (SpOffline new failed) = [EVENT_CONN_RECONN]"
| "raises (RunTryRegister d) = []"
| "raises (RunTryReload d new failed) = [EVENT_CONN_RECONN]"
| "raises (RunGetSPList d) = []"

text \<open>The messages that activate a node: a status response of an SP that says so, and the notice,
  which is accepted from any peer.\<close>

primrec activates :: "net_event \<Rightarrow> bool" where
  "activates (GotSPList ok r t) = False"
| "activates (GotPPStatus ok m) \<longleftrightarrow> ok \<and> ps_result m = Some True \<and> ps_IsActive m = PP_ACTIVE"
| "activates (GotRegisterNewPP ok r a) = False"
| "activates (ActivatedNotice u r) \<longleftrightarrow> u \<and> r \<noteq> None"
| "activates UnbondingNotice = False"
| "activates DeactivatedNotice = False"
| "activates (GotRegister ok f s r i) = False"
| "activates (GotMining ok r) = False"
| "activates (GotNodeStatus ok r s) = False"
| "activates (GotStartMaintenance ok r) = False"
| "activates (GotStopMaintenance ok r) = False"
| "activates StartMiningCommand = False"
| "activates ReportTimer = False"
| "activates (SpMeasured c) = False"
| "activates (SpOffline new failed) = False"
| "activates (RunTryRegister d) = False"
| "activates (RunTryReload d new failed) = False"
| "activates (RunGetSPList d) = False"

lemma keeps_fsm_mod:
  "(\<And>n. fsm (f n) = fsm n) \<Longrightarrow> keeps (\<lambda>n. P (fsm n)) (mod_m f)"
  by (simp add: keeps_def mod_m_def)

lemmas handler_defs = RspGetSPList_def RspGetPPStatus_def RspRegisterNewPP_def NoticeActivatedPP_def
  NoticeUnbondingPP_def NoticeDeactivatedPP_def RspRegister_def RspMining_def RspReportNodeStatus_def
  RspStartMaintenance_def RspStopMaintenance_def cmd_StartMining_def doReportNodeStatus_def
  reloadConnectSP_def tryReloadConnectSP_def tryRegister_def StartGetSPList_def take_job_def ChangeSp_def
  GetSPList_def RegisterToSP_def StartMining_def AddJobWithInterval_def effect_m_def

text \<open>A handler changes the machine only through the events it raises.\<close>

lemma handle_fsm:
  assumes "\<And>e. e \<in> set (raises ev) \<Longrightarrow> keeps (\<lambda>n. P (fsm n)) (Network_RunFsm E e)"
  shows "keeps (\<lambda>n. P (fsm n)) (handle E ev)"
proof (cases ev)
  case (GotPPStatus ok m)
  then show ?thesis
    using assms
    by (cases "ps_result m")
      (auto simp: handler_defs with_result_def keeps_def mod_m_def when_m_def seq_m_def skip_m_def panic_m_def
        split_def)
next
  case (ActivatedNotice u r)
  then show ?thesis
    using assms
    by (cases r) (auto simp: handler_defs with_result_def keeps_def mod_m_def when_m_def seq_m_def skip_m_def
        panic_m_def split_def)
qed (insert assms, (hypsubst, unfold handle.simps handler_defs Let_def,
    (intro keeps_intros keeps_fsm_mod; simp))+)

lemma run_fsm:
  assumes "\<And>x e. x \<in> set es \<Longrightarrow> e \<in> set (raises (snd x)) \<Longrightarrow>
      keeps (\<lambda>n. P (fsm n)) (Network_RunFsm (fst x) e)"
    and "P (fsm n)"
  shows "P (fsm (foldl net_step n es))"
  using assms
proof (induction es arbitrary: n)
  case (Cons x es)
  have "P (fsm (net_step n x))"
    using handle_fsm [of "snd x" P "fst x"] Cons.prems by (simp add: net_step_def keeps_def)
  with Cons show ?case by simp
qed simp

lemma keeps_table:
  assumes "e < 14" and "\<And>s. s < 10 \<Longrightarrow> Q s \<Longrightarrow> Q (NewState (table_spec s e))"
  shows "keeps (\<lambda>n. (\<lambda>f. stateList f = s_list \<and> eventList f = e_list \<and> StateTransTable f = StateTransTable fsm0 \<and>
    stateId f < 10 \<and> Q (stateId f)) (fsm n)) (Network_RunFsm E e)"
proof -
  have run: "net_fsm_ok (fst (Network_RunFsm E e n))"
    "state_of (fst (Network_RunFsm E e n)) = NewState (table_spec (state_of n) e)"
    if ok: "net_fsm_ok n" for n
  proof -
    let ?n = "n\<lparr>fsm := (fsm n)\<lparr>stateId := NewState (table_spec (state_of n) e)\<rparr>\<rparr>"
    have "net_fsm_ok ?n" using ok table_spec_range [of "state_of n" e] assms(1) by (simp add: net_fsm_ok_def)
    moreover have "fsm (fst (run_action E a m)) = fsm m" for a m
      by (cases a) (auto simp: run_action_def net_m_defs tryRegister_def RegisterToSP_def GetStateFromFsm_def Let_def
          split: go.split)
    ultimately show "net_fsm_ok (fst (Network_RunFsm E e n))"
      "state_of (fst (Network_RunFsm E e n)) = NewState (table_spec (state_of n) e)"
      using Network_RunFsm_ok [OF ok assms(1), of E]
      by (auto simp: Let_def net_fsm_ok_def split: option.split)
  qed
  have "net_fsm_ok (fst (Network_RunFsm E e n)) \<and> Q (state_of (fst (Network_RunFsm E e n)))"
    if "net_fsm_ok n" "Q (state_of n)" for n
    unfolding run(2) [OF that(1)]
    using run(1) [OF that(1)] assms(2) [OF _ that(2)] that(1) by (simp add: net_fsm_ok_def)
  then show ?thesis unfolding keeps_def net_fsm_ok_def by blast
qed

lemma raises_range: "e \<in> set (raises ev) \<Longrightarrow> e < 14 \<and> e \<noteq> EVENT_MAINTANENCE_STOP \<and> e \<noteq> EVENT_RCV_STATE_OFFLINE"
  by (cases ev) (auto simp: event_defs split: if_splits)

lemma raises_activated: "EVENT_RCV_RSP_ACTIVATED \<in> set (raises ev) \<Longrightarrow> activates ev"
  by (cases ev) (auto simp: event_defs split: if_splits)

text \<open>A set of states that all events raised by a run lead back into is not left.\<close>

lemma run_states:
  assumes "net_fsm_ok n" "Q (state_of n)"
    and "\<And>x e s. x \<in> set es \<Longrightarrow> e \<in> set (raises (snd x)) \<Longrightarrow> s < 10 \<Longrightarrow> Q s \<Longrightarrow> Q (NewState (table_spec s e))"
  shows "Q (state_of (foldl net_step n es))"
proof -
  let ?P = "\<lambda>f. stateList f = s_list \<and> eventList f = e_list \<and> StateTransTable f = StateTransTable fsm0 \<and>
    stateId f < 10 \<and> Q (stateId f)"
  have "?P (fsm (foldl net_step n es))"
  proof (rule run_fsm [where P = ?P])
    fix x e assume x: "x \<in> set es" and e: "e \<in> set (raises (snd x))"
    show "keeps (\<lambda>n. ?P (fsm n)) (Network_RunFsm (fst x) e)"
      using keeps_table [of e Q "fst x"] raises_range [OF e] assms(3) [OF x e] by simp
  qed (use assms(1,2) in \<open>simp add: net_fsm_ok_def\<close>)
  then show ?thesis by simp
qed

section \<open>Changes of the SP\<close>

primrec is_change :: "effect \<Rightarrow> bool" where
  "is_change (SendToSP r) = False"
| "is_change (ConfirmOptSP a) = True"
| "is_change CloseSpConn = True"
| "is_change FatalExit = False"

definition responded :: "effect list \<Rightarrow> net_state \<Rightarrow> bool" where
  "responded c n \<longleftrightarrow> nodeStatusResponded n \<and> filter is_change (effects n) = c"

lemma keeps_responded_mod:
  "(\<And>n. nodeStatusResponded n \<Longrightarrow> nodeStatusResponded (f n)) \<Longrightarrow> (\<And>n. effects (f n) = effects n) \<Longrightarrow>
    keeps (responded c) (mod_m f)"
  by (simp add: keeps_def mod_m_def responded_def)

lemma keeps_responded_send: "keeps (responded c) (mod_m (\<lambda>n. n\<lparr>effects := effects n @ [SendToSP r]\<rparr>))"
  by (simp add: keeps_def mod_m_def responded_def)

lemma keeps_responded_exit: "keeps (responded c) (mod_m (\<lambda>n. n\<lparr>effects := effects n @ [FatalExit]\<rparr>))"
  by (simp add: keeps_def mod_m_def responded_def)

lemma keeps_responded_RunFsm: "keeps (responded c) (Network_RunFsm E e)"
  by (auto simp: keeps_def Network_RunFsm_def run_action_def net_m_defs tryRegister_def RegisterToSP_def
      GetStateFromFsm_def Let_def responded_def split: go.split option.split net_action.split)

lemmas responded_intros = keeps_responded_RunFsm keeps_responded_send keeps_responded_exit keeps_responded_mod

lemma handle_responded: "keeps (responded c) (handle E ev)"
proof (cases ev)
  case ReportTimer
  have "keeps (responded c) (mod_m (\<lambda>n. n\<lparr>effects := effects n @ [SendToSP r]\<rparr>))" for r
    by (rule keeps_responded_send)
  then show ?thesis
    by (auto simp: ReportTimer doReportNodeStatus_def keeps_def responded_def net_m_defs GetStateFromFsm_def
        split: go.split)
qed (hypsubst, unfold handle.simps handler_defs Let_def, (intro keeps_intros responded_intros; simp))+

lemma run_responded:
  "nodeStatusResponded n \<Longrightarrow> responded (filter is_change (effects n)) (foldl net_step n es)"
proof (induction es rule: rev_induct)
  case (snoc x es)
  then show ?case
    using handle_responded [of "filter is_change (effects n)" "fst x" "snd x"] by (simp add: keeps_def net_step_def)
qed (simp add: responded_def)

lemma fewer_before:
  fixes f :: "'a \<Rightarrow> 'b::linorder"
  assumes "sorted (map f xs)" "j < length xs"
  shows "length (filter (\<lambda>x. f x < f (xs ! j)) xs) \<le> j"
proof -
  let ?P = "\<lambda>x. f x < f (xs ! j)"
  have "\<not> ?P (xs ! k)" if "j \<le> k" "k < length xs" for k
    using sorted_nth_mono [OF assms(1), of j k] that by simp
  then have "filter ?P (drop j xs) = []"
    by (auto simp: filter_empty_conv in_set_conv_nth)
  moreover have "filter ?P xs = filter ?P (take j xs) @ filter ?P (drop j xs)"
    by (simp flip: filter_append)
  ultimately show ?thesis using length_filter_le [of ?P "take j xs"] assms(2) by simp
qed

section \<open>A concrete node\<close>

definition demo_net :: net_env where
  "demo_net = \<lparr>wallet_signs = True, CheckLogin = True, rand_Intn = (\<lambda>_. 0), spConn = True, GetSpName = ''sp1'',
     sorted_candidates = sort_key SpResponseTimeCost\<rparr>"

definition demo_run :: "(net_env \<times> net_event) list" where
  "demo_run =
     [(demo_net, GotSPList True (Some True) True),
      (demo_net, GotPPStatus True \<lparr>ps_result = Some True, ps_please_register = False, ps_IsActive = PP_ACTIVE,
         ps_suspend = False\<rparr>)]"

definition demo_measured :: net_state where
  "demo_measured = net0\<lparr>candidateSps := [\<lparr>NetworkAddr = ''sp1'', SpResponseTimeCost = 10\<rparr>,
     \<lparr>NetworkAddr = ''sp2'', SpResponseTimeCost = 20\<rparr>]\<rparr>"

lemma demo_env_ok [simp]: "env_ok n (demo_net, e)"
  by (simp add: env_ok_def demo_net_def)

lemma demo_run_ok [simp]: "run_ok net_step env_ok n demo_run"
  by (simp add: demo_run_def)

lemma demo_run_state: "state_of (foldl net_step (StartPP demo_net) demo_run) = STATE_REGISTERING"
  by code_simp

section \<open>Properties\<close>

text \<open>C20: the work of a node never stalls. After any run of handlers and timers from the start, a node
  that is registering has a further attempt scheduled, a node whose SP connection is being rebuilt
  has a further attempt scheduled, and a node that still waits for its first SP list has a further
  request scheduled or has given up by ending the process.\<close>
theorem node_keeps_trying:
  assumes "env_ok net0 (E, ReportTimer)" "run_ok net_step env_ok (StartPP E) es"
    and "n = foldl net_step (StartPP E) es"
  shows "(state_of n = STATE_REGISTERING \<longrightarrow> (\<exists>d. (TryRegister, d) \<in># jobs n)) \<and>
    (reloadConnecting n \<longrightarrow> (\<exists>d. (TryReloadConnectSP, d) \<in># jobs n)) \<and>
    (state_of n = STATE_INIT \<longrightarrow> (\<exists>d. (RetryGetSPList, d) \<in># jobs n) \<or> FatalExit \<in> set (effects n))"
  using net_sys.run_keeps [OF StartPP_inv [OF assms(1)] assms(2)] assms(3)
  by (auto simp: net_inv_def waiting_def)

theorem node_keeps_trying_witness:
  "\<exists>d. (TryRegister, d) \<in># jobs (foldl net_step (StartPP demo_net) demo_run)"
  using node_keeps_trying [of demo_net demo_run, OF _ _ refl] by (simp add: demo_run_state)

text \<open>C24: delays. In every run, all scheduled jobs have their delay in bounds: the register attempts
  between 30 and 300 seconds, the connection attempts 6, 60 or 300 seconds, the requests for the SP
  list at least 60 and less than 70 seconds; the exponential back-off stops at its second step.\<close>
theorem node_delays_bounded:
  assumes "env_ok net0 (E, ReportTimer)" "run_ok net_step env_ok (StartPP E) es"
    and "n = foldl net_step (StartPP E) es"
  shows "(\<forall>x. x \<in># jobs n \<longrightarrow> delay_ok x) \<and> reloadConnectSpRetry n \<le> 2"
  using net_sys.run_keeps [OF StartPP_inv [OF assms(1)] assms(2)] assms(3)
  by (simp add: net_inv_def net_base_def)

theorem node_delays_bounded_witness:
  "set_mset (jobs (foldl net_step (StartPP demo_net) demo_run)) \<subseteq> Collect delay_ok \<and>
    reloadConnectSpRetry (foldl net_step (StartPP demo_net) demo_run) \<le> 2"
  using node_delays_bounded [of demo_net demo_run, OF _ _ refl] by auto

text \<open>C21: a node is past its activation only if it has been told that it is active. When a run leads
  to one of the states in which a node can register, mine, be suspended or be in maintenance, one of
  its messages was a status response with an active status or an activation notice.\<close>
theorem activation_needed:
  assumes "n = foldl net_step (StartPP E) es" "state_of n > STATE_NOT_ACTIVATED"
  shows "list_ex (\<lambda>x. activates (snd x)) es"
proof (rule ccontr)
  assume no: "\<not> list_ex (\<lambda>x. activates (snd x)) es"
  have tab: "list_all (\<lambda>s. list_all (\<lambda>e. e \<noteq> EVENT_RCV_RSP_ACTIVATED \<longrightarrow> s \<le> STATE_NOT_ACTIVATED \<longrightarrow>
      NewState (table_spec s e) \<le> STATE_NOT_ACTIVATED) [0..<14]) [0..<10]"
    by code_simp
  have "net_fsm_ok net0" by (simp add: net0_def net_fsm_ok_def STATE_INIT_def)
  then have st: "fsm (StartPP E) = fsm0"
    by (simp add: StartPP_def StartGetSPList_def GetStateFromFsm_ok net_m_defs GetSPList_def net0_def)
  have "state_of (foldl net_step (StartPP E) es) \<le> STATE_NOT_ACTIVATED"
  proof (rule run_states)
    show "net_fsm_ok (StartPP E)" "state_of (StartPP E) \<le> STATE_NOT_ACTIVATED"
      by (simp_all add: st net_fsm_ok_def state_defs)
  next
    fix x e s assume "x \<in> set es" and e: "e \<in> set (raises (snd x))" and "s < 10" "s \<le> STATE_NOT_ACTIVATED"
    moreover have "e \<noteq> EVENT_RCV_RSP_ACTIVATED"
      using no raises_activated [of "snd x"] \<open>x \<in> set es\<close> e by (auto simp: list_ex_iff)
    ultimately show "NewState (table_spec s e) \<le> STATE_NOT_ACTIVATED"
      using all_entries [OF tab \<open>s < 10\<close> conjunct1 [OF raises_range [OF e]]] by simp
  qed
  with assms show False by simp
qed

theorem activation_needed_witness: "list_ex (\<lambda>x. activates (snd x)) demo_run"
  using activation_needed [OF refl, of demo_net demo_run] by (simp add: demo_run_state state_defs)

text \<open>C22: maintenance is never left. The event that stops maintenance is raised nowhere, and no other
  message, command or timer brings a node in maintenance back to registering and mining.\<close>
theorem maintenance_is_final:
  assumes "net_fsm_ok n" "state_of n = STATE_MAINTANENCE"
  shows "state_of (foldl net_step n es) = STATE_MAINTANENCE"
proof (rule run_states [where Q = "\<lambda>s. s = STATE_MAINTANENCE", OF assms])
  fix x :: "net_env \<times> net_event" and e s :: nat
  assume e: "e \<in> set (raises (snd x))" and s: "s < 10" "s = STATE_MAINTANENCE"
  have tab: "list_all (\<lambda>s. list_all (\<lambda>e. e \<noteq> EVENT_MAINTANENCE_STOP \<longrightarrow> s = STATE_MAINTANENCE \<longrightarrow>
      NewState (table_spec s e) = STATE_MAINTANENCE) [0..<14]) [0..<10]"
    by code_simp
  show "NewState (table_spec s e) = STATE_MAINTANENCE"
    using all_entries [OF tab s(1) conjunct1 [OF raises_range [OF e]]] raises_range [OF e] s(2) by simp
qed

theorem maintenance_is_final_witness:
  "state_of (foldl net_step (net0\<lparr>fsm := fsm0\<lparr>stateId := STATE_MAINTANENCE\<rparr>\<rparr>)
    [(demo_net, GotStopMaintenance True (Some True)), (demo_net, StartMiningCommand)]) = STATE_MAINTANENCE"
  by (rule maintenance_is_final) (simp_all add: net_fsm_ok_def STATE_MAINTANENCE_def)

text \<open>C23: after the first answer to a status report the node no longer looks for another SP, however
  many of its later reports stay unanswered: no later run changes or closes the SP connection for
  lack of answers.\<close>
theorem sp_kept_after_response:
  assumes "nodeStatusResponded n"
  shows "filter is_change (effects (foldl net_step n es)) = filter is_change (effects n)"
  using run_responded [OF assms] by (simp add: responded_def)

theorem sp_kept_after_response_witness:
  "filter is_change (effects (foldl net_step (net0\<lparr>nodeStatusResponded := True\<rparr>)
    (replicate 20 (demo_net, ReportTimer)))) = []"
  using sp_kept_after_response [of "net0\<lparr>nodeStatusResponded := True\<rparr>" "replicate 20 (demo_net, ReportTimer)"]
  by (simp add: net0_def)

text \<open>C25: the SP to which \<open>ChangeSp\<close> moves. With at least two candidates of different addresses the
  node always moves, to a candidate other than the current SP, than which at most three candidates
  answered faster.\<close>
theorem change_sp_choice:
  assumes "env_ok n (E, ReportTimer)" "distinct (map NetworkAddr (candidateSps n))" "2 \<le> length (candidateSps n)"
  shows "\<exists>c \<in> set (candidateSps n). effects (fst (ChangeSp E n)) = effects n @ [ConfirmOptSP (NetworkAddr c)] \<and>
    NetworkAddr c \<noteq> GetSpName E \<and>
    length (filter (\<lambda>x. SpResponseTimeCost x < SpResponseTimeCost c) (candidateSps n)) \<le> 3"
proof -
  let ?cs = "sorted_candidates E (candidateSps n)"
  let ?cost = SpResponseTimeCost
  define k where "k = min 4 (length ?cs)"
  define i where "i = rand_Intn E k"
  define j where "j = (if GetSpName E = NetworkAddr (?cs ! i) then (i + 1) mod k else i)"
  have ms: "mset ?cs = mset (candidateSps n)" and srt: "sorted (map ?cost ?cs)"
    using assms(1) by (simp_all add: env_ok_def)
  have len: "length ?cs = length (candidateSps n)" by (rule mset_eq_length [OF ms])
  then have k: "2 \<le> k" "k \<le> 4" "k \<le> length ?cs" using assms(3) by (simp_all add: k_def)
  have i: "i < k" using assms(1) k(1) by (simp add: env_ok_def i_def)
  have j: "j < k" using i by (simp add: j_def)
  have dist: "distinct (map NetworkAddr ?cs)" by (rule distinct_sorted_candidates [OF assms(1,2)])
  have ne: "NetworkAddr (?cs ! j) \<noteq> GetSpName E"
  proof (cases "GetSpName E = NetworkAddr (?cs ! i)")
    case True
    have "j \<noteq> i" using True i k(1) by (auto simp: j_def mod_if)
    with nth_eq_iff_index_eq [OF dist, of j i] i j k(3) True show ?thesis by simp
  qed (simp add: j_def)
  have "length (filter (\<lambda>x. ?cost x < ?cost (?cs ! j)) ?cs) \<le> 3"
    using fewer_before [OF srt, of j] j k by simp
  then have "length (filter (\<lambda>x. ?cost x < ?cost (?cs ! j)) (candidateSps n)) \<le> 3"
    using arg_cong [OF ms, of "\<lambda>M. size (filter_mset (\<lambda>x. ?cost x < ?cost (?cs ! j)) M)"]
    by (simp flip: mset_filter)
  moreover have "?cs ! j \<in> set (candidateSps n)"
    using nth_mem [of j ?cs] j k(3) mset_eq_setD [OF ms] by simp
  moreover have "effects (fst (ChangeSp E n)) = effects n @ [ConfirmOptSP (NetworkAddr (?cs ! j))]"
  proof -
    have "candidateSps n \<noteq> []" using assms(3) by auto
    then have "ChangeSp E n = seq_m (mod_m (\<lambda>n. n\<lparr>candidateSps := ?cs\<rparr>))
        (when_m (GetSpName E \<noteq> NetworkAddr (?cs ! j)) (effect_m (ConfirmOptSP (NetworkAddr (?cs ! j))))) n"
      by (simp only: ChangeSp_def get_m_def if_False Let_def LatencyCheckTopSpsConsidered_def
          k_def [symmetric] i_def [symmetric] j_def [symmetric])
    with ne show ?thesis by (simp add: net_m_defs)
  qed
  ultimately show ?thesis using ne by blast
qed

theorem change_sp_choice_witness:
  "\<exists>c \<in> set (candidateSps demo_measured).
     effects (fst (ChangeSp demo_net demo_measured)) = effects demo_measured @ [ConfirmOptSP (NetworkAddr c)] \<and>
     NetworkAddr c \<noteq> GetSpName demo_net \<and>
     length (filter (\<lambda>x. SpResponseTimeCost x < SpResponseTimeCost c) (candidateSps demo_measured)) \<le> 3"
  by (rule change_sp_choice) (simp_all add: demo_measured_def)

end
