(* ===== verification/Coins.thy ===== *)
theory Coins
  imports Prelude
begin

text \<open>
  Coins and sets of coins (\<open>tx-client/types/coin.go\<close>). Amounts are arbitrary-precision integers of a
  library that bounds their size: \<open>fits\<close> tells which results it accepts before it panics. Denominations
  are compared byte by byte. \<open>sort.Sort\<close> does not fix the order of coins of equal denomination, so the
  operations that sort take the sorting function as an argument. A \<open>nil\<close> amount is not modelled.
\<close>

section \<open>Single coins\<close>

record Coin =
  Denom :: string
  Amount :: int

text \<open>A character class is written as the list of its ranges.\<close>

definition in_class :: "(char \<times> char) list \<Rightarrow> char \<Rightarrow> bool" where
  "in_class ranges c = list_ex (\<lambda>(lo, hi). lo \<le> c \<and> c \<le> hi) ranges"

definition is_letter :: "char \<Rightarrow> bool" where
  "is_letter = in_class [(CHR ''a'', CHR ''z''), (CHR ''A'', CHR ''Z'')]"

definition is_denom_char :: "char \<Rightarrow> bool" where
  "is_denom_char c \<longleftrightarrow> is_letter c \<or> in_class [(CHR ''0'', CHR ''9'')] c \<or> c \<in> set ''/-''"

text \<open>The regular expression \<open>[a-zA-Z][a-zA-Z0-9/-]{2,127}\<close>, matched against the whole string.\<close>

fun ValidateDenom :: "string \<Rightarrow> bool" where
  "ValidateDenom [] = False"
| "ValidateDenom (c # cs) \<longleftrightarrow> is_letter c \<and> list_all is_denom_char cs \<and> 2 \<le> length cs \<and> length cs \<le> 127"

definition Coin_IsZero :: "Coin \<Rightarrow> bool" where
  "Coin_IsZero c \<longleftrightarrow> Amount c = 0"

definition Coin_IsPositive :: "Coin \<Rightarrow> bool" where
  "Coin_IsPositive c \<longleftrightarrow> 0 < Amount c"

definition Coin_IsNegative :: "Coin \<Rightarrow> bool" where
  "Coin_IsNegative c \<longleftrightarrow> Amount c < 0"

definition Coin_Validate :: "Coin \<Rightarrow> bool" where
  "Coin_Validate c \<longleftrightarrow> ValidateDenom (Denom c) \<and> \<not> Coin_IsNegative c"

definition NewCoin :: "string \<Rightarrow> int \<Rightarrow> Coin go" where
  "NewCoin denom amount =
     (let coin = \<lparr>Denom = denom, Amount = amount\<rparr>
      in if Coin_Validate coin then Ret coin else Panic ''invalid coin'')"

definition same_denom :: "Coin \<Rightarrow> Coin \<Rightarrow> 'a \<Rightarrow> 'a go" where
  "same_denom c d r = (if Denom c \<noteq> Denom d then Panic ''invalid coin denominations'' else Ret r)"

definition Coin_IsGTE :: "Coin \<Rightarrow> Coin \<Rightarrow> bool go" where
  "Coin_IsGTE c d = same_denom c d (\<not> Amount c < Amount d)"

definition Coin_IsLT :: "Coin \<Rightarrow> Coin \<Rightarrow> bool go" where
  "Coin_IsLT c d = same_denom c d (Amount c < Amount d)"

definition Coin_IsEqual :: "Coin \<Rightarrow> Coin \<Rightarrow> bool go" where
  "Coin_IsEqual c d = same_denom c d (Amount c = Amount d)"

definition int_Add :: "(int \<Rightarrow> bool) \<Rightarrow> int \<Rightarrow> int \<Rightarrow> int go" where
  "int_Add fits a b = (if fits (a + b) then Ret (a + b) else Panic ''Int overflow'')"

definition Coin_AddAmount :: "(int \<Rightarrow> bool) \<Rightarrow> Coin \<Rightarrow> int \<Rightarrow> Coin go" where
  "Coin_AddAmount fits c a = go_bind (int_Add fits (Amount c) a) (\<lambda>s. Ret \<lparr>Denom = Denom c, Amount = s\<rparr>)"

definition Coin_Add :: "(int \<Rightarrow> bool) \<Rightarrow> Coin \<Rightarrow> Coin \<Rightarrow> Coin go" where
  "Coin_Add fits c d =
     (if Denom c \<noteq> Denom d then Panic ''invalid coin denominations'' else Coin_AddAmount fits c (Amount d))"

definition Coin_SubAmount :: "(int \<Rightarrow> bool) \<Rightarrow> Coin \<Rightarrow> int \<Rightarrow> Coin go" where
  "Coin_SubAmount fits c a =
     go_bind (int_Add fits (Amount c) (- a)) (\<lambda>s.
       (let res = \<lparr>Denom = Denom c, Amount = s\<rparr>
        in if Coin_IsNegative res then Panic ''negative coin amount'' else Ret res))"

definition Coin_Sub :: "(int \<Rightarrow> bool) \<Rightarrow> Coin \<Rightarrow> Coin \<Rightarrow> Coin go" where
  "Coin_Sub fits c d =
     (if Denom c \<noteq> Denom d then Panic ''invalid coin denominations'' else Coin_SubAmount fits c (Amount d))"

section \<open>Sets of coins\<close>

definition removeZeroCoins :: "Coin list \<Rightarrow> Coin list" where
  "removeZeroCoins coins =
     (if coins \<noteq> [] \<and> list_all (\<lambda>c. \<not> Coin_IsZero c) coins then coins
      else filter (\<lambda>c. \<not> Coin_IsZero c) coins)"

fun Validate_rest :: "string \<Rightarrow> string set \<Rightarrow> Coin list \<Rightarrow> bool" where
  "Validate_rest lowDenom seenDenoms [] = True"
| "Validate_rest lowDenom seenDenoms (c # cs) \<longleftrightarrow>
     Denom c \<notin> seenDenoms \<and> ValidateDenom (Denom c) \<and> \<not> Denom c \<le> lowDenom \<and> Coin_IsPositive c \<and>
     Validate_rest (Denom c) (insert (Denom c) seenDenoms) cs"

fun Coins_Validate :: "Coin list \<Rightarrow> bool" where
  "Coins_Validate [] = True"
| "Coins_Validate (c # cs) \<longleftrightarrow>
     ValidateDenom (Denom c) \<and> Coin_IsPositive c \<and> Validate_rest (Denom c) {Denom c} cs"

fun isSorted :: "Coin list \<Rightarrow> bool" where
  "isSorted (c # d # cs) \<longleftrightarrow> \<not> Denom c > Denom d \<and> isSorted (d # cs)"
| "isSorted cs = True"

definition sanitizeCoins :: "(Coin list \<Rightarrow> Coin list) \<Rightarrow> Coin list \<Rightarrow> Coin list" where
  "sanitizeCoins srt coins =
     (let newCoins = removeZeroCoins coins in if newCoins = [] then [] else srt newCoins)"

definition NewCoins :: "(Coin list \<Rightarrow> Coin list) \<Rightarrow> Coin list \<Rightarrow> Coin list go" where
  "NewCoins srt coins =
     (let newCoins = sanitizeCoins srt coins
      in if Coins_Validate newCoins then Ret newCoins else Panic ''invalid coin set'')"

text \<open>The main loop of \<open>safeAdd\<close>, on what remains of both sets.\<close>

fun safeAdd_loop :: "(int \<Rightarrow> bool) \<Rightarrow> Coin list \<Rightarrow> Coin list \<Rightarrow> Coin list \<Rightarrow> Coin list go" where
  "safeAdd_loop fits acc [] [] = Ret acc"
| "safeAdd_loop fits acc [] (b # bs) = Ret (acc @ removeZeroCoins (b # bs))"
| "safeAdd_loop fits acc (a # as) [] = Ret (acc @ removeZeroCoins (a # as))"
| "safeAdd_loop fits acc (a # as) (b # bs) =
     (if Denom a < Denom b then
        safeAdd_loop fits (if \<not> Coin_IsZero a then acc @ [a] else acc) as (b # bs)
      else if Denom a = Denom b then
        go_bind (Coin_Add fits a b) (\<lambda>res.
          safeAdd_loop fits (if \<not> Coin_IsZero res then acc @ [res] else acc) as bs)
      else
        safeAdd_loop fits (if \<not> Coin_IsZero b then acc @ [b] else acc) (a # as) bs)"

definition safeAdd :: "(int \<Rightarrow> bool) \<Rightarrow> Coin list \<Rightarrow> Coin list \<Rightarrow> Coin list go" where
  "safeAdd fits coins coinsB =
     (if \<not> isSorted coins then Panic ''Coins (self) must be sorted''
      else if \<not> isSorted coinsB then Panic ''Wrong argument: coins must be sorted''
      else safeAdd_loop fits [] coins coinsB)"

definition Coins_Add :: "(int \<Rightarrow> bool) \<Rightarrow> Coin list \<Rightarrow> Coin list \<Rightarrow> Coin list go" where
  "Coins_Add fits coins coinsB = safeAdd fits coins coinsB"

definition negative :: "Coin list \<Rightarrow> Coin list" where
  "negative coins = map (\<lambda>c. \<lparr>Denom = Denom c, Amount = - Amount c\<rparr>) coins"

definition IsAnyNegative :: "Coin list \<Rightarrow> bool" where
  "IsAnyNegative coins \<longleftrightarrow> list_ex Coin_IsNegative coins"

definition SafeSub :: "(int \<Rightarrow> bool) \<Rightarrow> Coin list \<Rightarrow> Coin list \<Rightarrow> (Coin list \<times> bool) go" where
  "SafeSub fits coins coinsB =
     go_bind (safeAdd fits coins (negative coinsB)) (\<lambda>diff. Ret (diff, IsAnyNegative diff))"

definition Coins_Sub :: "(int \<Rightarrow> bool) \<Rightarrow> Coin list \<Rightarrow> Coin list \<Rightarrow> Coin list go" where
  "Coins_Sub fits coins coinsB =
     go_bind (SafeSub fits coins coinsB) (\<lambda>(diff, hasNeg).
       if hasNeg then Panic ''negative coin amount'' else Ret diff)"

text \<open>Binary search on the middle coin.\<close>

function AmountOfNoDenomValidation :: "Coin list \<Rightarrow> string \<Rightarrow> int" where
  "AmountOfNoDenomValidation coins denom =
     (if coins = [] then 0
      else if length coins = 1 then
        (let coin = coins ! 0 in if Denom coin = denom then Amount coin else 0)
      else
        (let midIdx = length coins div 2;
             coin = coins ! midIdx
         in if denom < Denom coin then AmountOfNoDenomValidation (take midIdx coins) denom
            else if denom = Denom coin then Amount coin
            else AmountOfNoDenomValidation (drop (midIdx + 1) coins) denom))"
  by pat_completeness auto
termination
proof (relation "measure (\<lambda>(coins, denom). length coins)")
  fix coins :: "Coin list" and denom :: string and midIdx coin
  assume "coins \<noteq> []" "midIdx = length coins div 2"
  then show "((drop (midIdx + 1) coins, denom), coins, denom) \<in> measure (\<lambda>(coins, denom). length coins)"
    by (cases coins) auto
next
  fix coins :: "Coin list" and denom :: string and midIdx coin
  assume "coins \<noteq> []" "midIdx = length coins div 2"
  then have "midIdx < length coins" by (cases coins) auto
  then show "((take midIdx coins, denom), coins, denom) \<in> measure (\<lambda>(coins, denom). length coins)"
    by simp
qed simp

declare AmountOfNoDenomValidation.simps [simp del]

definition AmountOf :: "Coin list \<Rightarrow> string \<Rightarrow> int go" where
  "AmountOf coins denom =
     (if ValidateDenom denom then Ret (AmountOfNoDenomValidation coins denom) else Panic ''invalid denom'')"

text \<open>Loops that test every coin and return at the first that decides.\<close>

fun all_go :: "(Coin \<Rightarrow> bool go) \<Rightarrow> Coin list \<Rightarrow> bool go" where
  "all_go p [] = Ret True"
| "all_go p (c # cs) = go_bind (p c) (\<lambda>b. if b then all_go p cs else Ret False)"

fun any_go :: "(Coin \<Rightarrow> bool go) \<Rightarrow> Coin list \<Rightarrow> bool go" where
  "any_go p [] = Ret False"
| "any_go p (c # cs) = go_bind (p c) (\<lambda>b. if b then Ret True else any_go p cs)"

definition DenomsSubsetOf :: "Coin list \<Rightarrow> Coin list \<Rightarrow> bool go" where
  "DenomsSubsetOf coins coinsB =
     (if length coins > length coinsB then Ret False
      else all_go (\<lambda>c. go_bind (AmountOf coinsB (Denom c)) (\<lambda>a. Ret (a \<noteq> 0))) coins)"

definition IsAllGT :: "Coin list \<Rightarrow> Coin list \<Rightarrow> bool go" where
  "IsAllGT coins coinsB =
     (if coins = [] then Ret False
      else if coinsB = [] then Ret True
      else go_bind (DenomsSubsetOf coinsB coins) (\<lambda>sub.
        if \<not> sub then Ret False
        else all_go (\<lambda>b. go_bind (AmountOf coins (Denom b)) (\<lambda>a. Ret (a > Amount b))) coinsB))"

definition IsAllGTE :: "Coin list \<Rightarrow> Coin list \<Rightarrow> bool go" where
  "IsAllGTE coins coinsB =
     (if coinsB = [] then Ret True
      else if coins = [] then Ret False
      else all_go (\<lambda>b. go_bind (AmountOf coins (Denom b)) (\<lambda>a. Ret (\<not> Amount b > a))) coinsB)"

definition IsAllLT :: "Coin list \<Rightarrow> Coin list \<Rightarrow> bool go" where
  "IsAllLT coins coinsB = IsAllGT coinsB coins"

definition IsAllLTE :: "Coin list \<Rightarrow> Coin list \<Rightarrow> bool go" where
  "IsAllLTE coins coinsB = IsAllGTE coinsB coins"

definition IsAnyGT :: "Coin list \<Rightarrow> Coin list \<Rightarrow> bool go" where
  "IsAnyGT coins coinsB =
     (if coinsB = [] then Ret False
      else any_go (\<lambda>c. go_bind (AmountOf coinsB (Denom c)) (\<lambda>amt. Ret (Amount c > amt \<and> amt \<noteq> 0))) coins)"

definition IsAnyGTE :: "Coin list \<Rightarrow> Coin list \<Rightarrow> bool go" where
  "IsAnyGTE coins coinsB =
     (if coinsB = [] then Ret False
      else any_go (\<lambda>c. go_bind (AmountOf coinsB (Denom c)) (\<lambda>amt. Ret (Amount c \<ge> amt \<and> amt \<noteq> 0))) coins)"

definition Coins_IsZero :: "Coin list \<Rightarrow> bool" where
  "Coins_IsZero coins \<longleftrightarrow> list_all Coin_IsZero coins"

definition IsAllPositive :: "Coin list \<Rightarrow> bool" where
  "IsAllPositive coins \<longleftrightarrow> coins \<noteq> [] \<and> list_all Coin_IsPositive coins"

fun equal_loop :: "Coin list \<Rightarrow> Coin list \<Rightarrow> bool go" where
  "equal_loop (a # as) (b # bs) = go_bind (Coin_IsEqual a b) (\<lambda>e. if e then equal_loop as bs else Ret False)"
| "equal_loop as bs = Ret True"

definition Coins_IsEqual :: "(Coin list \<Rightarrow> Coin list) \<Rightarrow> Coin list \<Rightarrow> Coin list \<Rightarrow> bool go" where
  "Coins_IsEqual srt coins coinsB =
     (if length coins \<noteq> length coinsB then Ret False else equal_loop (srt coins) (srt coinsB))"

fun max_loop :: "Coin list \<Rightarrow> Coin list \<Rightarrow> Coin list \<Rightarrow> Coin list" where
  "max_loop acc (a # as) (b # bs) =
     (if Denom a < Denom b then max_loop (acc @ [a]) as (b # bs)
      else if Denom a = Denom b then max_loop (acc @ [if Amount b > Amount a then b else a]) as bs
      else max_loop (acc @ [b]) (a # as) bs)"
| "max_loop acc as bs = acc @ as @ bs"

definition Coins_Max :: "(Coin list \<Rightarrow> Coin list) \<Rightarrow> Coin list \<Rightarrow> Coin list \<Rightarrow> Coin list go" where
  "Coins_Max srt coins coinsB = NewCoins srt (max_loop [] coins coinsB)"

fun min_loop :: "Coin list \<Rightarrow> Coin list \<Rightarrow> Coin list \<Rightarrow> Coin list" where
  "min_loop acc (a # as) (b # bs) =
     (if Denom a < Denom b then min_loop acc as (b # bs)
      else if Denom a = Denom b then
        (let c = (if Amount b < Amount a then b else a)
         in min_loop (if \<not> Coin_IsZero c then acc @ [c] else acc) as bs)
      else min_loop acc (a # as) bs)"
| "min_loop acc as bs = acc"

definition Coins_Min :: "(Coin list \<Rightarrow> Coin list) \<Rightarrow> Coin list \<Rightarrow> Coin list \<Rightarrow> Coin list go" where
  "Coins_Min srt coins coinsB = NewCoins srt (min_loop [] coins coinsB)"

end
