(* ===== verification/Coins_Props.thy ===== *)
theory Coins_Props
  imports Coins
begin

text \<open>
  What the operations on sets of coins compute. A set of coins stands for the function that maps
  each denomination to its amount; valid sets are in one-to-one correspondence with the functions
  of finite support whose values are positive and whose denominations are valid, and the operations
  are the pointwise ones.
\<close>

section \<open>The amounts of a set of coins\<close>

definition amt :: "Coin list \<Rightarrow> string \<Rightarrow> int" where
  "amt cs d = sum_list (map Amount (filter (\<lambda>c. Denom c = d) cs))"

definition strict :: "Coin list \<Rightarrow> bool" where
  "strict cs \<longleftrightarrow> sorted_wrt (<) (map Denom cs)"

definition reduced :: "Coin list \<Rightarrow> bool" where
  "reduced cs \<longleftrightarrow> list_all (\<lambda>c. Amount c \<noteq> 0) cs"

lemma amt_Nil [simp]: "amt [] d = 0"
  and amt_Cons [simp]: "amt (c # cs) d = (if Denom c = d then Amount c else 0) + amt cs d"
  and amt_append [simp]: "amt (xs @ ys) d = amt xs d + amt ys d"
  by (simp_all add: amt_def)

lemma amt_absent: "d \<notin> Denom ` set cs \<Longrightarrow> amt cs d = 0"
  by (induction cs) auto

lemma strict_simps [simp]:
  "strict []" "strict (c # cs) \<longleftrightarrow> (\<forall>x \<in> set cs. Denom c < Denom x) \<and> strict cs"
  by (simp_all add: strict_def)

lemma strict_append:
  "strict (xs @ ys) \<longleftrightarrow> strict xs \<and> strict ys \<and> (\<forall>x \<in> set xs. \<forall>y \<in> set ys. Denom x < Denom y)"
  by (auto simp: strict_def sorted_wrt_append)

lemma reduced_simps [simp]:
  "reduced []" "reduced (c # cs) \<longleftrightarrow> Amount c \<noteq> 0 \<and> reduced cs" "reduced (xs @ ys) \<longleftrightarrow> reduced xs \<and> reduced ys"
  by (simp_all add: reduced_def)

lemma amt_member: "strict cs \<Longrightarrow> c \<in> set cs \<Longrightarrow> amt cs (Denom c) = Amount c"
proof (induction cs)
  case (Cons x cs)
  have "Denom x \<notin> Denom ` set cs" using Cons.prems(1) by auto
  with Cons show ?case by (cases "c = x") (auto simp: amt_absent)
qed simp

lemma amt_support: "strict cs \<Longrightarrow> reduced cs \<Longrightarrow> set (map Denom cs) = {d. amt cs d \<noteq> 0}"
  using amt_member amt_absent by (fastforce simp: reduced_def list_all_iff)

text \<open>The amounts determine a strictly sorted set without zero coins.\<close>

lemma amt_unique:
  assumes "strict xs" "reduced xs" "strict ys" "reduced ys" "\<And>d. amt xs d = amt ys d"
  shows "xs = ys"
proof -
  have eq: "map Denom xs = map Denom ys"
  proof (rule sorted_distinct_set_unique)
    show "set (map Denom xs) = set (map Denom ys)" using assms amt_support by simp
  qed (use assms(1,3) in \<open>auto simp: strict_def strict_sorted_iff\<close>)
  have coins: "cs = map (\<lambda>d. \<lparr>Denom = d, Amount = amt cs d\<rparr>) (map Denom cs)" if "strict cs" for cs
    using amt_member [OF that] by (auto simp: comp_def intro!: map_idI [symmetric])
  have "xs = map (\<lambda>d. \<lparr>Denom = d, Amount = amt xs d\<rparr>) (map Denom xs)" by (rule coins [OF assms(1)])
  also have "\<dots> = map (\<lambda>d. \<lparr>Denom = d, Amount = amt ys d\<rparr>) (map Denom ys)" by (simp add: assms(5) eq)
  also have "\<dots> = ys" by (rule coins [OF assms(3), symmetric])
  finally show ?thesis .
qed

section \<open>Validity\<close>

lemma Validate_rest_iff:
  "seen \<subseteq> {d. d \<le> low} \<Longrightarrow> Validate_rest low seen cs \<longleftrightarrow>
     strict cs \<and> (\<forall>c \<in> set cs. low < Denom c \<and> ValidateDenom (Denom c) \<and> 0 < Amount c)"
proof (induction low seen cs rule: Validate_rest.induct)
  case (2 low seen c cs)
  show ?case
  proof (cases "low < Denom c")
    case True
    have "insert (Denom c) seen \<subseteq> {d. d \<le> Denom c}" using 2(2) True by auto
    moreover have "Denom c \<notin> seen" using 2(2) True by auto
    ultimately show ?thesis
      using 2 True by (auto simp: Coin_IsPositive_def not_le dest: less_trans)
  qed (auto simp: not_less)
qed simp

lemma Coins_Validate_iff:
  "Coins_Validate cs \<longleftrightarrow> strict cs \<and> (\<forall>c \<in> set cs. ValidateDenom (Denom c) \<and> 0 < Amount c)"
  by (cases cs) (auto simp: Validate_rest_iff Coin_IsPositive_def)

lemma ValidD:
  assumes "Coins_Validate cs"
  shows "strict cs" "reduced cs" "0 \<le> amt cs d" "amt cs d \<noteq> 0 \<Longrightarrow> ValidateDenom d"
    and "c \<in> set cs \<Longrightarrow> ValidateDenom (Denom c)"
proof -
  have *: "strict cs" "\<forall>c \<in> set cs. ValidateDenom (Denom c) \<and> 0 < Amount c"
    using assms by (simp_all add: Coins_Validate_iff)
  then show "strict cs" "reduced cs" "c \<in> set cs \<Longrightarrow> ValidateDenom (Denom c)"
    by (auto simp: reduced_def list_all_iff)
  show "0 \<le> amt cs d" using *(2) by (induction cs) auto
  show "amt cs d \<noteq> 0 \<Longrightarrow> ValidateDenom d" using *(2) amt_absent [of d cs] by auto
qed

lemma ValidI:
  assumes "strict cs" "reduced cs" "\<And>d. 0 \<le> amt cs d" "\<And>d. amt cs d \<noteq> 0 \<Longrightarrow> ValidateDenom d"
  shows "Coins_Validate cs"
proof -
  have "0 < Amount c \<and> ValidateDenom (Denom c)" if "c \<in> set cs" for c
    using amt_member [OF assms(1) that] assms(3) [of "Denom c"] assms(4) [of "Denom c"] assms(2) that
    by (auto simp: reduced_def list_all_iff order_less_le)
  with assms(1) show ?thesis by (simp add: Coins_Validate_iff)
qed

lemma isSorted_strict: "strict cs \<Longrightarrow> isSorted cs"
  by (induction cs rule: isSorted.induct) auto

lemma removeZeroCoins_filter: "removeZeroCoins cs = filter (\<lambda>c. Amount c \<noteq> 0) cs"
  by (auto simp: removeZeroCoins_def Coin_IsZero_def list_all_iff filter_id_conv)

lemma removeZeroCoins_props:
  "amt (removeZeroCoins cs) d = amt cs d" "reduced (removeZeroCoins cs)"
  "strict cs \<Longrightarrow> strict (removeZeroCoins cs)" "set (removeZeroCoins cs) \<subseteq> set cs"
  by (induction cs) (auto simp: removeZeroCoins_filter)

section \<open>Addition and subtraction\<close>

fun coin_merge :: "Coin list \<Rightarrow> Coin list \<Rightarrow> Coin list" where
  "coin_merge [] bs = removeZeroCoins bs"
| "coin_merge (a # as) [] = removeZeroCoins (a # as)"
| "coin_merge (a # as) (b # bs) =
     (if Denom a < Denom b then (if Amount a = 0 then [] else [a]) @ coin_merge as (b # bs)
      else if Denom a = Denom b then
        (if Amount a + Amount b = 0 then [] else [\<lparr>Denom = Denom a, Amount = Amount a + Amount b\<rparr>]) @ coin_merge as bs
      else (if Amount b = 0 then [] else [b]) @ coin_merge (a # as) bs)"

definition sums_fit :: "(int \<Rightarrow> bool) \<Rightarrow> Coin list \<Rightarrow> Coin list \<Rightarrow> bool" where
  "sums_fit fits as bs \<longleftrightarrow>
     list_all (\<lambda>a. list_all (\<lambda>b. Denom a = Denom b \<longrightarrow> fits (Amount a + Amount b)) bs) as"

lemma sums_fit_simps [simp]:
  "sums_fit fits [] bs" "sums_fit fits as []"
  "sums_fit fits (a # as) (b # bs) \<longleftrightarrow> (Denom a = Denom b \<longrightarrow> fits (Amount a + Amount b)) \<and>
     sums_fit fits [a] bs \<and> sums_fit fits as [b] \<and> sums_fit fits as bs"
  by (auto simp: sums_fit_def list_all_iff)

lemma sums_fit_tail:
  "sums_fit fits (a # as) bs \<Longrightarrow> sums_fit fits as bs"
  "sums_fit fits as (b # bs) \<Longrightarrow> sums_fit fits as bs"
  by (auto simp: sums_fit_def list_all_iff)

lemma safeAdd_loop_merge:
  "sums_fit fits as bs \<Longrightarrow> safeAdd_loop fits acc as bs = Ret (acc @ coin_merge as bs)"
proof (induction fits acc as bs rule: safeAdd_loop.induct)
  case (1 fits acc)
  then show ?case by (simp add: removeZeroCoins_filter)
next
  case (4 fits acc a as b bs)
  note fit = sums_fit_tail [OF 4(4)]
  have "Denom a = Denom b \<Longrightarrow> fits (Amount a + Amount b)" using 4(4) by simp
  then show ?case
    using 4(1) [OF _ fit(1)] 4(2) [OF _ _ sums_fit_tail(2) [OF fit(1)]] 4(3) [OF _ _ fit(2)]
    by (simp add: Coin_Add_def Coin_AddAmount_def int_Add_def Coin_IsZero_def)
qed simp_all

lemma amt_coin_merge: "amt (coin_merge as bs) d = amt as d + amt bs d"
  by (induction as bs rule: coin_merge.induct) (auto simp: removeZeroCoins_props)

lemma reduced_coin_merge: "reduced (coin_merge as bs)"
  by (induction as bs rule: coin_merge.induct) (auto simp: removeZeroCoins_props)

lemma above_coin_merge:
  "(\<And>u. u \<in> set as \<union> set bs \<Longrightarrow> d < Denom u) \<Longrightarrow> x \<in> set (coin_merge as bs) \<Longrightarrow> d < Denom x"
proof (induction as bs rule: coin_merge.induct)
  case (1 bs)
  then show ?case using removeZeroCoins_props(4) by auto
next
  case (2 a as)
  then show ?case using removeZeroCoins_props(4) [of "a # as"] by auto
next
  case (3 a as b bs)
  then show ?case by (auto split: if_splits)
qed

lemma strict_coin_merge: "strict as \<Longrightarrow> strict bs \<Longrightarrow> strict (coin_merge as bs)"
proof (induction as bs rule: coin_merge.induct)
  case (3 a as b bs)
  show ?case
  proof (cases "Denom a" "Denom b" rule: linorder_cases)
    case less
    have "Denom a < Denom x" if "x \<in> set (coin_merge as (b # bs))" for x
      by (rule above_coin_merge [OF _ that]) (use 3(4,5) less in \<open>auto dest: less_trans\<close>)
    with less 3 show ?thesis by (auto simp: strict_append)
  next
    case equal
    have "Denom a < Denom x" if "x \<in> set (coin_merge as bs)" for x
      by (rule above_coin_merge [OF _ that]) (use 3(4,5) equal in auto)
    with equal 3 show ?thesis by (auto simp: strict_append)
  next
    case greater
    have "Denom b < Denom x" if "x \<in> set (coin_merge (a # as) bs)" for x
      by (rule above_coin_merge [OF _ that]) (use 3(4,5) greater in \<open>auto dest: less_trans\<close>)
    with greater 3 show ?thesis by (auto simp: strict_append)
  qed
qed (simp_all add: removeZeroCoins_props)

lemma sums_fit_amt:
  assumes "strict as" "strict bs" "\<And>d. fits (amt as d + amt bs d)"
  shows "sums_fit fits as bs"
  using assms(3) amt_member [OF assms(1)] amt_member [OF assms(2)]
  by (auto simp: sums_fit_def list_all_iff) (metis)

text \<open>Addition of strictly sorted sets, of any sign.\<close>

lemma safeAdd_strict:
  assumes "strict as" "strict bs" "\<And>d. fits (amt as d + amt bs d)"
  shows "safeAdd fits as bs = Ret (coin_merge as bs)"
  using safeAdd_loop_merge [OF sums_fit_amt [of as bs fits]] assms
  by (simp add: safeAdd_def isSorted_strict)

lemma negative_props:
  "amt (negative cs) d = - amt cs d" "strict (negative cs) = strict cs"
  by (induction cs) (auto simp: negative_def)

lemma IsAnyNegative_iff:
  assumes "strict cs"
  shows "IsAnyNegative cs \<longleftrightarrow> (\<exists>d. amt cs d < 0)"
proof
  assume "IsAnyNegative cs"
  then obtain c where "c \<in> set cs" "Amount c < 0" by (auto simp: IsAnyNegative_def list_ex_iff Coin_IsNegative_def)
  with amt_member [OF assms] show "\<exists>d. amt cs d < 0" by metis
next
  assume "\<exists>d. amt cs d < 0"
  then obtain d where d: "amt cs d < 0" ..
  then obtain c where "c \<in> set cs" "Denom c = d" using amt_absent [of d cs] by force
  with d amt_member [OF assms] show "IsAnyNegative cs"
    by (auto simp: IsAnyNegative_def list_ex_iff Coin_IsNegative_def)
qed

lemma Coins_Sub_strict:
  assumes "strict as" "strict bs" "\<And>d. fits (amt as d - amt bs d)"
  shows "Coins_Sub fits as bs =
    (if \<exists>d. amt as d < amt bs d then Panic ''negative coin amount'' else Ret (coin_merge as (negative bs)))"
proof -
  have "safeAdd fits as (negative bs) = Ret (coin_merge as (negative bs))"
    by (rule safeAdd_strict) (simp_all add: assms negative_props)
  moreover have "strict (coin_merge as (negative bs))"
    by (rule strict_coin_merge) (simp_all add: assms negative_props)
  ultimately show ?thesis
    by (auto simp: Coins_Sub_def SafeSub_def IsAnyNegative_iff amt_coin_merge negative_props)
qed

section \<open>Lookup and comparison\<close>

lemma AmountOf_amt: "strict cs \<Longrightarrow> AmountOfNoDenomValidation cs d = amt cs d"
proof (induction cs d rule: AmountOfNoDenomValidation.induct)
  case (1 cs d)
  show ?case
  proof (cases "2 \<le> length cs")
    case True
    let ?m = "length cs div 2"
    have m: "?m < length cs" using True by linarith
    note split = id_take_nth_drop [OF m]
    have s: "strict (take ?m cs @ cs ! ?m # drop (Suc ?m) cs)" using 1(3) split by simp
    have lo: "x \<in> set (take ?m cs) \<Longrightarrow> Denom x < Denom (cs ! ?m)"
      and hi: "x \<in> set (drop (Suc ?m) cs) \<Longrightarrow> Denom (cs ! ?m) < Denom x" for x
      using s by (auto simp: strict_append)
    have amt: "amt cs d = amt (take ?m cs) d + ((if Denom (cs ! ?m) = d then Amount (cs ! ?m) else 0) +
        amt (drop (Suc ?m) cs) d)"
      using arg_cong [OF split, of "\<lambda>xs. amt xs d"] by simp
    have ne: "cs \<noteq> []" "length cs \<noteq> 1" using True by auto
    note IH = 1(1) [OF ne refl refl] 1(2) [OF ne refl refl]
    have st: "strict (take ?m cs)" "strict (drop (Suc ?m) cs)" using s by (simp_all add: strict_append)
    show ?thesis
    proof (cases d "Denom (cs ! ?m)" rule: linorder_cases)
      case less
      then have "amt (drop (Suc ?m) cs) d = 0" using hi by (intro amt_absent) force
      moreover have "Denom (cs ! ?m) \<noteq> d" using less by auto
      ultimately show ?thesis using less IH(1) [OF less st(1)] amt ne
        by (subst AmountOfNoDenomValidation.simps) (simp add: Let_def)
    next
      case equal
      then have "amt (drop (Suc ?m) cs) d = 0" "amt (take ?m cs) d = 0"
        by (auto intro!: amt_absent dest!: hi lo)
      with equal amt ne show ?thesis
        by (subst AmountOfNoDenomValidation.simps) (simp add: Let_def)
    next
      case greater
      then have "amt (take ?m cs) d = 0" using lo by (intro amt_absent) force
      moreover have g: "\<not> d < Denom (cs ! ?m)" "d \<noteq> Denom (cs ! ?m)" using greater by auto
      moreover have "AmountOfNoDenomValidation (drop (?m + 1) cs) d = amt (drop (Suc ?m) cs) d"
        using IH(2) [OF g] st(2) by simp
      moreover have "Denom (cs ! ?m) \<noteq> d" using greater by auto
      ultimately show ?thesis using amt ne
        by (subst AmountOfNoDenomValidation.simps) (simp add: Let_def)
    qed
  next
    case False
    then consider "cs = []" | c where "cs = [c]" by (cases cs) (auto simp: Suc_le_eq)
    then show ?thesis
      by cases (subst AmountOfNoDenomValidation.simps, simp)+
  qed
qed

lemma all_go_Ret:
  "(\<And>c. c \<in> set cs \<Longrightarrow> p c = Ret (q c)) \<Longrightarrow> all_go p cs = Ret (\<forall>c \<in> set cs. q c)"
  by (induction cs) auto

lemma any_go_Ret:
  "(\<And>c. c \<in> set cs \<Longrightarrow> p c = Ret (q c)) \<Longrightarrow> any_go p cs = Ret (\<exists>c \<in> set cs. q c)"
  by (induction cs) auto

lemma AmountOf_valid:
  "Coins_Validate cs \<Longrightarrow> ValidateDenom d \<Longrightarrow> AmountOf cs d = Ret (amt cs d)"
  by (simp add: AmountOf_def AmountOf_amt ValidD)

text \<open>Statements about all coins of a valid set are statements about all denominations of positive amount.\<close>

lemma valid_coins_all:
  "Coins_Validate cs \<Longrightarrow> (\<forall>c \<in> set cs. P (Denom c) (Amount c)) \<longleftrightarrow> (\<forall>d. 0 < amt cs d \<longrightarrow> P d (amt cs d))"
  and valid_coins_any:
  "Coins_Validate cs \<Longrightarrow> (\<exists>c \<in> set cs. P (Denom c) (Amount c)) \<longleftrightarrow> (\<exists>d. 0 < amt cs d \<and> P d (amt cs d))"
proof -
  assume v: "Coins_Validate cs"
  note st = ValidD(1) [OF v]
  have pos: "0 < Amount c" if "c \<in> set cs" for c using v that by (simp add: Coins_Validate_iff)
  have ex: "\<exists>c \<in> set cs. Denom c = d \<and> Amount c = amt cs d" if "0 < amt cs d" for d
    using that amt_absent [of d cs] amt_member [OF st] by force
  show "(\<forall>c \<in> set cs. P (Denom c) (Amount c)) \<longleftrightarrow> (\<forall>d. 0 < amt cs d \<longrightarrow> P d (amt cs d))"
    using pos ex amt_member [OF st] by metis
  show "(\<exists>c \<in> set cs. P (Denom c) (Amount c)) \<longleftrightarrow> (\<exists>d. 0 < amt cs d \<and> P d (amt cs d))"
    using pos ex amt_member [OF st] by metis
qed

lemma valid_empty: "Coins_Validate cs \<Longrightarrow> cs = [] \<longleftrightarrow> (\<forall>d. amt cs d = 0)"
  using amt_unique [of cs "[]"] ValidD(1,2) [of cs] by auto

lemma IsAllGTE_amt:
  assumes "Coins_Validate a" "Coins_Validate b"
  shows "IsAllGTE a b = Ret (\<forall>d. amt b d \<le> amt a d)"
proof -
  have "all_go (\<lambda>c. go_bind (AmountOf a (Denom c)) (\<lambda>x. Ret (\<not> Amount c > x))) b =
      Ret (\<forall>c \<in> set b. \<not> Amount c > amt a (Denom c))"
    by (rule all_go_Ret) (simp add: AmountOf_valid assms(1) ValidD(5) [OF assms(2)])
  also have "(\<forall>c \<in> set b. \<not> Amount c > amt a (Denom c)) \<longleftrightarrow> (\<forall>d. amt b d \<le> amt a d)"
    unfolding valid_coins_all [OF assms(2), of "\<lambda>d x. \<not> x > amt a d"]
    using ValidD(3) [OF assms(1)] by (metis linorder_not_le order.trans)
  finally have *: "all_go (\<lambda>c. go_bind (AmountOf a (Denom c)) (\<lambda>x. Ret (\<not> Amount c > x))) b =
      Ret (\<forall>d. amt b d \<le> amt a d)" .
  show ?thesis
  proof (cases "b = [] \<or> a \<noteq> []")
    case True
    then show ?thesis using * ValidD(3) [OF assms(1)] by (auto simp: IsAllGTE_def)
  next
    case False
    then have "\<exists>d. \<not> amt b d \<le> amt a d"
      using valid_empty [OF assms(2)] ValidD(3) [OF assms(2)] by (metis amt_Nil order.antisym)
    with False show ?thesis by (auto simp: IsAllGTE_def)
  qed
qed

lemma IsAny_amt:
  assumes "Coins_Validate a" "Coins_Validate b"
  shows "IsAnyGT a b = Ret (\<exists>d. 0 < amt b d \<and> amt b d < amt a d)"
    and "IsAnyGTE a b = Ret (\<exists>d. 0 < amt b d \<and> amt b d \<le> amt a d)"
proof -
  have any: "any_go (\<lambda>c. go_bind (AmountOf b (Denom c)) (\<lambda>x. Ret (R (Amount c) x \<and> x \<noteq> 0))) a =
      Ret (\<exists>d. 0 < amt b d \<and> R (amt a d) (amt b d))" if "\<And>x y. 0 < y \<Longrightarrow> R x y \<Longrightarrow> (0::int) < x" for R
  proof -
    have "any_go (\<lambda>c. go_bind (AmountOf b (Denom c)) (\<lambda>x. Ret (R (Amount c) x \<and> x \<noteq> 0))) a =
        Ret (\<exists>c \<in> set a. R (Amount c) (amt b (Denom c)) \<and> amt b (Denom c) \<noteq> 0)"
      by (rule any_go_Ret) (simp add: AmountOf_valid assms(2) ValidD(5) [OF assms(1)])
    also have "(\<exists>c \<in> set a. R (Amount c) (amt b (Denom c)) \<and> amt b (Denom c) \<noteq> 0) \<longleftrightarrow>
        (\<exists>d. 0 < amt b d \<and> R (amt a d) (amt b d))"
      unfolding valid_coins_any [OF assms(1), of "\<lambda>d x. R x (amt b d) \<and> amt b d \<noteq> 0"]
      using ValidD(3) [OF assms(2)] that by (metis order_less_le)
    finally show ?thesis .
  qed
  show "IsAnyGT a b = Ret (\<exists>d. 0 < amt b d \<and> amt b d < amt a d)"
    using any [of "(>)"] by (auto simp: IsAnyGT_def)
  show "IsAnyGTE a b = Ret (\<exists>d. 0 < amt b d \<and> amt b d \<le> amt a d)"
    using any [of "(\<ge>)"] by (auto simp: IsAnyGTE_def)
qed

section \<open>Maximum and minimum\<close>

definition sorts :: "(Coin list \<Rightarrow> Coin list) \<Rightarrow> bool" where
  "sorts srt \<longleftrightarrow> (\<forall>cs. mset (srt cs) = mset cs \<and> sorted (map Denom (srt cs)))"

lemma amt_mset: "mset xs = mset ys \<Longrightarrow> amt xs d = amt ys d"
proof -
  have "amt cs d = (\<Sum>c \<in># filter_mset (\<lambda>c. Denom c = d) (mset cs). Amount c)" for cs
    by (induction cs) auto
  then show "mset xs = mset ys \<Longrightarrow> amt xs d = amt ys d" by simp
qed

lemma sorts_strict:
  assumes "sorts srt" "strict cs" "reduced cs"
  shows "srt cs = cs"
proof (rule amt_unique)
  have m: "mset (srt cs) = mset cs" and s: "sorted (map Denom (srt cs))" using assms(1) by (simp_all add: sorts_def)
  have "distinct (map Denom cs)" using assms(2) by (simp add: strict_def strict_sorted_iff)
  then have "distinct (map Denom (srt cs))" using m by (metis mset_eq_imp_distinct_iff mset_map)
  then show "strict (srt cs)" using s by (simp add: strict_def strict_sorted_iff)
  show "reduced (srt cs)" using assms(3) mset_eq_setD [OF m] by (simp add: reduced_def list_all_iff)
  show "amt (srt cs) d = amt cs d" for d by (rule amt_mset [OF m])
qed (rule assms)+

lemma NewCoins_valid:
  assumes "sorts srt" "Coins_Validate cs"
  shows "NewCoins srt cs = Ret cs"
proof -
  have "removeZeroCoins cs = cs"
    using ValidD(2) [OF assms(2)] by (simp add: removeZeroCoins_filter reduced_def list_all_iff filter_id_conv)
  then show ?thesis
    using sorts_strict [OF assms(1) ValidD(1,2) [OF assms(2)]] assms(2)
    by (auto simp: NewCoins_def sanitizeCoins_def)
qed

fun coin_max :: "Coin list \<Rightarrow> Coin list \<Rightarrow> Coin list" where
  "coin_max (a # as) (b # bs) =
     (if Denom a < Denom b then a # coin_max as (b # bs)
      else if Denom a = Denom b then (if Amount b > Amount a then b else a) # coin_max as bs
      else b # coin_max (a # as) bs)"
| "coin_max as bs = as @ bs"

fun coin_min :: "Coin list \<Rightarrow> Coin list \<Rightarrow> Coin list" where
  "coin_min (a # as) (b # bs) =
     (if Denom a < Denom b then coin_min as (b # bs)
      else if Denom a = Denom b then
        filter (\<lambda>c. Amount c \<noteq> 0) [if Amount b < Amount a then b else a] @ coin_min as bs
      else coin_min (a # as) bs)"
| "coin_min as bs = []"

lemma max_loop_coin_max: "max_loop acc as bs = acc @ coin_max as bs"
  by (induction acc as bs rule: max_loop.induct) auto

lemma min_loop_coin_min: "min_loop acc as bs = acc @ coin_min as bs"
  by (induction acc as bs rule: min_loop.induct) (auto simp: Coin_IsZero_def Let_def)

lemma set_coin_max: "set (coin_max as bs) \<subseteq> set as \<union> set bs"
  and set_coin_min: "set (coin_min as bs) \<subseteq> set as \<union> set bs"
  by (induction as bs rule: coin_max.induct) (auto split: if_splits)

definition positive :: "Coin list \<Rightarrow> bool" where
  "positive cs \<longleftrightarrow> strict cs \<and> (\<forall>c \<in> set cs. 0 < Amount c)"

lemma positive_simps [simp]:
  "positive []" "positive (c # cs) \<longleftrightarrow> (\<forall>x \<in> set cs. Denom c < Denom x) \<and> 0 < Amount c \<and> positive cs"
  by (auto simp: positive_def)

lemma positive_strict: "positive cs \<Longrightarrow> strict cs"
  by (simp add: positive_def)

lemma amt_below: "\<forall>x \<in> set cs. d < Denom x \<Longrightarrow> amt cs d = 0"
  by (rule amt_absent) auto

lemma amt_nonneg: "positive cs \<Longrightarrow> 0 \<le> amt cs d"
  by (induction cs) auto

lemma positive_coin_max: "positive as \<Longrightarrow> positive bs \<Longrightarrow> positive (coin_max as bs)"
proof (induction as bs rule: coin_max.induct)
  case (1 a as b bs)
  then show ?case
    by (cases "Denom a" "Denom b" rule: linorder_cases)
      (auto dest!: subsetD [OF set_coin_max] dest: less_trans)
qed simp_all

lemma positive_coin_min: "positive as \<Longrightarrow> positive bs \<Longrightarrow> positive (coin_min as bs)"
proof (induction as bs rule: coin_min.induct)
  case (1 a as b bs)
  then show ?case
    by (auto dest!: subsetD [OF set_coin_min] dest: less_trans)
qed simp_all

lemma amt_coin_max: "positive as \<Longrightarrow> positive bs \<Longrightarrow> amt (coin_max as bs) d = max (amt as d) (amt bs d)"
proof (induction as bs rule: coin_max.induct)
  case (1 a as b bs)
  have "amt as (Denom a) = 0" "amt bs (Denom b) = 0" using 1(4,5) by (auto intro: amt_below)
  moreover have "Denom a < Denom b \<Longrightarrow> amt bs (Denom a) = 0" "Denom b < Denom a \<Longrightarrow> amt as (Denom b) = 0"
    using 1(4,5) by (auto intro!: amt_below dest: less_trans)
  ultimately show ?case using 1 amt_nonneg [of as d] amt_nonneg [of bs d] by auto
qed (auto simp: max_def intro!: antisym amt_nonneg)

lemma amt_coin_min: "positive as \<Longrightarrow> positive bs \<Longrightarrow> amt (coin_min as bs) d = min (amt as d) (amt bs d)"
proof (induction as bs rule: coin_min.induct)
  case (1 a as b bs)
  have "amt as (Denom a) = 0" "amt bs (Denom b) = 0" using 1(4,5) by (auto intro: amt_below)
  moreover have "Denom a < Denom b \<Longrightarrow> amt bs (Denom a) = 0" "Denom b < Denom a \<Longrightarrow> amt as (Denom b) = 0"
    using 1(4,5) by (auto intro!: amt_below dest: less_trans)
  ultimately show ?case using 1 amt_nonneg [of as d] amt_nonneg [of bs d] by auto
qed (auto simp: min_def intro!: antisym amt_nonneg)

lemma valid_denom:
  assumes "Coins_Validate a" "Coins_Validate b"
  shows "amt a d + amt b d \<noteq> 0 \<Longrightarrow> ValidateDenom d" "amt a d \<noteq> amt b d \<Longrightarrow> ValidateDenom d"
  using ValidD(4) [OF assms(1), of d] ValidD(4) [OF assms(2), of d] by (cases "amt a d = 0"; simp)+

section \<open>Properties\<close>

definition demo_a :: "Coin list" where
  "demo_a = [\<lparr>Denom = ''stos'', Amount = 5\<rparr>, \<lparr>Denom = ''wei'', Amount = 7\<rparr>]"

definition demo_b :: "Coin list" where
  "demo_b = [\<lparr>Denom = ''gwei'', Amount = 2\<rparr>, \<lparr>Denom = ''wei'', Amount = 3\<rparr>]"

definition demo_c :: "Coin list" where
  "demo_c = [\<lparr>Denom = ''wei'', Amount = 3\<rparr>]"

definition int256 :: "int \<Rightarrow> bool" where
  "int256 x \<longleftrightarrow> \<bar>x\<bar> < 2 ^ 256"

lemma demo_valid: "Coins_Validate demo_a" "Coins_Validate demo_b" "Coins_Validate demo_c"
  by code_simp+

lemma demo_fits:
  "int256 (amt demo_a d + amt demo_b d)" "int256 (amt demo_a d - amt demo_c d)" "int256 (amt demo_a d)"
  by (auto simp: demo_a_def demo_b_def demo_c_def int256_def)

text \<open>C26: \<open>Add\<close> of two valid sets of coins, as long as no sum exceeds the range of the integers, returns
  a valid set whose amounts are the sums of the amounts, denomination by denomination; there is only
  one such set.\<close>
theorem coins_add_sums:
  assumes "Coins_Validate a" "Coins_Validate b" "\<And>d. fits (amt a d + amt b d)"
  shows "\<exists>r. Coins_Add fits a b = Ret r \<and> Coins_Validate r \<and> (\<forall>d. amt r d = amt a d + amt b d) \<and>
    (\<forall>r'. Coins_Validate r' \<and> (\<forall>d. amt r' d = amt a d + amt b d) \<longrightarrow> r' = r)"
proof (intro exI conjI allI impI)
  show "Coins_Add fits a b = Ret (coin_merge a b)"
    unfolding Coins_Add_def by (rule safeAdd_strict) (simp_all add: ValidD assms)
  show v: "Coins_Validate (coin_merge a b)"
    by (rule ValidI) (auto simp: strict_coin_merge reduced_coin_merge amt_coin_merge ValidD assms
        intro: valid_denom [OF assms(1,2)])
  show "amt (coin_merge a b) d = amt a d + amt b d" for d by (rule amt_coin_merge)
  show "r' = coin_merge a b" if "Coins_Validate r' \<and> (\<forall>d. amt r' d = amt a d + amt b d)" for r'
    using that v by (intro amt_unique) (auto simp: ValidD amt_coin_merge)
qed

theorem coins_add_sums_witness:
  "\<exists>r. Coins_Add int256 demo_a demo_b = Ret r \<and> Coins_Validate r \<and> amt r ''wei'' = 10"
proof -
  have "amt demo_a ''wei'' + amt demo_b ''wei'' = 10" by code_simp
  moreover obtain r where "Coins_Add int256 demo_a demo_b = Ret r" "Coins_Validate r"
    "\<forall>d. amt r d = amt demo_a d + amt demo_b d"
    using coins_add_sums [of demo_a demo_b int256, OF demo_valid(1,2)] demo_fits(1) by blast
  ultimately show ?thesis by auto
qed

text \<open>C27: \<open>Sub\<close> of two valid sets succeeds exactly when \<open>IsAllGTE\<close> holds between them, and then adding
  the subtracted set gives back the original one; otherwise it panics.\<close>
theorem coins_sub_iff_gte:
  assumes "Coins_Validate a" "Coins_Validate b" "\<And>d. fits (amt a d - amt b d)" "\<And>d. fits (amt a d)"
  shows "(IsAllGTE a b = Ret True \<and>
      (\<exists>r. Coins_Sub fits a b = Ret r \<and> Coins_Validate r \<and> Coins_Add fits r b = Ret a)) \<or>
    (IsAllGTE a b = Ret False \<and> Coins_Sub fits a b = Panic ''negative coin amount'')"
proof (cases "\<forall>d. amt b d \<le> amt a d")
  case True
  let ?r = "coin_merge a (negative b)"
  have amt: "amt ?r d = amt a d - amt b d" for d by (simp add: amt_coin_merge negative_props)
  have st: "strict ?r" by (simp add: strict_coin_merge negative_props ValidD assms)
  have v: "Coins_Validate ?r"
    using True st by (intro ValidI)
      (auto simp: reduced_coin_merge amt intro: valid_denom [OF assms(1,2)])
  have "Coins_Add fits ?r b = Ret (coin_merge ?r b)"
    unfolding Coins_Add_def by (rule safeAdd_strict) (simp_all add: st ValidD assms amt)
  moreover have "coin_merge ?r b = a"
    by (rule amt_unique) (simp_all add: st strict_coin_merge reduced_coin_merge ValidD assms amt_coin_merge
        negative_props)
  moreover have "Coins_Sub fits a b = Ret ?r"
    using Coins_Sub_strict [of a b fits] True assms by (auto simp: ValidD not_less)
  ultimately show ?thesis using v True IsAllGTE_amt [OF assms(1,2)] by simp
next
  case False
  then have "Coins_Sub fits a b = Panic ''negative coin amount''"
    using Coins_Sub_strict [of a b fits] assms by (auto simp: ValidD not_le)
  with False IsAllGTE_amt [OF assms(1,2)] show ?thesis by simp
qed

theorem coins_sub_iff_gte_witness:
  "(\<exists>r. Coins_Sub int256 demo_a demo_c = Ret r \<and> Coins_Validate r \<and> Coins_Add int256 r demo_c = Ret demo_a)"
proof -
  have "IsAllGTE demo_a demo_c = Ret True" by code_simp
  with coins_sub_iff_gte [of demo_a demo_c int256, OF demo_valid(1,3)] demo_fits(2,3) show ?thesis by auto
qed

text \<open>\<open>Max\<close> and \<open>Min\<close> of valid sets return valid sets with the pointwise maxima and minima, and satisfy
  the documented law that the sum of minimum and maximum is the sum of the two sets.\<close>
theorem coins_max_min:
  assumes "sorts srt" "Coins_Validate a" "Coins_Validate b" "\<And>d. fits (amt a d + amt b d)"
  shows "\<exists>mx mn. Coins_Max srt a b = Ret mx \<and> Coins_Min srt a b = Ret mn \<and>
    Coins_Validate mx \<and> Coins_Validate mn \<and>
    (\<forall>d. amt mx d = max (amt a d) (amt b d) \<and> amt mn d = min (amt a d) (amt b d)) \<and>
    Coins_Add fits mn mx = Coins_Add fits a b"
proof -
  have p: "positive a" "positive b" using assms(2,3) by (simp_all add: positive_def Coins_Validate_iff)
  let ?mx = "coin_max a b" and ?mn = "coin_min a b"
  have den: "\<forall>c \<in> set a \<union> set b. ValidateDenom (Denom c)" using ValidD(5) assms(2,3) by blast
  have v: "Coins_Validate ?mx" "Coins_Validate ?mn"
    using positive_coin_max [OF p] positive_coin_min [OF p] den set_coin_max [of a b] set_coin_min [of a b]
    by (auto simp: Coins_Validate_iff positive_def)
  have sum: "min (amt a d) (amt b d) + max (amt a d) (amt b d) = amt a d + amt b d" for d by (simp add: min_def max_def)
  note amts = amt_coin_max [OF p] amt_coin_min [OF p]
  have "Coins_Add fits ?mn ?mx = Ret (coin_merge ?mn ?mx)" "Coins_Add fits a b = Ret (coin_merge a b)"
    unfolding Coins_Add_def by (rule safeAdd_strict; simp add: ValidD v assms amts sum)+
  moreover have "coin_merge ?mn ?mx = coin_merge a b"
    by (rule amt_unique) (simp_all add: strict_coin_merge reduced_coin_merge ValidD v assms amt_coin_merge amts sum)
  ultimately show ?thesis
    using NewCoins_valid [OF assms(1)] v amts
    by (auto simp: Coins_Max_def Coins_Min_def max_loop_coin_max min_loop_coin_min)
qed

lemma sorts_sort_key: "sorts (sort_key Denom)"
  by (simp add: sorts_def)

theorem coins_max_min_witness:
  "\<exists>mx mn. Coins_Max (sort_key Denom) demo_a demo_b = Ret mx \<and> Coins_Min (sort_key Denom) demo_a demo_b = Ret mn \<and>
    Coins_Add int256 mn mx = Coins_Add int256 demo_a demo_b"
  using coins_max_min [of "sort_key Denom" demo_a demo_b int256, OF sorts_sort_key demo_valid(1,2)] demo_fits(1)
  by auto



end
