(* ===== verification/Dec_Coins.thy ===== *)
theory Dec_Coins
  imports Coins_Props
begin

text \<open>
  Decimal coins, units and the parsing of amounts (\<open>tx-client/types/dec_coin.go\<close>, \<open>denom.go\<close> and the end of
  \<open>coin.go\<close>). A decimal is the integer the library stores for it, so a decimal coin has the fields of a
  coin. The arithmetic of the library is a record of functions; what is relied upon is stated as
  hypotheses.
\<close>

section \<open>Decimals\<close>

record dec_ops =
  dec_fits :: "int \<Rightarrow> bool"
  int_fits :: "int \<Rightarrow> bool"
  ToLegacyDec :: "int \<Rightarrow> int"
  TruncateInt :: "int \<Rightarrow> int"
  dec_Mul :: "int \<Rightarrow> int \<Rightarrow> int go"
  dec_Quo :: "int \<Rightarrow> int \<Rightarrow> int go"
  dec_MulTruncate :: "int \<Rightarrow> int \<Rightarrow> int go"
  dec_QuoTruncate :: "int \<Rightarrow> int \<Rightarrow> int go"
  LegacyNewDecFromStr :: "string \<Rightarrow> int option"

type_synonym DecCoin = Coin

section \<open>Single decimal coins\<close>

definition NewDecCoinFromDec :: "string \<Rightarrow> int \<Rightarrow> DecCoin go" where
  "NewDecCoinFromDec denom amount =
     (if \<not> ValidateDenom denom then Panic ''invalid denom''
      else if amount < 0 then Panic ''negative decimal coin amount''
      else Ret \<lparr>Denom = denom, Amount = amount\<rparr>)"

definition NewDecCoin :: "dec_ops \<Rightarrow> string \<Rightarrow> int \<Rightarrow> DecCoin go" where
  "NewDecCoin D denom amount =
     go_bind (NewCoin denom amount) (\<lambda>coin. Ret \<lparr>Denom = Denom coin, Amount = ToLegacyDec D (Amount coin)\<rparr>)"

definition NewDecCoinFromCoin :: "dec_ops \<Rightarrow> Coin \<Rightarrow> DecCoin go" where
  "NewDecCoinFromCoin D coin =
     (if Coin_Validate coin then Ret \<lparr>Denom = Denom coin, Amount = ToLegacyDec D (Amount coin)\<rparr>
      else Panic ''invalid coin'')"

definition DecCoin_Add :: "dec_ops \<Rightarrow> DecCoin \<Rightarrow> DecCoin \<Rightarrow> DecCoin go" where
  "DecCoin_Add D c d =
     (if Denom c \<noteq> Denom d then Panic ''coin denom different''
      else go_bind (int_Add (dec_fits D) (Amount c) (Amount d)) (\<lambda>s. Ret \<lparr>Denom = Denom c, Amount = s\<rparr>))"

definition DecCoin_Sub :: "dec_ops \<Rightarrow> DecCoin \<Rightarrow> DecCoin \<Rightarrow> DecCoin go" where
  "DecCoin_Sub D c d =
     (if Denom c \<noteq> Denom d then Panic ''coin denom different''
      else go_bind (int_Add (dec_fits D) (Amount c) (- Amount d)) (\<lambda>s.
        if s < 0 then Panic ''negative decimal coin amount'' else Ret \<lparr>Denom = Denom c, Amount = s\<rparr>))"

definition DecCoin_TruncateDecimal :: "dec_ops \<Rightarrow> DecCoin \<Rightarrow> (Coin \<times> DecCoin) go" where
  "DecCoin_TruncateDecimal D coin =
     (let truncated = TruncateInt D (Amount coin)
      in go_bind (int_Add (dec_fits D) (Amount coin) (- ToLegacyDec D truncated)) (\<lambda>change.
           go_bind (NewCoin (Denom coin) truncated) (\<lambda>t.
             go_bind (NewDecCoinFromDec (Denom coin) change) (\<lambda>c. Ret (t, c)))))"

section \<open>Sets of decimal coins\<close>

definition removeZeroDecCoins :: "DecCoin list \<Rightarrow> DecCoin list" where
  "removeZeroDecCoins coins = filter (\<lambda>c. \<not> Coin_IsZero c) coins"

fun dec_safeAdd :: "dec_ops \<Rightarrow> DecCoin list \<Rightarrow> DecCoin list \<Rightarrow> DecCoin list \<Rightarrow> DecCoin list go" where
  "dec_safeAdd D acc [] [] = Ret acc"
| "dec_safeAdd D acc [] (b # bs) = Ret (acc @ removeZeroDecCoins (b # bs))"
| "dec_safeAdd D acc (a # as) [] = Ret (acc @ removeZeroDecCoins (a # as))"
| "dec_safeAdd D acc (a # as) (b # bs) =
     (if Denom a < Denom b then
        dec_safeAdd D (if \<not> Coin_IsZero a then acc @ [a] else acc) as (b # bs)
      else if Denom a = Denom b then
        go_bind (DecCoin_Add D a b) (\<lambda>res.
          dec_safeAdd D (if \<not> Coin_IsZero res then acc @ [res] else acc) as bs)
      else
        dec_safeAdd D (if \<not> Coin_IsZero b then acc @ [b] else acc) (a # as) bs)"

definition DecCoins_Add :: "dec_ops \<Rightarrow> DecCoin list \<Rightarrow> DecCoin list \<Rightarrow> DecCoin list go" where
  "DecCoins_Add D coins coinsB = dec_safeAdd D [] coins coinsB"

definition DecCoins_SafeSub :: "dec_ops \<Rightarrow> DecCoin list \<Rightarrow> DecCoin list \<Rightarrow> (DecCoin list \<times> bool) go" where
  "DecCoins_SafeSub D coins coinsB =
     go_bind (dec_safeAdd D [] coins (negative coinsB)) (\<lambda>diff. Ret (diff, IsAnyNegative diff))"

definition DecCoins_Sub :: "dec_ops \<Rightarrow> DecCoin list \<Rightarrow> DecCoin list \<Rightarrow> DecCoin list go" where
  "DecCoins_Sub D coins coinsB =
     go_bind (DecCoins_SafeSub D coins coinsB) (\<lambda>(diff, hasNeg).
       if hasNeg then Panic ''negative coin amount'' else Ret diff)"

definition DecCoins_Validate :: "DecCoin list \<Rightarrow> bool" where
  "DecCoins_Validate coins = Coins_Validate coins"

definition sanitizeDecCoins :: "(DecCoin list \<Rightarrow> DecCoin list) \<Rightarrow> DecCoin list \<Rightarrow> DecCoin list" where
  "sanitizeDecCoins srt coins =
     (let newDecCoins = removeZeroDecCoins coins in if newDecCoins = [] then [] else srt newDecCoins)"

definition NewDecCoins :: "(DecCoin list \<Rightarrow> DecCoin list) \<Rightarrow> DecCoin list \<Rightarrow> DecCoin list go" where
  "NewDecCoins srt coins =
     (let newDecCoins = sanitizeDecCoins srt coins
      in if DecCoins_Validate newDecCoins then Ret newDecCoins else Panic ''invalid coin set'')"

fun map_go :: "('a \<Rightarrow> 'b go) \<Rightarrow> 'a list \<Rightarrow> 'b list go" where
  "map_go f [] = Ret []"
| "map_go f (x # xs) = go_bind (f x) (\<lambda>y. go_bind (map_go f xs) (\<lambda>ys. Ret (y # ys)))"

text \<open>The result has the length of the argument; the slots that the sanitised set does not fill keep
  the zero value of the type, with an empty denomination.\<close>

definition NewDecCoinsFromCoins ::
  "dec_ops \<Rightarrow> (Coin list \<Rightarrow> Coin list) \<Rightarrow> Coin list \<Rightarrow> DecCoin list go" where
  "NewDecCoinsFromCoins D srt coins =
     go_bind (NewCoins srt coins) (\<lambda>newCoins.
       go_bind (map_go (NewDecCoinFromCoin D) newCoins) (\<lambda>ds.
         Ret (ds @ replicate (length coins - length ds) \<lparr>Denom = [], Amount = 0\<rparr>)))"

fun TruncateDecimal_loop ::
  "dec_ops \<Rightarrow> Coin list \<Rightarrow> DecCoin list \<Rightarrow> DecCoin list \<Rightarrow> (Coin list \<times> DecCoin list) go" where
  "TruncateDecimal_loop D ts cs [] = Ret (ts, cs)"
| "TruncateDecimal_loop D ts cs (x # xs) =
     go_bind (DecCoin_TruncateDecimal D x) (\<lambda>(t, c).
       go_bind (if \<not> Coin_IsZero t then Coins_Add (int_fits D) ts [t] else Ret ts) (\<lambda>ts'.
         go_bind (if \<not> Coin_IsZero c then DecCoins_Add D cs [c] else Ret cs) (\<lambda>cs'.
           TruncateDecimal_loop D ts' cs' xs)))"

definition DecCoins_TruncateDecimal :: "dec_ops \<Rightarrow> DecCoin list \<Rightarrow> (Coin list \<times> DecCoin list) go" where
  "DecCoins_TruncateDecimal D coins = TruncateDecimal_loop D [] [] coins"

function DecCoins_AmountOf :: "DecCoin list \<Rightarrow> string \<Rightarrow> int go" where
  "DecCoins_AmountOf coins denom =
     (if \<not> ValidateDenom denom then Panic ''invalid denom''
      else if coins = [] then Ret 0
      else if length coins = 1 then
        (let coin = coins ! 0 in Ret (if Denom coin = denom then Amount coin else 0))
      else
        (let midIdx = length coins div 2;
             coin = coins ! midIdx
         in if denom < Denom coin then DecCoins_AmountOf (take midIdx coins) denom
            else if denom = Denom coin then Ret (Amount coin)
            else DecCoins_AmountOf (drop (midIdx + 1) coins) denom))"
  by pat_completeness auto
termination
proof (relation "measure (\<lambda>(coins, denom). length coins)")
  fix coins :: "Coin list" and denom :: string and midIdx coin
  assume "coins \<noteq> []" "midIdx = length coins div 2"
  then show "((drop (midIdx + 1) coins, denom), coins, denom) \<in> measure (\<lambda>(coins, denom). length coins)"
    by (cases coins) auto
next
  fix coins :: "Coin list" and denom :: string and midIdx coin
  assume "coins \<noteq> []" "midIdx = length coins div 2"
  then have "midIdx < length coins" by (cases coins) auto
  then show "((take midIdx coins, denom), coins, denom) \<in> measure (\<lambda>(coins, denom). length coins)"
    by simp
qed simp

declare DecCoins_AmountOf.simps [simp del]

definition Intersect :: "DecCoin list \<Rightarrow> DecCoin list \<Rightarrow> DecCoin list go" where
  "Intersect coins coinsB =
     go_bind (map_go (\<lambda>c. go_bind (DecCoins_AmountOf coinsB (Denom c)) (\<lambda>b.
         Ret \<lparr>Denom = Denom c, Amount = min (Amount c) b\<rparr>)) coins)
       (\<lambda>res. Ret (removeZeroDecCoins res))"

fun scale_loop :: "dec_ops \<Rightarrow> (int \<Rightarrow> int go) \<Rightarrow> DecCoin list \<Rightarrow> DecCoin list \<Rightarrow> DecCoin list go" where
  "scale_loop D f res [] = Ret res"
| "scale_loop D f res (c # cs) =
     go_bind (f (Amount c)) (\<lambda>p.
       (let product = \<lparr>Denom = Denom c, Amount = p\<rparr>
        in go_bind (if \<not> Coin_IsZero product then DecCoins_Add D res [product] else Ret res) (\<lambda>res'.
             scale_loop D f res' cs)))"

definition MulDec :: "dec_ops \<Rightarrow> DecCoin list \<Rightarrow> int \<Rightarrow> DecCoin list go" where
  "MulDec D coins d = scale_loop D (\<lambda>a. dec_Mul D a d) [] coins"

definition MulDecTruncate :: "dec_ops \<Rightarrow> DecCoin list \<Rightarrow> int \<Rightarrow> DecCoin list go" where
  "MulDecTruncate D coins d = scale_loop D (\<lambda>a. dec_MulTruncate D a d) [] coins"

definition QuoDec :: "dec_ops \<Rightarrow> DecCoin list \<Rightarrow> int \<Rightarrow> DecCoin list go" where
  "QuoDec D coins d =
     (if d = 0 then Panic ''invalid zero decimal'' else scale_loop D (\<lambda>a. dec_Quo D a d) [] coins)"

definition QuoDecTruncate :: "dec_ops \<Rightarrow> DecCoin list \<Rightarrow> int \<Rightarrow> DecCoin list go" where
  "QuoDecTruncate D coins d =
     (if d = 0 then Panic ''invalid zero decimal'' else scale_loop D (\<lambda>a. dec_QuoTruncate D a d) [] coins)"

section \<open>Units\<close>

record denoms =
  denomUnits :: "string \<Rightarrow> int option"
  baseDenom :: string

definition no_denoms :: denoms where
  "no_denoms = \<lparr>denomUnits = Map.empty, baseDenom = []\<rparr>"

text \<open>The base denomination, once there is one, is registered.\<close>

definition RegisterDenom :: "denoms \<Rightarrow> string \<Rightarrow> int \<Rightarrow> string + denoms" where
  "RegisterDenom S denom unit =
     (if \<not> ValidateDenom denom then Inl ''invalid denom''
      else if denomUnits S denom \<noteq> None then Inl ''already registered''
      else
        (let units = (denomUnits S)(denom \<mapsto> unit)
         in Inr \<lparr>denomUnits = units,
                 baseDenom = (if baseDenom S = [] \<or>
                     (case units (baseDenom S) of None \<Rightarrow> False | Some u \<Rightarrow> unit < u)
                   then denom else baseDenom S)\<rparr>))"

definition GetDenomUnit :: "denoms \<Rightarrow> string \<Rightarrow> int option" where
  "GetDenomUnit S denom = (if ValidateDenom denom then denomUnits S denom else None)"

definition GetBaseDenom :: "denoms \<Rightarrow> string option" where
  "GetBaseDenom S = (if baseDenom S = [] then None else Some (baseDenom S))"

definition convert ::
  "dec_ops \<Rightarrow> denoms \<Rightarrow> string \<Rightarrow> string \<Rightarrow> 'a go \<Rightarrow> (int \<Rightarrow> int \<Rightarrow> 'a go) \<Rightarrow> (string + 'a) go" where
  "convert D S src dst same conv =
     (if \<not> ValidateDenom dst then Ret (Inl ''invalid denom'')
      else case GetDenomUnit S src of
        None \<Rightarrow> Ret (Inl ''source denom not registered'')
      | Some srcUnit \<Rightarrow>
          (case GetDenomUnit S dst of
             None \<Rightarrow> Ret (Inl ''destination denom not registered'')
           | Some dstUnit \<Rightarrow>
               go_bind (if srcUnit = dstUnit then same else conv srcUnit dstUnit) (\<lambda>c. Ret (Inr c))))"

definition ConvertCoin :: "dec_ops \<Rightarrow> denoms \<Rightarrow> Coin \<Rightarrow> string \<Rightarrow> (string + Coin) go" where
  "ConvertCoin D S coin denom =
     convert D S (Denom coin) denom (NewCoin denom (Amount coin)) (\<lambda>srcUnit dstUnit.
       go_bind (dec_Mul D (ToLegacyDec D (Amount coin)) srcUnit) (\<lambda>m.
         go_bind (dec_Quo D m dstUnit) (\<lambda>q. NewCoin denom (TruncateInt D q))))"

definition ConvertDecCoin :: "dec_ops \<Rightarrow> denoms \<Rightarrow> DecCoin \<Rightarrow> string \<Rightarrow> (string + DecCoin) go" where
  "ConvertDecCoin D S coin denom =
     convert D S (Denom coin) denom (NewDecCoinFromDec denom (Amount coin)) (\<lambda>srcUnit dstUnit.
       go_bind (dec_Mul D (Amount coin) srcUnit) (\<lambda>m.
         go_bind (dec_Quo D m dstUnit) (\<lambda>q. NewDecCoinFromDec denom q)))"

definition normalize :: "denoms \<Rightarrow> ('c \<Rightarrow> string \<Rightarrow> (string + 'c) go) \<Rightarrow> 'c \<Rightarrow> 'c go" where
  "normalize S conv coin =
     (case GetBaseDenom S of
        None \<Rightarrow> Ret coin
      | Some base \<Rightarrow> go_bind (conv coin base) (\<lambda>r. case r of Inl _ \<Rightarrow> Ret coin | Inr c \<Rightarrow> Ret c))"

definition NormalizeCoin :: "dec_ops \<Rightarrow> denoms \<Rightarrow> Coin \<Rightarrow> Coin go" where
  "NormalizeCoin D S coin = normalize S (ConvertCoin D S) coin"

definition NormalizeDecCoin :: "dec_ops \<Rightarrow> denoms \<Rightarrow> DecCoin \<Rightarrow> DecCoin go" where
  "NormalizeDecCoin D S coin = normalize S (ConvertDecCoin D S) coin"

definition NormalizeCoins :: "dec_ops \<Rightarrow> denoms \<Rightarrow> DecCoin list \<Rightarrow> Coin list go" where
  "NormalizeCoins D S coins =
     map_go (\<lambda>c. go_bind (NormalizeDecCoin D S c) (\<lambda>n.
       go_bind (DecCoin_TruncateDecimal D n) (\<lambda>(t, _). Ret t))) coins"

section \<open>Parsing\<close>

definition is_digit :: "char \<Rightarrow> bool" where
  "is_digit = in_class [(CHR ''0'', CHR ''9'')]"

definition is_space :: "char \<Rightarrow> bool" where
  "is_space c \<longleftrightarrow> c = CHR '' '' \<or> in_class [(CHR 0x09, CHR 0x0D)] c"

definition TrimSpace :: "string \<Rightarrow> string" where
  "TrimSpace s = rev (dropWhile is_space (rev (dropWhile is_space s)))"

definition lower :: "char \<Rightarrow> char" where
  "lower c = (if in_class [(CHR ''A'', CHR ''Z'')] c then char_of (of_char c + (32::nat)) else c)"

text \<open>
  The regular expression of a decimal coin: an amount with digits on at least one side of an optional
  point, and not only a point at the end, then space, then a denomination. Since a denomination
  starts with a letter, the amount is the longest prefix of digits and points.
\<close>

definition is_dec_amount :: "string \<Rightarrow> bool" where
  "is_dec_amount s =
     (let ip = takeWhile is_digit s; r = dropWhile is_digit s
      in case r of
           [] \<Rightarrow> ip \<noteq> []
         | c # fp \<Rightarrow> c = CHR ''.'' \<and> fp \<noteq> [] \<and> list_all is_digit fp)"

definition match_dec_coin :: "string \<Rightarrow> (string \<times> string) option" where
  "match_dec_coin s =
     (let amount = takeWhile (\<lambda>c. is_digit c \<or> c = CHR ''.'') s;
          denom = dropWhile is_space (dropWhile (\<lambda>c. is_digit c \<or> c = CHR ''.'') s)
      in if is_dec_amount amount \<and> ValidateDenom denom then Some (amount, denom) else None)"

definition ParseDecCoin :: "dec_ops \<Rightarrow> string \<Rightarrow> (string + DecCoin) go" where
  "ParseDecCoin D coinStr =
     (case match_dec_coin (map lower (TrimSpace coinStr)) of
        None \<Rightarrow> Ret (Inl ''invalid decimal coin expression'')
      | Some (amountStr, denomStr) \<Rightarrow>
          (case LegacyNewDecFromStr D amountStr of
             None \<Rightarrow> Ret (Inl ''failed to parse decimal coin amount'')
           | Some amount \<Rightarrow>
               if \<not> ValidateDenom denomStr then Ret (Inl ''invalid denom'')
               else go_bind (NewDecCoinFromDec denomStr amount) (\<lambda>c. Ret (Inr c))))"

fun split_commas :: "string \<Rightarrow> string list" where
  "split_commas [] = [[]]"
| "split_commas (c # cs) =
     (if c = CHR '','' then [] # split_commas cs
      else (case split_commas cs of [] \<Rightarrow> [[c]] | x # xs \<Rightarrow> (c # x) # xs))"

fun parse_all :: "dec_ops \<Rightarrow> string list \<Rightarrow> (string + DecCoin list) go" where
  "parse_all D [] = Ret (Inr [])"
| "parse_all D (s # ss) =
     go_bind (ParseDecCoin D s) (\<lambda>r.
       case r of
         Inl e \<Rightarrow> Ret (Inl e)
       | Inr c \<Rightarrow> go_bind (parse_all D ss) (\<lambda>q. case q of Inl e \<Rightarrow> Ret (Inl e) | Inr cs \<Rightarrow> Ret (Inr (c # cs))))"

definition ParseDecCoins ::
  "dec_ops \<Rightarrow> (DecCoin list \<Rightarrow> DecCoin list) \<Rightarrow> string \<Rightarrow> (string + DecCoin list) go" where
  "ParseDecCoins D srt coinsStr =
     (let s = TrimSpace coinsStr
      in if s = [] then Ret (Inr [])
         else go_bind (parse_all D (split_commas s)) (\<lambda>r.
           case r of
             Inl e \<Rightarrow> Ret (Inl e)
           | Inr decCoins \<Rightarrow>
               (let new = sanitizeDecCoins srt decCoins
                in if DecCoins_Validate new then Ret (Inr new) else Ret (Inl ''invalid coin set''))))"

definition ParseCoinNormalized :: "dec_ops \<Rightarrow> denoms \<Rightarrow> string \<Rightarrow> (string + Coin) go" where
  "ParseCoinNormalized D S coinStr =
     go_bind (ParseDecCoin D coinStr) (\<lambda>r.
       case r of
         Inl e \<Rightarrow> Ret (Inl e)
       | Inr decCoin \<Rightarrow>
           go_bind (NormalizeDecCoin D S decCoin) (\<lambda>n.
             go_bind (DecCoin_TruncateDecimal D n) (\<lambda>(t, _). Ret (Inr t))))"

definition ParseCoinsNormalized ::
  "dec_ops \<Rightarrow> denoms \<Rightarrow> (DecCoin list \<Rightarrow> DecCoin list) \<Rightarrow> string \<Rightarrow> (string + Coin list) go" where
  "ParseCoinsNormalized D S srt coinStr =
     go_bind (ParseDecCoins D srt coinStr) (\<lambda>r.
       case r of
         Inl e \<Rightarrow> Ret (Inl e)
       | Inr coins \<Rightarrow> go_bind (NormalizeCoins D S coins) (\<lambda>cs. Ret (Inr cs)))"

end
