(* ===== verification/Dec_Coins_Props.thy ===== *)
theory Dec_Coins_Props
  imports Dec_Coins
begin

text \<open>
  Decimal coins: their addition is that of integer coins, truncation splits a set without losing
  anything, the base denomination is the smallest unit, and two places where sets that are meant to
  be valid are not.
\<close>

section \<open>Addition\<close>

lemma dec_safeAdd_eq: "dec_safeAdd D acc as bs = safeAdd_loop (dec_fits D) acc as bs"
proof (induction D acc as bs rule: dec_safeAdd.induct)
  case (4 D acc a as b bs)
  have "DecCoin_Add D a b = Coin_Add (dec_fits D) a b" if "Denom a = Denom b"
    using that by (simp add: DecCoin_Add_def Coin_Add_def Coin_AddAmount_def)
  moreover have "dec_safeAdd D (if \<not> Coin_IsZero r then acc @ [r] else acc) as bs =
      safeAdd_loop (dec_fits D) (if \<not> Coin_IsZero r then acc @ [r] else acc) as bs"
    if "Denom a = Denom b" for r
    using 4(2) [of r] that by simp
  ultimately show ?case using 4(1,3) by (cases "Coin_Add (dec_fits D) a b") auto
qed (auto simp: removeZeroDecCoins_def removeZeroCoins_filter Coin_IsZero_def)

lemma DecCoins_Add_strict:
  "strict as \<Longrightarrow> strict bs \<Longrightarrow> (\<And>d. dec_fits D (amt as d + amt bs d)) \<Longrightarrow> DecCoins_Add D as bs = Ret (coin_merge as bs)"
  using safeAdd_strict [of as bs "dec_fits D"]
  by (simp add: DecCoins_Add_def dec_safeAdd_eq safeAdd_def isSorted_strict)

section \<open>Truncation\<close>

text \<open>What truncation relies on: it leaves a fractional part that is not negative.\<close>

definition dec_laws :: "dec_ops \<Rightarrow> bool" where
  "dec_laws D \<longleftrightarrow> TruncateInt D 0 = 0 \<and> ToLegacyDec D 0 = 0 \<and>
     (\<forall>x \<ge> 0. 0 \<le> TruncateInt D x \<and> ToLegacyDec D (TruncateInt D x) \<le> x)"

abbreviation fraction :: "dec_ops \<Rightarrow> int \<Rightarrow> int" where
  "fraction D x \<equiv> x - ToLegacyDec D (TruncateInt D x)"

lemma add_single:
  assumes "Coins_Validate ts" "Coin_Validate c" "amt ts (Denom c) = 0"
  shows "Coins_Validate (coin_merge ts [c])" "amt (coin_merge ts [c]) d = amt ts d + (if Denom c = d then Amount c else 0)"
proof -
  show amt: "amt (coin_merge ts [c]) d = amt ts d + (if Denom c = d then Amount c else 0)" for d
    by (simp add: amt_coin_merge)
  show "Coins_Validate (coin_merge ts [c])"
    by (rule ValidI) (use assms ValidD(3,4) [OF assms(1)] in
      \<open>auto simp: strict_coin_merge reduced_coin_merge ValidD(1) amt Coin_Validate_def Coin_IsNegative_def
        split: if_splits\<close>)
qed

text \<open>Adding a coin whose denomination the set does not have yet, unless it is zero.\<close>

lemma add_new_coin:
  assumes "Coins_Validate ts" "Coin_Validate c" "amt ts (Denom c) = 0" "fits (Amount c)"
    and "\<And>d. d \<noteq> Denom c \<Longrightarrow> fits (amt ts d)"
  shows "(if \<not> Coin_IsZero c then Coins_Add fits ts [c] else Ret ts) = Ret (coin_merge ts [c])"
proof (cases "Coin_IsZero c")
  case True
  have "coin_merge ts [c] = ts"
    using add_single [OF assms(1-3)] assms(1) True
    by (intro amt_unique) (simp_all add: ValidD Coin_IsZero_def)
  with True show ?thesis by simp
next
  case False
  have "safeAdd fits ts [c] = Ret (coin_merge ts [c])"
    using assms(3-5) by (intro safeAdd_strict) (auto simp: ValidD(1) [OF assms(1)])
  with False show ?thesis by (simp add: Coins_Add_def)
qed

lemma add_new_dec_coin:
  assumes "Coins_Validate ts" "Coin_Validate c" "amt ts (Denom c) = 0" "dec_fits D (Amount c)"
    and "\<And>d. d \<noteq> Denom c \<Longrightarrow> dec_fits D (amt ts d)"
  shows "(if \<not> Coin_IsZero c then DecCoins_Add D ts [c] else Ret ts) = Ret (coin_merge ts [c])"
proof -
  have "DecCoins_Add D ts [c] = Coins_Add (dec_fits D) ts [c]"
    using ValidD(1) [OF assms(1)] by (simp add: DecCoins_Add_def dec_safeAdd_eq Coins_Add_def safeAdd_def isSorted_strict)
  with add_new_coin [OF assms(1-3), where fits = "dec_fits D", OF assms(4)] assms(5) show ?thesis
    by (simp split: if_splits)
qed

lemma TruncateDecimal_loop_splits:
  assumes "dec_laws D" "Coins_Validate ts" "Coins_Validate cs" "Coins_Validate xs"
    and "\<And>x. x \<in> set xs \<Longrightarrow> amt ts (Denom x) = 0 \<and> amt cs (Denom x) = 0"
    and "\<And>d. int_fits D (amt ts d)" "\<And>d. int_fits D (TruncateInt D (amt xs d))"
    and "\<And>d. dec_fits D (amt cs d)" "\<And>d. dec_fits D (fraction D (amt xs d))"
  shows "\<exists>t c. TruncateDecimal_loop D ts cs xs = Ret (t, c) \<and> Coins_Validate t \<and> Coins_Validate c \<and>
    (\<forall>d. amt t d = amt ts d + TruncateInt D (amt xs d) \<and> amt c d = amt cs d + fraction D (amt xs d))"
  using assms(2-)
proof (induction xs arbitrary: ts cs)
  case Nil
  then show ?case using assms(1) by (simp add: dec_laws_def)
next
  case (Cons x xs)
  have x: "0 < Amount x" "ValidateDenom (Denom x)" "Coins_Validate xs" "\<forall>y \<in> set xs. Denom x < Denom y"
    using Cons.prems(3) by (auto simp: Coins_Validate_iff)
  have none: "amt ts (Denom x) = 0" "amt cs (Denom x) = 0" "amt xs (Denom x) = 0"
    using Cons.prems(4) [of x] amt_below [OF x(4)] by simp_all
  have 0: "TruncateInt D 0 = 0" "ToLegacyDec D 0 = 0"
    and laws: "0 \<le> y \<Longrightarrow> 0 \<le> TruncateInt D y \<and> ToLegacyDec D (TruncateInt D y) \<le> y" for y
    using assms(1) by (simp_all add: dec_laws_def)
  let ?t = "\<lparr>Denom = Denom x, Amount = TruncateInt D (Amount x)\<rparr>"
  let ?c = "\<lparr>Denom = Denom x, Amount = fraction D (Amount x)\<rparr>"
  let ?ts = "coin_merge ts [?t]" and ?cs = "coin_merge cs [?c]"
  have ok: "Coin_Validate ?t" "Coin_Validate ?c"
    using laws [of "Amount x"] x(1,2) by (simp_all add: Coin_Validate_def Coin_IsNegative_def)
  have fit: "int_fits D (TruncateInt D (Amount x))" "dec_fits D (fraction D (Amount x))"
    using Cons.prems(6,8) [of "Denom x"] none(3) by simp_all
  have split: "DecCoin_TruncateDecimal D x = Ret (?t, ?c)"
    using ok fit(2) by (simp add: DecCoin_TruncateDecimal_def Let_def int_Add_def NewCoin_def NewDecCoinFromDec_def
        Coin_Validate_def Coin_IsNegative_def)
  have adds: "(if \<not> Coin_IsZero ?t then Coins_Add (int_fits D) ts [?t] else Ret ts) = Ret ?ts"
    "(if \<not> Coin_IsZero ?c then DecCoins_Add D cs [?c] else Ret cs) = Ret ?cs"
    using add_new_coin [OF Cons.prems(1) ok(1), of "int_fits D"] add_new_dec_coin [OF Cons.prems(2) ok(2), of D]
      Cons.prems(5,7) none fit by simp_all
  note ts = add_single [OF Cons.prems(1) ok(1)] and cs = add_single [OF Cons.prems(2) ok(2)]
  have rest: "int_fits D (TruncateInt D (amt xs d))" "dec_fits D (fraction D (amt xs d))" for d
    using Cons.prems(6,8) [of d] Cons.prems(5,7) [of "Denom x"] none 0 by (cases "d = Denom x"; auto)+
  have "\<exists>t c. TruncateDecimal_loop D ?ts ?cs xs = Ret (t, c) \<and> Coins_Validate t \<and> Coins_Validate c \<and>
      (\<forall>d. amt t d = amt ?ts d + TruncateInt D (amt xs d) \<and> amt c d = amt ?cs d + fraction D (amt xs d))"
  proof (rule Cons.IH)
    show "amt ?ts (Denom y) = 0 \<and> amt ?cs (Denom y) = 0" if "y \<in> set xs" for y
      using that x(4) Cons.prems(4) [of y] none ts(2) cs(2) by auto
    show "int_fits D (amt ?ts d)" "dec_fits D (amt ?cs d)" for d
      using ts(2) cs(2) none fit Cons.prems(5,7) [of d] by (cases "d = Denom x"; simp)+
  qed (use ts(1) cs(1) none x rest in auto)
  then show ?case
    using split adds none 0 by (fastforce simp: ts(2) cs(2) amt_coin_merge)
qed

section \<open>Units\<close>

definition registry_ok :: "denoms \<Rightarrow> bool" where
  "registry_ok S \<longleftrightarrow>
     (\<forall>d u. denomUnits S d = Some u \<longrightarrow> ValidateDenom d \<and>
        (\<exists>b. denomUnits S (baseDenom S) = Some b \<and> b \<le> u)) \<and>
     (baseDenom S \<noteq> [] \<longrightarrow> denomUnits S (baseDenom S) \<noteq> None)"

definition register :: "denoms \<Rightarrow> string \<times> int \<Rightarrow> denoms" where
  "register S x = (case RegisterDenom S (fst x) (snd x) of Inl _ \<Rightarrow> S | Inr S' \<Rightarrow> S')"

lemma register_ok: "registry_ok S \<Longrightarrow> registry_ok (register S x)"
proof (cases "RegisterDenom S (fst x) (snd x)")
  case (Inr S')
  assume ok: "registry_ok S"
  have "baseDenom S = [] \<Longrightarrow> denomUnits S d = None" for d
  proof (rule ccontr)
    assume "baseDenom S = []" "denomUnits S d \<noteq> None"
    then obtain b where "denomUnits S [] = Some b" using ok by (fastforce simp: registry_ok_def)
    then have "ValidateDenom []" using ok unfolding registry_ok_def by blast
    then show False by simp
  qed
  with ok Inr show ?thesis
    by (auto simp: register_def RegisterDenom_def registry_ok_def Let_def split: if_splits option.splits)
      (fastforce)+
qed (simp add: register_def)

interpretation denom_sys: invariant_system register registry_ok
  by unfold_locales (rule register_ok)

section \<open>Properties\<close>

definition one :: int where
  "one = 10 ^ 18"

definition demo_dec :: dec_ops where
  "demo_dec = \<lparr>dec_fits = (\<lambda>x. \<bar>x\<bar> < 2 ^ 315), int_fits = (\<lambda>x. \<bar>x\<bar> < 2 ^ 256),
     ToLegacyDec = (\<lambda>n. n * one), TruncateInt = (\<lambda>x. x div one),
     dec_Mul = (\<lambda>a b. Ret (a * b div one)),
     dec_Quo = (\<lambda>a b. if b = 0 then Panic ''division by zero'' else Ret (a * one div b)),
     dec_MulTruncate = (\<lambda>a b. Ret (a * b div one)),
     dec_QuoTruncate = (\<lambda>a b. if b = 0 then Panic ''division by zero'' else Ret (a * one div b)),
     LegacyNewDecFromStr = (\<lambda>s. if s = ''1'' then Some one else None)\<rparr>"

lemma demo_dec_laws: "dec_laws demo_dec"
proof -
  have "x div one * one \<le> x" for x using div_mult_mod_eq [of x one] pos_mod_sign [of one x] by (simp add: one_def)
  then show ?thesis by (simp add: dec_laws_def demo_dec_def one_def pos_imp_zdiv_nonneg_iff)
qed

definition demo_coins :: "DecCoin list" where
  "demo_coins = [\<lparr>Denom = ''gwei'', Amount = 1500000000000000000\<rparr>, \<lparr>Denom = ''stos'', Amount = 7\<rparr>]"

text \<open>C29: truncating a valid set of decimal coins returns a valid set of integer coins and a valid set of
  change, and for every denomination the two parts add up to the original amount.\<close>
theorem truncate_conserves:
  assumes "dec_laws D" "DecCoins_Validate coins"
    and "\<And>d. int_fits D (TruncateInt D (amt coins d))" "\<And>d. dec_fits D (fraction D (amt coins d))"
    and "int_fits D 0" "dec_fits D 0"
  shows "\<exists>t c. DecCoins_TruncateDecimal D coins = Ret (t, c) \<and> Coins_Validate t \<and> DecCoins_Validate c \<and>
    (\<forall>d. amt t d = TruncateInt D (amt coins d) \<and> ToLegacyDec D (amt t d) + amt c d = amt coins d)"
  using TruncateDecimal_loop_splits [of D "[]" "[]" coins] assms
  by (auto simp: DecCoins_TruncateDecimal_def DecCoins_Validate_def)

theorem truncate_conserves_witness:
  "\<exists>t c. DecCoins_TruncateDecimal demo_dec demo_coins = Ret (t, c) \<and> Coins_Validate t \<and> DecCoins_Validate c \<and>
    (\<forall>d. amt t d = TruncateInt demo_dec (amt demo_coins d) \<and> ToLegacyDec demo_dec (amt t d) + amt c d = amt demo_coins d)"
proof (rule truncate_conserves [OF demo_dec_laws])
  show "DecCoins_Validate demo_coins" by code_simp
qed (auto simp: demo_dec_def demo_coins_def one_def)

text \<open>C30: whatever units are registered, in whatever order, the base denomination is registered and has
  the smallest unit of all.\<close>
theorem base_denom_smallest:
  assumes "S = foldl register no_denoms xs" "GetDenomUnit S d = Some u"
  shows "\<exists>b v. GetBaseDenom S = Some b \<and> GetDenomUnit S b = Some v \<and> v \<le> u"
proof -
  have "registry_ok S"
    using denom_sys.run_always [of no_denoms xs] assms(1) by (simp add: registry_ok_def no_denoms_def)
  moreover have "denomUnits S d = Some u" using assms(2) by (auto simp: GetDenomUnit_def split: if_splits)
  ultimately obtain b where b: "denomUnits S (baseDenom S) = Some b" "b \<le> u" "ValidateDenom (baseDenom S)"
    by (auto simp: registry_ok_def)
  then have "baseDenom S \<noteq> []" by auto
  with b show ?thesis by (auto simp: GetBaseDenom_def GetDenomUnit_def)
qed

theorem base_denom_smallest_witness:
  "\<exists>b v. GetBaseDenom (foldl register no_denoms [(''stos'', one), (''gwei'', 1000000000), (''wei'', 1)]) = Some b \<and>
    GetDenomUnit (foldl register no_denoms [(''stos'', one), (''gwei'', 1000000000), (''wei'', 1)]) b = Some v \<and> v \<le> one"
proof -
  have "GetDenomUnit (foldl register no_denoms [(''stos'', one), (''gwei'', 1000000000), (''wei'', 1)]) ''stos'' =
      Some one"
    by code_simp
  from base_denom_smallest [OF refl this] show ?thesis .
qed

text \<open>\<open>NewDecCoinsFromCoins\<close> returns an invalid set whenever sanitising drops a coin: the result keeps
  the length of the argument and is filled up with coins without denomination.\<close>
theorem dec_from_coins_padded:
  assumes "NewCoins srt coins = Ret newCoins" "length newCoins < length coins"
    and "NewDecCoinsFromCoins D srt coins = Ret ds"
  shows "\<not> DecCoins_Validate ds"
proof -
  obtain xs where "map_go (NewDecCoinFromCoin D) newCoins = Ret xs"
    and ds: "ds = xs @ replicate (length coins - length xs) \<lparr>Denom = [], Amount = 0\<rparr>"
    using assms by (auto simp: NewDecCoinsFromCoins_def go_simps)
  moreover have "map_go f ys = Ret zs \<Longrightarrow> length zs = length ys" for f and ys :: "Coin list" and zs :: "DecCoin list"
    by (induction ys arbitrary: zs) (auto simp: go_simps)
  ultimately have "length xs < length coins" using assms(2) by simp
  then have "\<lparr>Denom = [], Amount = 0\<rparr> \<in> set ds" by (auto simp: ds)
  then show ?thesis by (force simp: DecCoins_Validate_def Coins_Validate_iff)
qed

theorem dec_from_coins_padded_witness:
  "\<exists>ds. NewDecCoinsFromCoins demo_dec (sort_key Denom) [\<lparr>Denom = ''wei'', Amount = 0\<rparr>] = Ret ds \<and>
    \<not> DecCoins_Validate ds"
proof -
  have "NewCoins (sort_key Denom) [\<lparr>Denom = ''wei'', Amount = 0\<rparr>] = Ret []"
    "NewDecCoinsFromCoins demo_dec (sort_key Denom) [\<lparr>Denom = ''wei'', Amount = 0\<rparr>] = Ret [\<lparr>Denom = [], Amount = 0\<rparr>]"
    by code_simp+
  from dec_from_coins_padded [OF this(1) _ this(2)] this(2) show ?thesis by simp
qed

text \<open>The units that a node registers when it starts.\<close>

definition node_denoms :: denoms where
  "node_denoms = foldl register no_denoms [(''stos'', one), (''gwei'', 1000000000), (''wei'', 1)]"

text \<open>The exact results of the decimal library on which parsing one unit of each kind relies.\<close>

definition dec_exact :: "dec_ops \<Rightarrow> bool" where
  "dec_exact D \<longleftrightarrow> (\<forall>a b. one dvd a * b \<longrightarrow> dec_Mul D a b = Ret (a * b div one)) \<and>
     (\<forall>a b. b \<noteq> 0 \<longrightarrow> b dvd a * one \<longrightarrow> dec_Quo D a b = Ret (a * one div b)) \<and>
     (\<forall>n \<ge> 0. TruncateInt D (n * one) = n) \<and> (\<forall>n. ToLegacyDec D n = n * one) \<and>
     LegacyNewDecFromStr D ''1'' = Some one \<and> dec_fits D 0"

lemma node_denoms_units:
  "GetBaseDenom node_denoms = Some ''wei''" "GetDenomUnit node_denoms ''stos'' = Some one"
  "GetDenomUnit node_denoms ''gwei'' = Some 1000000000" "GetDenomUnit node_denoms ''wei'' = Some 1"
  "ValidateDenom ''wei''"
  by code_simp+

lemma normalize_unit:
  assumes "dec_exact D" "GetDenomUnit node_denoms d = Some u" "0 < u" "u \<noteq> 1"
  shows "go_bind (NormalizeDecCoin D node_denoms \<lparr>Denom = d, Amount = one\<rparr>) (\<lambda>n.
    go_bind (DecCoin_TruncateDecimal D n) (\<lambda>(t, _). Ret t)) = Ret \<lparr>Denom = ''wei'', Amount = u\<rparr>"
proof -
  have m: "dec_Mul D one u = Ret u" and q: "dec_Quo D u 1 = Ret (u * one)"
    and t: "TruncateInt D (u * one) = u" "ToLegacyDec D u = u * one" and f: "dec_fits D 0"
    using assms(1,3) unfolding dec_exact_def by (auto simp: one_def)
  have "NormalizeDecCoin D node_denoms \<lparr>Denom = d, Amount = one\<rparr> = Ret \<lparr>Denom = ''wei'', Amount = u * one\<rparr>"
    using assms(2-4) node_denoms_units m q
    by (simp add: NormalizeDecCoin_def normalize_def ConvertDecCoin_def convert_def NewDecCoinFromDec_def one_def)
  then show ?thesis
    using t f assms(3) node_denoms_units(5)
    by (simp add: DecCoin_TruncateDecimal_def int_Add_def NewCoin_def NewDecCoinFromDec_def Coin_Validate_def
        Coin_IsNegative_def)
qed



end
