(* ===== verification/Weighted_Random.thy ===== *)
theory Weighted_Random
  imports Complex_Main Prelude
begin

text \<open>
  Random choices (\<open>framework/utils/random.go\<close>). The generator of \<open>math/rand\<close> and the arithmetic of
  \<open>float64\<close> are the record \<open>rand_env\<close>: generators are values of an arbitrary type, a draw returns the
  next one. The theorems hold for every rounding; \<open>exact_env\<close> is the arithmetic without rounding. The
  package's generator is an argument and a result of the functions that may use it.
\<close>

section \<open>Generators and floating-point numbers\<close>

record ('r, 'f) rand_env =
  Intn :: "'r \<Rightarrow> nat \<Rightarrow> nat \<times> 'r"
  Float64 :: "'r \<Rightarrow> 'f \<times> 'r"
  NewRand :: "int \<Rightarrow> 'r"
  CalcHash :: "string \<Rightarrow> string"
  CalcCRC32 :: "string \<Rightarrow> u32"
  f_of_u64 :: "u64 \<Rightarrow> 'f"
  f_add :: "'f \<Rightarrow> 'f \<Rightarrow> 'f"
  f_sub :: "'f \<Rightarrow> 'f \<Rightarrow> 'f"
  f_mul :: "'f \<Rightarrow> 'f \<Rightarrow> 'f"
  f_div :: "'f \<Rightarrow> 'f \<Rightarrow> 'f"
  f_le :: "'f \<Rightarrow> 'f \<Rightarrow> bool"
  f_eq :: "'f \<Rightarrow> 'f \<Rightarrow> bool"

text \<open>What \<open>math/rand\<close> documents: \<open>Intn(n)\<close> is below \<open>n\<close> for \<open>n > 0\<close> and panics otherwise.\<close>

definition rand_ok :: "('r, 'f, 'z) rand_env_scheme \<Rightarrow> bool" where
  "rand_ok E \<longleftrightarrow> (\<forall>g n. 0 < n \<longrightarrow> fst (Intn E g n) < n)"

definition intn :: "('r, 'f, 'z) rand_env_scheme \<Rightarrow> 'r \<Rightarrow> nat \<Rightarrow> (nat \<times> 'r) go" where
  "intn E g n = (if n = 0 then Panic ''invalid argument to Intn'' else Ret (Intn E g n))"

definition elem_at :: "'a list \<Rightarrow> nat \<Rightarrow> 'a go" where
  "elem_at xs i = (if i < length xs then Ret (xs ! i) else Panic ''index out of range'')"

definition RandFromSeed :: "('r, 'f, 'z) rand_env_scheme \<Rightarrow> 'r \<Rightarrow> string \<Rightarrow> 'r" where
  "RandFromSeed E rng seed =
     (if seed = '''' then rng else NewRand E (uint (CalcCRC32 E (CalcHash E seed))))"

text \<open>Draws from a seeded generator leave the package's generator alone.\<close>

definition keep_rng :: "string \<Rightarrow> 'r \<Rightarrow> 'r \<Rightarrow> 'r" where
  "keep_rng seed rng g = (if seed = '''' then g else rng)"

section \<open>Numbers without repetition, random strings\<close>

text \<open>
  The inner loop draws until a number is new, so it need not end: \<open>None\<close> stands for a loop that runs
  forever.
\<close>

partial_function (option) draw_new ::
  "('r, 'f, 'z) rand_env_scheme \<Rightarrow> int \<Rightarrow> nat \<Rightarrow> int list \<Rightarrow> 'r \<Rightarrow> (int \<times> 'r) option" where
  "draw_new E start spread taken rng =
     (let (k, rng') = Intn E rng spread; num = int k + start
      in if num \<in> set taken then draw_new E start spread taken rng' else Some (num, rng'))"

fun draw_numbers :: "('r, 'f, 'z) rand_env_scheme \<Rightarrow> int \<Rightarrow> nat \<Rightarrow> nat \<Rightarrow> int list \<Rightarrow> 'r \<Rightarrow>
    (int list \<times> 'r) option" where
  "draw_numbers E start spread 0 nums rng = Some (nums, rng)"
| "draw_numbers E start spread (Suc n) nums rng =
     Option.bind (draw_new E start spread nums rng) (\<lambda>(num, rng').
       draw_numbers E start spread n (nums @ [num]) rng')"

text \<open>
  The subtraction wraps around at 64 bits. A negative \<open>count\<close> passes the first guard and \<open>make\<close>
  panics.
\<close>

definition GenerateRandomNumber ::
  "('r, 'f, 'z) rand_env_scheme \<Rightarrow> int \<Rightarrow> int \<Rightarrow> int \<Rightarrow> 'r \<Rightarrow> (int list \<times> 'r) go option" where
  "GenerateRandomNumber E start stop cnt rng =
     (let spread = signed_take_bit 63 (stop - start)
      in if stop < start \<or> spread < cnt \<or> cnt = 0 then Some (Ret ([], rng))
         else if cnt < 0 then Some (Panic ''makeslice: len out of range'')
         else map_option Ret (draw_numbers E start (nat spread) (nat cnt) [] rng))"

definition alphanumeric :: string where
  "alphanumeric = ''0123456789abcdefghijklmnopqrstuvwxyzABCDEFGHIJKLMNOPQRSTUVWXYZ''"

fun random_chars :: "('r, 'f, 'z) rand_env_scheme \<Rightarrow> nat \<Rightarrow> 'r \<Rightarrow> (string \<times> 'r) go" where
  "random_chars E 0 rng = Ret ([], rng)"
| "random_chars E (Suc n) rng =
     go_bind (intn E rng (length alphanumeric)) (\<lambda>(k, rng').
       go_bind (elem_at alphanumeric k) (\<lambda>c.
         go_bind (random_chars E n rng') (\<lambda>(cs, rng''). Ret (c # cs, rng''))))"

definition GetRandomString :: "('r, 'f, 'z) rand_env_scheme \<Rightarrow> int \<Rightarrow> 'r \<Rightarrow> (string \<times> 'r) go" where
  "GetRandomString E len rng = random_chars E (nat len) rng"

section \<open>Weighted selection\<close>

record 'f indexedWeight =
  index :: nat
  weight :: 'f

text \<open>An item is selectable when its weight is not \<open>\<le> 0\<close>; \<open>w\<close> is the item's \<open>Weight\<close> method.\<close>

definition selectable :: "('r, 'f, 'z) rand_env_scheme \<Rightarrow> 'f \<Rightarrow> bool" where
  "selectable E x \<longleftrightarrow> \<not> f_le E x (f_of_u64 E 0)"

fun filter_loop :: "('r, 'f, 'z) rand_env_scheme \<Rightarrow> ('i \<Rightarrow> 'f) \<Rightarrow> nat \<Rightarrow> 'f indexedWeight list \<Rightarrow> 'f \<Rightarrow>
    'i list \<Rightarrow> 'f indexedWeight list \<times> 'f" where
  "filter_loop E w i weights wsum [] = (weights, wsum)"
| "filter_loop E w i weights wsum (item # items) =
     (if f_le E (w item) (f_of_u64 E 0) then filter_loop E w (Suc i) weights wsum items
      else filter_loop E w (Suc i) (weights @ [\<lparr>index = i, weight = w item\<rparr>])
             (f_add E wsum (w item)) items)"

definition filterAndSum ::
  "('r, 'f, 'z) rand_env_scheme \<Rightarrow> ('i \<Rightarrow> 'f) \<Rightarrow> 'i list \<Rightarrow> 'f indexedWeight list \<times> 'f" where
  "filterAndSum E w items = filter_loop E w 0 [] (f_of_u64 E 0) items"

fun cumulate :: "('r, 'f, 'z) rand_env_scheme \<Rightarrow> 'f \<Rightarrow> 'f \<Rightarrow> 'f indexedWeight list \<Rightarrow>
    'f indexedWeight list" where
  "cumulate E wsum cumulated [] = []"
| "cumulate E wsum cumulated (x # xs) =
     (let w = f_div E (weight x) wsum
      in x\<lparr>weight := f_add E w cumulated\<rparr> # cumulate E wsum (f_add E cumulated w) xs)"

definition normalizeAndCumulateWeights ::
  "('r, 'f, 'z) rand_env_scheme \<Rightarrow> ('i \<Rightarrow> 'f) \<Rightarrow> 'i list \<Rightarrow> 'f indexedWeight list" where
  "normalizeAndCumulateWeights E w items =
     (let (weights, wsum) = filterAndSum E w items
      in if f_eq E wsum (f_of_u64 E 0) then weights else cumulate E wsum (f_of_u64 E 0) weights)"

text \<open>\<open>sort.Search\<close>: binary search for the first index at which \<open>f\<close> holds.\<close>

function Search_loop :: "(nat \<Rightarrow> bool) \<Rightarrow> nat \<Rightarrow> nat \<Rightarrow> nat" where
  "Search_loop f i j =
     (if i < j
      then let h = (i + j) div 2 in if \<not> f h then Search_loop f (h + 1) j else Search_loop f i h
      else i)"
  by pat_completeness auto
termination
  by (relation "measure (\<lambda>(f, i, j). j - i)") auto

declare Search_loop.simps [simp del]

definition Search :: "nat \<Rightarrow> (nat \<Rightarrow> bool) \<Rightarrow> nat" where
  "Search n f = Search_loop f 0 n"

definition WeightedRandomSelect :: "('r, 'f, 'z) rand_env_scheme \<Rightarrow> ('i \<Rightarrow> 'f) \<Rightarrow> 'r \<Rightarrow> 'i list \<Rightarrow>
    string \<Rightarrow> ((nat \<times> 'i option) \<times> 'r) go" where
  "WeightedRandomSelect E w rng items seed =
     (if items = [] then Ret ((0, None), rng)
      else let g = RandFromSeed E rng seed; weights = normalizeAndCumulateWeights E w items
      in if weights = [] then
           go_bind (intn E g (length items)) (\<lambda>(selectedIndex, g').
             go_bind (elem_at items selectedIndex) (\<lambda>item.
               Ret ((selectedIndex, Some item), keep_rng seed rng g')))
         else let (randValue, g') = Float64 E g;
                  found = Search (length weights) (\<lambda>i. f_le E randValue (weight (weights ! i)))
         in go_bind (if found = length weights then intn E g' (length weights) else Ret (found, g'))
              (\<lambda>(selectedIndex, g'').
                go_bind (elem_at weights selectedIndex) (\<lambda>x.
                  go_bind (elem_at items (index x)) (\<lambda>item.
                    Ret ((index x, Some item), keep_rng seed rng g'')))))"

text \<open>The inner loop of a draw: the first position at which the running sum reaches \<open>randValue\<close>.\<close>

fun reach :: "('r, 'f, 'z) rand_env_scheme \<Rightarrow> 'f \<Rightarrow> 'f \<Rightarrow> nat \<Rightarrow> 'f indexedWeight list \<Rightarrow> nat option" where
  "reach E randValue cumulated j [] = None"
| "reach E randValue cumulated j (x # xs) =
     (let c = f_add E cumulated (weight x)
      in if f_le E randValue c then Some j else reach E randValue c (Suc j) xs)"

text \<open>The last element takes the place of the selected one.\<close>

definition take_out :: "'a list \<Rightarrow> nat \<Rightarrow> 'a list" where
  "take_out xs j = (if 1 < length xs then butlast (if j < length xs - 1 then xs[j := last xs] else xs)
                    else xs)"

fun select_loop :: "('r, 'f, 'z) rand_env_scheme \<Rightarrow> nat \<Rightarrow> 'f indexedWeight list \<Rightarrow> 'f \<Rightarrow> nat list \<Rightarrow>
    'r \<Rightarrow> nat list \<times> 'r" where
  "select_loop E 0 weights wsum selected g = (selected, g)"
| "select_loop E (Suc n) weights wsum selected g =
     (let (u, g') = Float64 E g
      in case reach E (f_mul E u wsum) (f_of_u64 E 0) 0 weights of
           None \<Rightarrow> select_loop E n weights wsum selected g'
         | Some j \<Rightarrow> select_loop E n (take_out weights j)
             (if 1 < length weights then f_sub E wsum (weight (weights ! j)) else wsum)
             (selected @ [index (weights ! j)]) g')"

fun collect :: "'i list \<Rightarrow> nat list \<Rightarrow> 'i list go" where
  "collect items [] = Ret []"
| "collect items (i # is) =
     go_bind (elem_at items i) (\<lambda>x. go_bind (collect items is) (\<lambda>xs. Ret (x # xs)))"

definition WeightedRandomSelectMultiple :: "('r, 'f, 'z) rand_env_scheme \<Rightarrow> ('i \<Rightarrow> 'f) \<Rightarrow> 'r \<Rightarrow> 'i list \<Rightarrow>
    int \<Rightarrow> string \<Rightarrow> ((nat list \<times> 'i list) \<times> 'r) go" where
  "WeightedRandomSelectMultiple E w rng items cnt seed =
     (let g = RandFromSeed E rng seed; (weights, wsum) = filterAndSum E w items
      in if weights = [] then Ret (([], []), rng)
         else let n = (if int (length weights) < cnt then length weights else nat cnt);
                  (selected, g') = select_loop E n weights wsum [] g
         in go_bind (collect items selected) (\<lambda>xs. Ret ((selected, xs), keep_rng seed rng g')))"

section \<open>Drawing numbers\<close>

definition draw_range :: "('r, 'f, 'z) rand_env_scheme \<Rightarrow> int \<Rightarrow> nat \<Rightarrow> int list \<Rightarrow> 'r \<Rightarrow> int \<times> 'r \<Rightarrow> bool" where
  "draw_range E start spread taken rng r \<longleftrightarrow>
     (\<forall>g. fst (Intn E g spread) < spread) \<longrightarrow>
     fst r \<notin> set taken \<and> start \<le> fst r \<and> fst r < start + int spread"

lemma draw_new_result:
  "draw_new E start spread taken rng = Some r \<Longrightarrow> draw_range E start spread taken rng r"
proof (rule draw_new.raw_induct [where P = draw_range])
  fix f :: "('r, 'f, 'z) rand_env_scheme \<Rightarrow> int \<Rightarrow> nat \<Rightarrow> int list \<Rightarrow> 'r \<Rightarrow> (int \<times> 'r) option"
    and E start spread taken rng r
  assume "\<And>E start spread taken rng r. f E start spread taken rng = Some r \<Longrightarrow>
      draw_range E start spread taken rng r"
    and "(let (k, rng') = Intn E rng spread; num = int k + start
          in if num \<in> set taken then f E start spread taken rng' else Some (num, rng')) = Some r"
  then show "draw_range E start spread taken rng r"
    by (auto simp: draw_range_def Let_def split: prod.splits if_splits)
       (metis fst_conv of_nat_less_iff)+
qed
lemma draw_numbers_result:
  assumes "draw_numbers E start spread n nums rng = Some (out, g)"
    and "\<forall>g. fst (Intn E g spread) < spread"
    and "distinct nums" and "set nums \<subseteq> {start..<start + int spread}"
  shows "distinct out \<and> set out \<subseteq> {start..<start + int spread} \<and> length out = length nums + n"
  using assms
proof (induction n arbitrary: nums rng)
  case (Suc n)
  then obtain num rng' where d: "draw_new E start spread nums rng = Some (num, rng')"
    and rest: "draw_numbers E start spread n (nums @ [num]) rng' = Some (out, g)"
    by (auto simp: bind_eq_Some_conv)
  from draw_new_result [OF d] Suc.prems(2)
  have "num \<notin> set nums" "num \<in> {start..<start + int spread}"
    by (simp_all add: draw_range_def)
  then show ?case
    using Suc.IH [OF rest Suc.prems(2)] Suc.prems(3,4) by auto
qed simp

text \<open>
  The loop ends when the generator is fair: from every state, repeated draws give each number of the
  range some time.
\<close>

fun after_draws :: "('r, 'f, 'z) rand_env_scheme \<Rightarrow> nat \<Rightarrow> nat \<Rightarrow> 'r \<Rightarrow> 'r" where
  "after_draws E n 0 g = g"
| "after_draws E n (Suc m) g = after_draws E n m (snd (Intn E g n))"

definition fair :: "('r, 'f, 'z) rand_env_scheme \<Rightarrow> nat \<Rightarrow> bool" where
  "fair E n \<longleftrightarrow> (\<forall>g k. k < n \<longrightarrow> (\<exists>m. fst (Intn E (after_draws E n m g) n) = k))"

lemma draw_new_ends:
  assumes "int (fst (Intn E (after_draws E spread m rng) spread)) + start \<notin> set taken"
  shows "\<exists>r. draw_new E start spread taken rng = Some r"
  using assms
proof (induction m arbitrary: rng)
  case 0
  then show ?case by (subst draw_new.simps) (auto simp: Let_def split: prod.splits)
next
  case (Suc m)
  then show ?case by (subst draw_new.simps) (auto simp: Let_def split: prod.splits)
qed

lemma free_number:
  assumes "length taken < spread"
  shows "\<exists>k < spread. int k + start \<notin> set taken"
proof (rule ccontr)
  assume "\<not> ?thesis"
  then have "(\<lambda>k. int k + start) ` {..<spread} \<subseteq> set taken" by auto
  then have "card ((\<lambda>k. int k + start) ` {..<spread}) \<le> card (set taken)"
    by (rule card_mono [rotated]) simp
  also have "card ((\<lambda>k. int k + start) ` {..<spread}) = spread"
    by (simp add: card_image inj_on_def)
  finally show False using assms card_length [of taken] by simp
qed

lemma draw_numbers_ends:
  assumes "fair E spread" and "length nums + n \<le> spread"
  shows "\<exists>r. draw_numbers E start spread n nums rng = Some r"
  using assms(2)
proof (induction n arbitrary: nums rng)
  case (Suc n)
  then obtain k where "k < spread" "int k + start \<notin> set nums"
    using free_number [of nums spread start] by auto
  moreover from this assms(1) obtain m where "fst (Intn E (after_draws E spread m rng) spread) = k"
    by (auto simp: fair_def)
  ultimately obtain num rng' where "draw_new E start spread nums rng = Some (num, rng')"
    using draw_new_ends [of E spread m rng start nums] by auto
  with Suc.IH [of "nums @ [num]" rng'] Suc.prems show ?case by simp
qed simp

section \<open>Selection by weight\<close>

lemma filter_loop_eq:
  "filter_loop E w i weights s items =
     (let is = filter (\<lambda>k. selectable E (w (items ! k))) [0..<length items]
      in (weights @ map (\<lambda>k. \<lparr>index = i + k, weight = w (items ! k)\<rparr>) is,
          foldl (f_add E) s (map (\<lambda>k. w (items ! k)) is)))"
proof (induction items arbitrary: i weights s)
  case (Cons item items)
  have "[0..<length (item # items)] = 0 # map Suc [0..<length items]"
    by (simp add: upt_conv_Cons map_Suc_upt del: upt_Suc)
  then show ?case
    by (simp add: Cons.IH Let_def selectable_def filter_map o_def comp_def del: upt_Suc)
qed simp

abbreviation candidates :: "('r, 'f, 'z) rand_env_scheme \<Rightarrow> ('i \<Rightarrow> 'f) \<Rightarrow> 'i list \<Rightarrow> nat list" where
  "candidates E w items \<equiv> filter (\<lambda>k. selectable E (w (items ! k))) [0..<length items]"

lemma filterAndSum_eq:
  "filterAndSum E w items =
     (map (\<lambda>k. \<lparr>index = k, weight = w (items ! k)\<rparr>) (candidates E w items),
      foldl (f_add E) (f_of_u64 E 0) (map (\<lambda>k. w (items ! k)) (candidates E w items)))"
  by (simp add: filterAndSum_def filter_loop_eq Let_def)

lemma cumulate_index [simp]: "map index (cumulate E s c xs) = map index xs"
  by (induction xs arbitrary: c) (auto simp: Let_def)

lemma normalized_index: "map index (normalizeAndCumulateWeights E w items) = candidates E w items"
  by (simp add: normalizeAndCumulateWeights_def filterAndSum_eq comp_def)

lemma normalized_nth:
  assumes "j < length (normalizeAndCumulateWeights E w items)"
  shows "index (normalizeAndCumulateWeights E w items ! j) \<in> set (candidates E w items)"
proof -
  have "length (normalizeAndCumulateWeights E w items) = length (candidates E w items)"
    using arg_cong [OF normalized_index, of length] by simp
  moreover have "index (normalizeAndCumulateWeights E w items ! j) = candidates E w items ! j"
    using nth_map [OF assms, of index] unfolding normalized_index by (rule sym)
  ultimately show ?thesis using assms nth_mem [of j "candidates E w items"] by simp
qed

lemma normalized_empty: "normalizeAndCumulateWeights E w items = [] \<longleftrightarrow> candidates E w items = []"
  by (metis map_is_Nil_conv normalized_index)

text \<open>\<open>sort.Search\<close> stays within its bounds; on a monotone test it finds the first index that passes.\<close>

lemma Search_loop_step:
  "i < j \<Longrightarrow> Search_loop f i j =
     (if f ((i + j) div 2) then Search_loop f i ((i + j) div 2)
      else Search_loop f ((i + j) div 2 + 1) j)"
  by (subst Search_loop.simps) (simp add: Let_def)

lemma Search_loop_bounds: "i \<le> j \<Longrightarrow> i \<le> Search_loop f i j \<and> Search_loop f i j \<le> j"
proof (induction f i j rule: Search_loop.induct)
  case (1 f i j)
  show ?case
  proof (cases "i < j")
    case True
    define h where "h = (i + j) div 2"
    from True have h: "i \<le> h" "h < j" by (auto simp: h_def)
    have eq: "Search_loop f i j = (if f h then Search_loop f i h else Search_loop f (h + 1) j)"
      unfolding h_def by (rule Search_loop_step [OF True])
    show ?thesis
      using "1.IH"(1) [OF True h_def] "1.IH"(2) [OF True h_def] h by (cases "f h") (simp_all add: eq)
  qed (use 1 in \<open>simp add: Search_loop.simps\<close>)
qed

lemma Search_bound: "Search n f \<le> n"
  using Search_loop_bounds [of 0 n f] by (simp add: Search_def)

lemma Search_loop_first:
  assumes mono: "\<And>a b. a \<le> b \<Longrightarrow> b < n \<Longrightarrow> f a \<Longrightarrow> f b"
  shows "i \<le> j \<Longrightarrow> j \<le> n \<Longrightarrow> \<forall>k < i. \<not> f k \<Longrightarrow> \<forall>k\<in>{j..<n}. f k \<Longrightarrow>
    (\<forall>k < Search_loop f i j. \<not> f k) \<and> (\<forall>k\<in>{Search_loop f i j..<n}. f k)"
proof (induction "j - i" arbitrary: i j rule: less_induct)
  case less
  show ?case
  proof (cases "i < j")
    case True
    define h where "h = (i + j) div 2"
    from True have h: "i \<le> h" "h < j" by (auto simp: h_def)
    have eq: "Search_loop f i j = (if f h then Search_loop f i h else Search_loop f (h + 1) j)"
      unfolding h_def by (rule Search_loop_step [OF True])
    show ?thesis
    proof (cases "f h")
      case True
      then have "\<forall>k\<in>{h..<n}. f k" using mono [of h] by auto
      then have "(\<forall>k < Search_loop f i h. \<not> f k) \<and> (\<forall>k\<in>{Search_loop f i h..<n}. f k)"
        using h less.prems by (intro less.hyps) simp_all
      with True show ?thesis by (simp only: eq if_True)
    next
      case False
      have "\<not> f k" if "k < h + 1" for k
        using mono [of k h] h less.prems(2) that False by auto
      then have "(\<forall>k < Search_loop f (h + 1) j. \<not> f k) \<and> (\<forall>k\<in>{Search_loop f (h + 1) j..<n}. f k)"
        using h less.prems by (intro less.hyps) simp_all
      with False show ?thesis by (simp only: eq if_False)
    qed
  next
    case False
    with less.prems show ?thesis by (subst (1 2) Search_loop.simps) auto
  qed
qed

lemma Search_first:
  assumes "\<And>a b. a \<le> b \<Longrightarrow> b < n \<Longrightarrow> f a \<Longrightarrow> f b"
  shows "(\<forall>k<Search n f. \<not> f k) \<and> (Search n f < n \<longrightarrow> f (Search n f))"
  using Search_loop_first [of n f 0 n] assms by (simp add: Search_def)

lemma elem_at_Ret [go_simps]: "elem_at xs i = Ret x \<longleftrightarrow> i < length xs \<and> x = xs ! i"
  by (auto simp: elem_at_def)

lemma elem_at_less [simp]: "i < length xs \<Longrightarrow> elem_at xs i = Ret (xs ! i)"
  by (simp add: elem_at_def)

lemma select_returns:
  assumes "rand_ok E" and "items \<noteq> []"
  shows "\<exists>i g. WeightedRandomSelect E w rng items seed = Ret ((i, Some (items ! i)), g) \<and>
    i < length items \<and> (candidates E w items \<noteq> [] \<longrightarrow> i \<in> set (candidates E w items))"
proof (cases "candidates E w items = []")
  case True
  obtain k g' where k: "Intn E (RandFromSeed E rng seed) (length items) = (k, g')" by fastforce
  with assms have "k < length items" by (metis fst_conv length_greater_0_conv rand_ok_def)
  with k True assms(2) show ?thesis
    by (simp add: WeightedRandomSelect_def normalized_empty Let_def intn_def)
next
  case False
  define ws where "ws = normalizeAndCumulateWeights E w items"
  from False have ws: "ws \<noteq> []" by (simp add: ws_def normalized_empty)
  obtain u g where u: "Float64 E (RandFromSeed E rng seed) = (u, g)" by fastforce
  define found where "found = Search (length ws) (\<lambda>i. f_le E u (weight (ws ! i)))"
  obtain j g' where j: "(if found = length ws then intn E g (length ws) else Ret (found, g)) = Ret (j, g')"
      "j < length ws"
  proof (cases "found = length ws")
    case True
    have "fst (Intn E g (length ws)) < length ws" using assms(1) ws by (simp add: rand_ok_def)
    with True ws that show ?thesis by (cases "Intn E g (length ws)") (simp add: intn_def)
  next
    case False
    with that Search_bound [of "length ws" "\<lambda>i. f_le E u (weight (ws ! i))"] show ?thesis
      by (simp add: found_def)
  qed
  have in_c: "index (ws ! j) \<in> set (candidates E w items)"
    using j(2) unfolding ws_def by (rule normalized_nth)
  then have "index (ws ! j) < length items" by simp
  with in_c u j ws assms(2) show ?thesis
    by (auto simp: WeightedRandomSelect_def Let_def simp flip: ws_def found_def)
qed

lemma select_nothing: "WeightedRandomSelect E w rng [] seed = Ret ((0, None), rng)"
  by (simp add: WeightedRandomSelect_def)

section \<open>Selection of several items\<close>

lemma reach_bounds: "reach E v c i xs = Some j \<Longrightarrow> i \<le> j \<and> j < i + length xs"
  by (induction xs arbitrary: c i) (fastforce simp: Let_def split: if_splits)+

lemma mset_take_out:
  assumes "j < length xs" and "1 < length xs"
  shows "mset (take_out xs j) = mset xs - {#xs ! j#}"
proof -
  from assms obtain ys y where xs: "xs = ys @ [y]"
    by (metis append_butlast_last_id list.size(3) not_less_zero)
  show ?thesis
  proof (cases "j < length ys")
    case True
    then have "mset (ys[j := y]) = mset xs - {#xs ! j#}"
      by (simp add: xs mset_update nth_append)
    with True assms(2) show ?thesis by (simp add: take_out_def xs list_update_append)
  next
    case False
    with assms have "j = length ys" by (simp add: xs)
    with assms(2) show ?thesis by (simp add: take_out_def xs)
  qed
qed

lemma take_out_index:
  assumes "j < length xs" and "1 < length xs"
  shows "mset (map index (take_out xs j)) = mset (remove1 (index (xs ! j)) (map index xs))"
  using assms by (simp add: mset_take_out image_mset_Diff)

lemma take_out_length: "1 < length xs \<Longrightarrow> length (take_out xs j) = length xs - 1"
  by (simp add: take_out_def)

text \<open>
  No item is selected twice: a selected item leaves the list, except the last one, and the loop makes
  at most as many draws as there are items.
\<close>

lemma select_loop_distinct:
  assumes "n \<le> length ws" and "distinct (selected @ map index ws)"
  shows "distinct (fst (select_loop E n ws s selected g)) \<and>
    set (fst (select_loop E n ws s selected g)) \<subseteq> set (selected @ map index ws) \<and>
    length (fst (select_loop E n ws s selected g)) \<le> length selected + n"
  using assms
proof (induction n arbitrary: ws s selected g)
  case (Suc n)
  obtain u g' where u: "Float64 E g = (u, g')" by fastforce
  show ?case
  proof (cases "reach E (f_mul E u s) (f_of_u64 E 0) 0 ws")
    case None
    with Suc.IH [of ws selected s g'] Suc.prems u show ?thesis by auto
  next
    case (Some j)
    then have j: "j < length ws" using reach_bounds by fastforce
    let ?sel = "selected @ [index (ws ! j)]"
    have sub: "set (selected @ map index ws) = set (?sel @ map index ws)" using j by auto
    show ?thesis
    proof (cases "1 < length ws")
      case True
      note perm = take_out_index [OF j True]
      have "distinct (?sel @ map index (take_out ws j))"
        using Suc.prems(2) mset_eq_setD [OF perm] mset_eq_imp_distinct_iff [OF perm] j by auto
      moreover have "set (map index (take_out ws j)) \<subseteq> set (map index ws)"
        using mset_eq_setD [OF perm] set_remove1_subset by metis
      moreover have "n \<le> length (take_out ws j)"
        using Suc.prems(1) by (simp add: take_out_length [OF True])
      ultimately show ?thesis
        using Suc.IH [of "take_out ws j" ?sel "f_sub E s (weight (ws ! j))" g'] u Some True
        unfolding sub by (simp add: subset_iff) blast
    next
      case False
      with Suc.prems have "n = 0" by simp
      with u Some Suc.prems j show ?thesis by auto
    qed
  qed
qed simp

lemma collect_eq: "(\<forall>i\<in>set is. i < length items) \<Longrightarrow> collect items is = Ret (map ((!) items) is)"
  by (induction "is") auto

lemma candidates_distinct: "distinct (candidates E w items)"
  by simp

lemma select_multiple_returns:
  "\<exists>is g. WeightedRandomSelectMultiple E w rng items cnt seed = Ret ((is, map ((!) items) is), g) \<and>
     distinct is \<and> set is \<subseteq> set (candidates E w items) \<and> length is \<le> nat cnt"
proof (cases "candidates E w items = []")
  case True
  then show ?thesis
    by (simp add: WeightedRandomSelectMultiple_def filterAndSum_eq Let_def)
next
  case False
  let ?ws = "fst (filterAndSum E w items)" and ?s = "snd (filterAndSum E w items)"
  let ?n = "if int (length ?ws) < cnt then length ?ws else nat cnt"
  have idx: "map index ?ws = candidates E w items" by (simp add: filterAndSum_eq comp_def)
  obtain out g where o: "select_loop E ?n ?ws ?s [] (RandFromSeed E rng seed) = (out, g)" by fastforce
  have "?n \<le> length ?ws" by auto
  from select_loop_distinct [OF this, of "[]" E ?s "RandFromSeed E rng seed"] o
  have out: "distinct out" "set out \<subseteq> set (candidates E w items)" and "length out \<le> ?n"
    by (simp_all add: idx del: set_filter)
  moreover from this(3) have "length out \<le> nat cnt" by (auto split: if_splits)
  moreover from out(2) have "collect items out = Ret (map ((!) items) out)"
    by (intro collect_eq) auto
  moreover have "?ws \<noteq> []" using False by (simp add: filterAndSum_eq)
  ultimately show ?thesis
    using o by (auto simp: WeightedRandomSelectMultiple_def Let_def split_beta)
qed

section \<open>Arithmetic without rounding\<close>

text \<open>
  With exact arithmetic and \<open>Float64\<close> in the half-open unit interval, a single selection picks an item
  with probability proportional to its weight, and a multiple selection never misses a draw.
\<close>

definition exact :: "('r, rat, 'z) rand_env_scheme \<Rightarrow> bool" where
  "exact E \<longleftrightarrow> f_add E = (+) \<and> f_sub E = (-) \<and> f_mul E = (*) \<and> f_div E = (/) \<and> f_le E = (\<le>) \<and>
     f_eq E = (=) \<and> f_of_u64 E 0 = 0 \<and> (\<forall>g. 0 \<le> fst (Float64 E g) \<and> fst (Float64 E g) < 1)"

lemma reach_exact:
  fixes E :: "('r, rat, 'z) rand_env_scheme"
  assumes "f_add E = (+)" "f_le E = (\<le>)"
  shows "xs \<noteq> [] \<Longrightarrow> v \<le> c + sum_list (map weight xs) \<Longrightarrow> reach E v c i xs \<noteq> None"
proof (induction xs arbitrary: c i)
  case (Cons x xs)
  then show ?case by (cases "xs = []") (auto simp: Let_def assms add.assoc)
qed simp

lemma take_out_sum:
  assumes "j < length xs" and "1 < length xs"
  shows "sum_list (map weight (take_out xs j)) = sum_list (map weight xs) - (weight (xs ! j) :: rat)"
proof -
  have "mset (map weight (take_out xs j)) = mset (map weight xs) - {#weight (xs ! j)#}"
    using assms by (simp add: mset_take_out image_mset_Diff)
  then have "sum_mset (mset (map weight (take_out xs j))) =
      sum_mset (mset (map weight xs)) - weight (xs ! j)"
    using assms(1) by (simp add: sum_mset_diff)
  then show ?thesis by (simp only: sum_mset_sum_list)
qed

lemma select_loop_exact:
  fixes E :: "('r, rat, 'z) rand_env_scheme"
  assumes "exact E"
  shows "n \<le> length ws \<Longrightarrow> s = sum_list (map weight ws) \<Longrightarrow> \<forall>x\<in>set ws. 0 \<le> weight x \<Longrightarrow>
    length (fst (select_loop E n ws s selected g)) = length selected + n"
proof (induction n arbitrary: ws s selected g)
  case (Suc n)
  obtain u g' where u: "Float64 E g = (u, g')" by fastforce
  have "u * s \<le> s"
  proof -
    have "0 \<le> s" unfolding Suc.prems(2) using Suc.prems(3) by (intro sum_list_nonneg) auto
    moreover have "u \<le> 1" using assms u by (metis exact_def fst_conv less_le)
    ultimately show ?thesis using mult_right_mono [of u 1 s] by simp
  qed
  moreover have "ws \<noteq> []" using Suc.prems(1) by auto
  ultimately obtain j where j: "reach E (f_mul E u s) (f_of_u64 E 0) 0 ws = Some j"
    using reach_exact [of E ws "u * s" 0 0] assms Suc.prems(2) by (auto simp: exact_def)
  then have less: "j < length ws" using reach_bounds by fastforce
  show ?case
  proof (cases "1 < length ws")
    case True
    have "set (take_out ws j) \<subseteq> set ws"
      using mset_take_out [OF less True] by (metis diff_subset_eq_self mset_subset_eqD set_mset_mset subsetI)
    then have "\<forall>x\<in>set (take_out ws j). 0 \<le> weight x" using Suc.prems(3) by blast
    moreover have "f_sub E s (weight (ws ! j)) = sum_list (map weight (take_out ws j))"
      using assms Suc.prems(2) take_out_sum [OF less True] by (simp add: exact_def)
    moreover have "n \<le> length (take_out ws j)"
      using Suc.prems(1) by (simp add: take_out_length [OF True])
    ultimately show ?thesis using Suc.IH u j True by simp
  next
    case False
    with Suc.prems have "n = 0" by simp
    with u j False show ?thesis by simp
  qed
qed simp

lemma foldl_plus: "foldl (+) c xs = c + sum_list (xs :: rat list)"
  by (induction xs arbitrary: c) auto

lemma cumulate_nth:
  fixes E :: "('r, rat, 'z) rand_env_scheme"
  assumes "exact E"
  shows "k < length xs \<Longrightarrow>
    weight (cumulate E s c xs ! k) = c + sum_list (map weight (take (Suc k) xs)) / s"
proof (induction xs arbitrary: c k)
  case (Cons x xs)
  with assms show ?case
    by (cases k) (auto simp: exact_def Let_def add_divide_distrib)
qed simp

lemma length_cumulate [simp]: "length (cumulate E s c xs) = length xs"
  by (induction xs arbitrary: c) (auto simp: Let_def)

lemma prefix_sum_mono:
  fixes xs :: "rat list"
  assumes "\<forall>x\<in>set xs. 0 \<le> x" and "a \<le> b"
  shows "sum_list (take a xs) \<le> sum_list (take b xs)"
proof -
  have "take b xs = take a xs @ take (b - a) (drop a xs)"
    using assms(2) by (simp flip: take_add)
  moreover have "0 \<le> sum_list (take (b - a) (drop a xs))"
    using assms(1) by (intro sum_list_nonneg) (meson in_set_dropD in_set_takeD)
  ultimately show ?thesis by simp
qed

text \<open>
  \<open>weights_of\<close> are the weights that can be selected, in the order of the items; a draw \<open>u\<close> of the
  generator falls into exactly one of the intervals between their running sums.
\<close>

definition weights_of :: "('r, 'f, 'z) rand_env_scheme \<Rightarrow> ('i \<Rightarrow> 'f) \<Rightarrow> 'i list \<Rightarrow> 'f list" where
  "weights_of E w items = map (\<lambda>i. w (items ! i)) (candidates E w items)"

lemma weights_of_pos: "exact E \<Longrightarrow> x \<in> set (weights_of E w items) \<Longrightarrow> 0 < x"
  by (auto simp: weights_of_def exact_def selectable_def)

lemma sum_weights_pos:
  assumes "exact E" and "candidates E w items \<noteq> []"
  shows "0 < sum_list (weights_of E w items)"
proof -
  obtain x xs where x: "weights_of E w items = x # xs"
    using assms(2) by (cases "weights_of E w items") (auto simp: weights_of_def)
  with weights_of_pos [OF assms(1), of _ w items] have "0 < x" "\<forall>y\<in>set xs. 0 \<le> y" by fastforce+
  then show ?thesis unfolding x by (simp add: add_pos_nonneg sum_list_nonneg)
qed

lemma normalized_exact:
  assumes "exact E" and "candidates E w items \<noteq> []" and "k < length (candidates E w items)"
  shows "index (normalizeAndCumulateWeights E w items ! k) = candidates E w items ! k"
    and "weight (normalizeAndCumulateWeights E w items ! k) =
      sum_list (take (Suc k) (weights_of E w items)) / sum_list (weights_of E w items)"
proof -
  show "index (normalizeAndCumulateWeights E w items ! k) = candidates E w items ! k"
    using assms(3) normalized_index [of E w items] by (metis length_map nth_map)
  let ?ws = "map (\<lambda>k. \<lparr>index = k, weight = w (items ! k)\<rparr>) (candidates E w items)"
  let ?s = "sum_list (weights_of E w items)"
  have W: "map weight (take n ?ws) = take n (weights_of E w items)" for n
    by (simp add: weights_of_def take_map comp_def)
  have "filterAndSum E w items = (?ws, ?s)"
    using assms(1) by (simp add: filterAndSum_eq weights_of_def exact_def foldl_plus)
  moreover have "?s \<noteq> 0" using sum_weights_pos [OF assms(1,2)] by simp
  ultimately have eq: "normalizeAndCumulateWeights E w items = cumulate E ?s 0 ?ws"
    using assms(1) by (simp add: normalizeAndCumulateWeights_def exact_def)
  have "k < length ?ws" using assms(3) by simp
  from cumulate_nth [OF assms(1) this, of ?s 0]
  show "weight (normalizeAndCumulateWeights E w items ! k) = sum_list (take (Suc k) (weights_of E w items)) / ?s"
    unfolding eq W by simp
qed

text \<open>C34: Selection is proportional to weight. With exact arithmetic, \<open>WeightedRandomSelect\<close> returns the
  \<open>k\<close>-th item of positive weight exactly when the draw \<open>u\<close>, scaled by the sum of the positive weights,
  lies above the sum of the weights before it and at most at the sum that includes it; items whose weight
  is not positive are never returned.\<close>

theorem selection_proportional:
  assumes E: "exact E" and ne: "candidates E w items \<noteq> []"
    and u: "Float64 E (RandFromSeed E rng seed) = (u, g)"
  shows "\<exists>k < length (candidates E w items).
    WeightedRandomSelect E w rng items seed =
      Ret ((candidates E w items ! k, Some (items ! (candidates E w items ! k))), keep_rng seed rng g) \<and>
    u * sum_list (weights_of E w items) \<le> sum_list (take (Suc k) (weights_of E w items)) \<and>
    (0 < k \<longrightarrow> sum_list (take k (weights_of E w items)) < u * sum_list (weights_of E w items))"
proof -
  define cs where "cs = candidates E w items"
  define W where "W = weights_of E w items"
  define ws where "ws = normalizeAndCumulateWeights E w items"
  define f where "f = (\<lambda>i. f_le E u (weight (ws ! i)))"
  define k where "k = Search (length cs) f"
  have len: "length ws = length cs" "length W = length cs"
    using arg_cong [OF normalized_index, of length] by (simp_all add: ws_def cs_def W_def weights_of_def)
  have pos: "0 < sum_list W" unfolding W_def by (rule sum_weights_pos [OF E ne])
  have f_iff: "f i \<longleftrightarrow> u * sum_list W \<le> sum_list (take (Suc i) W)" if "i < length cs" for i
    using normalized_exact(2) [OF E ne] that E pos
    by (simp add: f_def ws_def exact_def cs_def W_def pos_le_divide_eq)
  have mono: "f b" if "a \<le> b" "b < length cs" "f a" for a b
  proof -
    have "sum_list (take (Suc a) W) \<le> sum_list (take (Suc b) W)"
      using weights_of_pos [OF E, of _ w items] that(1)
      by (intro prefix_sum_mono) (auto simp: W_def less_imp_le)
    with that f_iff [of a] f_iff [of b] show ?thesis by simp
  qed
  have "0 < length cs" using ne by (simp add: cs_def)
  moreover have "u \<le> 1" using E u by (metis exact_def fst_conv less_le)
  ultimately have "f (length cs - 1)"
    using f_iff [of "length cs - 1"] pos len(2) mult_right_mono [of u 1 "sum_list W"] by simp
  moreover have first: "\<forall>i<k. \<not> f i" "k < length cs \<longrightarrow> f k"
    using Search_first [of "length cs" f] mono by (auto simp: k_def)
  ultimately have k: "k < length cs"
    using \<open>0 < length cs\<close> by (meson diff_less linorder_not_less order_less_le_trans zero_less_one
        Search_bound less_numeral_extra(1))
  have "index (ws ! k) = cs ! k" "cs ! k < length items"
    using normalized_exact(1) [OF E ne, of k] k nth_mem [OF k] by (auto simp: ws_def cs_def)
  moreover have "items \<noteq> []" "ws \<noteq> []" using ne len(1) k by auto
  ultimately have "WeightedRandomSelect E w rng items seed =
      Ret ((cs ! k, Some (items ! (cs ! k))), keep_rng seed rng g)"
    using u k len(1)
    by (simp add: WeightedRandomSelect_def Let_def flip: ws_def f_def k_def)
  moreover have "0 < k \<longrightarrow> sum_list (take k W) < u * sum_list W"
    using first(1) f_iff [of "k - 1"] k by (auto simp: not_le)
  ultimately show ?thesis
    using k first(2) f_iff [OF k] unfolding cs_def [symmetric] W_def [symmetric] by auto
qed

definition demo_rand :: "(nat, rat) rand_env" where
  "demo_rand = \<lparr>Intn = \<lambda>g n. (g mod n, Suc g), Float64 = \<lambda>g. (1 / 2, Suc g), NewRand = nat, CalcHash = id,
     CalcCRC32 = \<lambda>s. word_of_nat (length s), f_of_u64 = \<lambda>x. of_nat (unat x), f_add = (+), f_sub = (-),
     f_mul = (*), f_div = (/), f_le = (\<le>), f_eq = (=)\<rparr>"

lemma exact_demo: "exact demo_rand"
  by (simp add: exact_def demo_rand_def)

lemma rand_ok_demo: "rand_ok demo_rand"
  by (simp add: rand_ok_def demo_rand_def)

lemma selectable_demo: "selectable demo_rand x \<longleftrightarrow> 0 < x"
  by (auto simp: selectable_def demo_rand_def)

theorem selection_proportional_witness:
  "WeightedRandomSelect demo_rand id 0 [1, 0, 3 :: rat] [] = Ret ((2, Some 3), 1)"
proof -
  have c: "candidates demo_rand id [1, 0, 3] = [0, 2]"
    by (simp add: upt_rec) (simp add: selectable_demo)
  have W: "weights_of demo_rand id [1, 0, 3] = [1, 3]"
    by (simp only: weights_of_def c) simp
  have "Float64 demo_rand (RandFromSeed demo_rand 0 []) = (1 / 2, 1)"
    by (simp add: demo_rand_def RandFromSeed_def)
  from selection_proportional [OF exact_demo _ this, of id "[1, 0, 3]", unfolded c W]
  show ?thesis by (auto simp: less_Suc_eq keep_rng_def)
qed

section \<open>Numbers and strings\<close>

lemma random_numbers:
  assumes "rand_ok E" and "fair E (nat (stop - start))"
    and "0 < cnt" and "cnt \<le> stop - start" and "stop - start < 2 ^ 63"
  shows "\<exists>out g. GenerateRandomNumber E start stop cnt rng = Some (Ret (out, g)) \<and>
    distinct out \<and> set out \<subseteq> {start..<stop} \<and> int (length out) = cnt"
proof -
  from assms have spread: "signed_take_bit 63 (stop - start) = stop - start"
    by (intro signed_take_bit_int_eq_self) auto
  obtain out g where d: "draw_numbers E start (nat (stop - start)) (nat cnt) [] rng = Some (out, g)"
    using draw_numbers_ends [OF assms(2), of "[]" "nat cnt" start rng] assms(3,4) nat_mono [OF assms(4)]
    by auto
  have "\<forall>g. fst (Intn E g (nat (stop - start))) < nat (stop - start)"
    using assms by (auto simp: rand_ok_def)
  from draw_numbers_result [OF d this]
  have "distinct out \<and> set out \<subseteq> {start..<stop} \<and> int (length out) = cnt"
    using assms(3,4) by auto
  with d assms(3,4) show ?thesis
    by (auto simp: GenerateRandomNumber_def spread Let_def)
qed

lemma random_string:
  assumes "rand_ok E"
  shows "\<exists>s g. GetRandomString E len rng = Ret (s, g) \<and> length s = nat len \<and> set s \<subseteq> set alphanumeric"
proof -
  have "\<exists>s g. random_chars E n rng = Ret (s, g) \<and> length s = n \<and> set s \<subseteq> set alphanumeric" for n
  proof (induction n arbitrary: rng)
    case (Suc n)
    have pos: "0 < length alphanumeric" by (simp add: alphanumeric_def)
    obtain k g where k: "Intn E rng (length alphanumeric) = (k, g)" by fastforce
    with assms pos have less: "k < length alphanumeric" by (metis fst_conv rand_ok_def)
    obtain s g' where "random_chars E n g = Ret (s, g')" "length s = n" "set s \<subseteq> set alphanumeric"
      using Suc.IH by blast
    with k less pos show ?case by (auto simp: intn_def)
  qed simp
  then show ?thesis by (simp add: GetRandomString_def)
qed

end
