(* ===== verification/Hash_Ring.thy ===== *)
theory Hash_Ring
  imports Weighted_Random "HOL-Library.AList"
begin

text \<open>
  The ring of storage nodes (\<open>framework/utils/hashring/hashring.go\<close>). Nodes are shared objects: the ring
  maps ids to references into a store, and the list of online nodes records for each its id and weight,
  while each node records its position in that list. A method runs under the ring's lock, so it is one
  step. The invariant \<open>ring_inv\<close> says that the two directions agree; every method keeps it as long as
  \<open>AddNode\<close> is given a new node and an id that is not online.
\<close>

section \<open>Nodes\<close>

type_synonym node_ref = nat

record 'f Node =
  Host :: string
  Rest :: string
  Data :: "nat option"
  DiskUsage :: 'f
  Weight :: 'f
  node_id :: string
  onlineIndex :: int

record 'f nodeKey =
  key_id :: string
  key_weight :: 'f

record 'f HashRing =
  nodes :: "(string \<times> node_ref) list"
  onlineNodes :: "'f nodeKey list"
  store :: "node_ref \<Rightarrow> 'f Node"

text \<open>Methods of a node that may be \<open>nil\<close>.\<close>

definition GetID :: "'f Node option \<Rightarrow> string" where
  "GetID n = (case n of None \<Rightarrow> [] | Some x \<Rightarrow> node_id x)"

definition SetID :: "string \<Rightarrow> 'f Node \<Rightarrow> 'f Node" where
  "SetID ID n = (if node_id n = [] then n\<lparr>node_id := ID\<rparr> else n)"

definition SetDiskUsage :: "('r, 'f) rand_env \<Rightarrow> u64 \<Rightarrow> u64 \<Rightarrow> 'f Node \<Rightarrow> 'f Node" where
  "SetDiskUsage E diskSize freeDisk n =
     (let n1 = (if diskSize \<le> 0 \<or> freeDisk \<le> 0 then n\<lparr>DiskUsage := f_of_u64 E 1\<rparr> else n)
      in n1\<lparr>DiskUsage := f_div E (f_of_u64 E (diskSize - freeDisk)) (f_of_u64 E diskSize)\<rparr>)"

definition Node_IsOnline :: "'f Node option \<Rightarrow> bool" where
  "Node_IsOnline n = (case n of None \<Rightarrow> False | Some x \<Rightarrow> - 1 < onlineIndex x)"

section \<open>Methods of the ring\<close>

definition New :: "(node_ref \<Rightarrow> 'f Node) \<Rightarrow> 'f HashRing" where
  "New st = \<lparr>nodes = [], onlineNodes = [], store = st\<rparr>"

abbreviation find_ref :: "'f HashRing \<Rightarrow> string \<Rightarrow> node_ref option" where
  "find_ref r ID \<equiv> map_of (nodes r) ID"

definition Ring_Node :: "'f HashRing \<Rightarrow> string \<Rightarrow> 'f Node option" where
  "Ring_Node r ID = map_option (store r) (find_ref r ID)"

definition IsOnline :: "'f HashRing \<Rightarrow> string \<Rightarrow> bool" where
  "IsOnline r ID = Node_IsOnline (Ring_Node r ID)"

definition AddNode :: "('r, 'f) rand_env \<Rightarrow> string \<Rightarrow> node_ref option \<Rightarrow> 'f HashRing \<Rightarrow> 'f HashRing" where
  "AddNode E ID node r =
     (case node of None \<Rightarrow> r
      | Some a \<Rightarrow>
         (let n = store r a;
              ID' = (if ID = [] then node_id n else ID);
              n1 = n\<lparr>node_id := ID'\<rparr>;
              n2 = (if f_eq E (Weight n1) (f_of_u64 E 0) then n1\<lparr>Weight := f_of_u64 E 1\<rparr> else n1);
              n3 = n2\<lparr>onlineIndex := - 1\<rparr>
          in r\<lparr>nodes := AList.update ID' a (nodes r), store := (store r)(a := n3)\<rparr>))"

definition set_elem :: "'a list \<Rightarrow> int \<Rightarrow> 'a \<Rightarrow> 'a list go" where
  "set_elem xs i x =
     (if 0 \<le> i \<and> nat i < length xs then Ret (xs[nat i := x]) else Panic ''index out of range'')"

definition set_index :: "node_ref \<Rightarrow> int \<Rightarrow> 'f HashRing \<Rightarrow> 'f HashRing" where
  "set_index a i r = r\<lparr>store := (store r)(a := (store r a)\<lparr>onlineIndex := i\<rparr>)\<rparr>"

definition removeFromOnlineList :: "node_ref option \<Rightarrow> 'f HashRing \<Rightarrow> 'f HashRing go" where
  "removeFromOnlineList node r =
     (case node of None \<Rightarrow> Ret r
      | Some a \<Rightarrow>
         if \<not> Node_IsOnline (Some (store r a)) then Ret r
         else go_bind
           (if length (onlineNodes r) \<le> 1 then Ret (r\<lparr>onlineNodes := []\<rparr>)
            else let lastElement = last (onlineNodes r) in
              go_bind
                (if key_id lastElement \<noteq> node_id (store r a)
                 then go_bind (set_elem (onlineNodes r) (onlineIndex (store r a)) lastElement) (\<lambda>xs.
                        case find_ref r (key_id lastElement) of
                          None \<Rightarrow> Panic ''nil pointer dereference''
                        | Some b \<Rightarrow> Ret (set_index b (onlineIndex (store r a)) (r\<lparr>onlineNodes := xs\<rparr>)))
                 else Ret r)
                (\<lambda>r1. Ret (r1\<lparr>onlineNodes := butlast (onlineNodes r1)\<rparr>)))
           (\<lambda>r2. Ret (set_index a (- 1) r2)))"

definition RemoveNode :: "string \<Rightarrow> 'f HashRing \<Rightarrow> 'f HashRing go" where
  "RemoveNode ID r =
     (case find_ref r ID of None \<Rightarrow> Ret r
      | Some a \<Rightarrow> go_bind (removeFromOnlineList (Some a) r) (\<lambda>r1.
           Ret (r1\<lparr>nodes := AList.delete ID (nodes r1)\<rparr>)))"

definition SetOnline :: "string \<Rightarrow> 'f HashRing \<Rightarrow> 'f HashRing" where
  "SetOnline ID r =
     (case find_ref r ID of None \<Rightarrow> r
      | Some a \<Rightarrow>
         if Node_IsOnline (Some (store r a)) then r
         else let r1 = set_index a (int (length (onlineNodes r))) r
         in r1\<lparr>onlineNodes := onlineNodes r1 @
                [\<lparr>key_id = node_id (store r1 a), key_weight = Weight (store r1 a)\<rparr>]\<rparr>)"

definition SetOffline :: "string \<Rightarrow> 'f HashRing \<Rightarrow> 'f HashRing go" where
  "SetOffline ID r = removeFromOnlineList (find_ref r ID) r"

definition UpdateNodeDiskUsage :: "('r, 'f) rand_env \<Rightarrow> string \<Rightarrow> u64 \<Rightarrow> u64 \<Rightarrow> 'f HashRing \<Rightarrow> 'f HashRing" where
  "UpdateNodeDiskUsage E ID diskSize freeDisk r =
     (case find_ref r ID of None \<Rightarrow> r
      | Some a \<Rightarrow> r\<lparr>store := (store r)(a := SetDiskUsage E diskSize freeDisk (store r a))\<rparr>)"

definition NodeCount :: "'f HashRing \<Rightarrow> u32" where
  "NodeCount r = word_of_nat (length (nodes r))"

definition NodeOkCount :: "'f HashRing \<Rightarrow> u32" where
  "NodeOkCount r = word_of_nat (length (onlineNodes r))"

definition GetOnlineNodeIDs :: "'f HashRing \<Rightarrow> string list" where
  "GetOnlineNodeIDs r = map key_id (onlineNodes r)"

text \<open>The lookups return the selected id with the reference of its node, \<open>None\<close> for \<open>nil\<close>.\<close>

definition picked :: "'f HashRing \<Rightarrow> ((nat \<times> 'f nodeKey option) \<times> 'r) \<Rightarrow> (string \<times> node_ref option) \<times> 'r" where
  "picked r res =
     (case res of ((_, key), g) \<Rightarrow>
        (case key of None \<Rightarrow> (([], None), g)
         | Some k \<Rightarrow> ((key_id k, find_ref r (key_id k)), g)))"

definition RandomNode :: "('r, 'f) rand_env \<Rightarrow> 'r \<Rightarrow> string \<Rightarrow> 'f HashRing \<Rightarrow>
    ((string \<times> node_ref option) \<times> 'r) go" where
  "RandomNode E rng seed r =
     go_bind (WeightedRandomSelect E key_weight rng (onlineNodes r) seed) (\<lambda>res. Ret (picked r res))"

definition RandomNodeExcludedIDs :: "('r, 'f) rand_env \<Rightarrow> 'r \<Rightarrow> string list \<Rightarrow> string \<Rightarrow> 'f HashRing \<Rightarrow>
    ((string \<times> node_ref option) \<times> 'r) go" where
  "RandomNodeExcludedIDs E rng excludedIDs seed r =
     (let filteredNodes = filter (\<lambda>k. key_id k \<notin> set excludedIDs) (onlineNodes r)
      in go_bind (WeightedRandomSelect E key_weight rng filteredNodes seed) (\<lambda>res. Ret (picked r res)))"

definition RandomNodes :: "('r, 'f) rand_env \<Rightarrow> 'r \<Rightarrow> int \<Rightarrow> string \<Rightarrow> 'f HashRing \<Rightarrow>
    (node_ref option list \<times> 'r) go" where
  "RandomNodes E rng num seed r =
     go_bind (WeightedRandomSelectMultiple E key_weight rng (onlineNodes r) num seed) (\<lambda>((_, keys), g).
       Ret (map (\<lambda>k. find_ref r (key_id k)) keys, g))"

section \<open>The ring as a system of steps\<close>

datatype ring_call =
    CallAddNode string "node_ref option"
  | CallRemoveNode string
  | CallSetOnline string
  | CallSetOffline string
  | CallUpdateDiskUsage string u64 u64

fun run_call :: "('r, 'f) rand_env \<Rightarrow> 'f HashRing \<Rightarrow> ring_call \<Rightarrow> 'f HashRing go" where
  "run_call E r (CallAddNode ID node) = Ret (AddNode E ID node r)"
| "run_call E r (CallRemoveNode ID) = RemoveNode ID r"
| "run_call E r (CallSetOnline ID) = Ret (SetOnline ID r)"
| "run_call E r (CallSetOffline ID) = SetOffline ID r"
| "run_call E r (CallUpdateDiskUsage ID ds fd) = Ret (UpdateNodeDiskUsage E ID ds fd r)"

definition ring_step :: "('r, 'f) rand_env \<Rightarrow> 'f HashRing go \<Rightarrow> ring_call \<Rightarrow> 'f HashRing go" where
  "ring_step E s c = go_bind s (\<lambda>r. run_call E r c)"

text \<open>The discipline of the callers: a node is added once, and not over an online one.\<close>

fun ring_ok :: "'f HashRing \<Rightarrow> ring_call \<Rightarrow> bool" where
  "ring_ok r (CallAddNode ID (Some a)) \<longleftrightarrow>
     a \<notin> snd ` set (nodes r) \<and> \<not> IsOnline r (if ID = [] then node_id (store r a) else ID)"
| "ring_ok r _ \<longleftrightarrow> True"

text \<open>
  The invariant: ids are keys once, a node knows its id, and positions and online keys determine each
  other.
\<close>

definition position_ok :: "'f HashRing \<Rightarrow> string \<Rightarrow> node_ref \<Rightarrow> bool" where
  "position_ok r ID a \<longleftrightarrow> node_id (store r a) = ID \<and> - 1 \<le> onlineIndex (store r a) \<and>
     (0 \<le> onlineIndex (store r a) \<longrightarrow>
        nat (onlineIndex (store r a)) < length (onlineNodes r) \<and>
        key_id (onlineNodes r ! nat (onlineIndex (store r a))) = ID)"

definition key_ok :: "'f HashRing \<Rightarrow> nat \<Rightarrow> bool" where
  "key_ok r i \<longleftrightarrow> (\<exists>a. find_ref r (key_id (onlineNodes r ! i)) = Some a \<and> onlineIndex (store r a) = int i)"

definition ring_inv :: "'f HashRing \<Rightarrow> bool" where
  "ring_inv r \<longleftrightarrow> distinct (map fst (nodes r)) \<and>
     (\<forall>ID a. find_ref r ID = Some a \<longrightarrow> position_ok r ID a) \<and>
     (\<forall>i < length (onlineNodes r). key_ok r i)"

lemma ring_invD:
  assumes "ring_inv r"
  shows "distinct (map fst (nodes r))" "find_ref r ID = Some a \<Longrightarrow> position_ok r ID a"
    "i < length (onlineNodes r) \<Longrightarrow> key_ok r i"
  using assms by (auto simp: ring_inv_def)

lemma find_ref_inj:
  "ring_inv r \<Longrightarrow> find_ref r K = Some a \<Longrightarrow> find_ref r K' = Some a \<Longrightarrow> K = K'"
  by (metis position_ok_def ring_invD(2))

lemma IsOnline_iff:
  "IsOnline r ID \<longleftrightarrow> (\<exists>a. find_ref r ID = Some a \<and> 0 \<le> onlineIndex (store r a))"
  by (auto simp: IsOnline_def Ring_Node_def Node_IsOnline_def split: option.splits)

lemma set_index_simps [simp]:
  "nodes (set_index a i r) = nodes r" "onlineNodes (set_index a i r) = onlineNodes r"
  "node_id (store (set_index a i r) b) = node_id (store r b)"
  "onlineIndex (store (set_index a i r) b) = (if b = a then i else onlineIndex (store r b))"
  by (auto simp: set_index_def)

lemma New_inv: "ring_inv (New st)"
  by (simp add: New_def ring_inv_def)

lemma AddNode_inv:
  assumes "ring_inv r" and "a \<notin> snd ` set (nodes r)"
    and "\<not> IsOnline r (if ID = [] then node_id (store r a) else ID)"
  shows "ring_inv (AddNode E ID (Some a) r)"
proof -
  define K where "K = (if ID = [] then node_id (store r a) else ID)"
  define r' where "r' = AddNode E ID (Some a) r"
  have nodes': "nodes r' = AList.update K a (nodes r)" and online': "onlineNodes r' = onlineNodes r"
    and at_a: "node_id (store r' a) = K" "onlineIndex (store r' a) = - 1"
    and other: "\<And>b. b \<noteq> a \<Longrightarrow> store r' b = store r b"
    by (auto simp: r'_def K_def AddNode_def Let_def)
  have ref: "find_ref r' L = (if L = K then Some a else find_ref r L)" for L
    by (simp add: nodes' update_conv')
  have fresh: "b \<noteq> a" if "find_ref r L = Some b" for L b
    using map_of_SomeD [OF that] assms(2) by force
  have "position_ok r' L b" if "find_ref r' L = Some b" for L b
    using that ring_invD(2) [OF assms(1), of L b] fresh [of L b] at_a other [of b]
    by (auto simp: position_ok_def ref online' split: if_splits)
  moreover have "key_ok r' i" if i: "i < length (onlineNodes r')" for i
  proof -
    obtain b where b: "find_ref r (key_id (onlineNodes r ! i)) = Some b" "onlineIndex (store r b) = int i"
      using ring_invD(3) [OF assms(1), of i] i by (auto simp: key_ok_def online')
    then have "key_id (onlineNodes r ! i) \<noteq> K"
      using assms(3) by (auto simp: IsOnline_iff K_def [symmetric])
    with b fresh other show ?thesis by (auto simp: key_ok_def ref online')
  qed
  ultimately have "ring_inv r'"
    using ring_invD(1) [OF assms(1)] by (simp add: ring_inv_def nodes' distinct_update)
  then show ?thesis by (simp add: r'_def)
qed

lemma SetOnline_inv:
  assumes "ring_inv r"
  shows "ring_inv (SetOnline ID r)"
proof (cases "find_ref r ID")
  case (Some a)
  show ?thesis
  proof (cases "Node_IsOnline (Some (store r a))")
    case False
    define k where "k = \<lparr>key_id = node_id (store r a), key_weight = Weight (store r a)\<rparr>"
    define r' where "r' = SetOnline ID r"
    have r': "nodes r' = nodes r" "onlineNodes r' = onlineNodes r @ [k]"
      and st: "\<And>b. node_id (store r' b) = node_id (store r b)"
        "\<And>b. onlineIndex (store r' b) = (if b = a then int (length (onlineNodes r)) else onlineIndex (store r b))"
      using Some False by (auto simp: r'_def k_def SetOnline_def set_index_def)
    have id: "node_id (store r a) = ID" and off: "onlineIndex (store r a) = - 1"
      using ring_invD(2) [OF assms Some] False by (auto simp: position_ok_def Node_IsOnline_def)
    have "position_ok r' L b" if "find_ref r' L = Some b" for L b
    proof (cases "b = a")
      case True
      with that Some r' have "L = ID" using find_ref_inj [OF assms, of L a ID] by simp
      with True id show ?thesis by (simp add: position_ok_def r' st k_def)
    next
      case False
      with that r' ring_invD(2) [OF assms, of L b] show ?thesis
        by (auto simp: position_ok_def st nth_append)
    qed
    moreover have "key_ok r' i" if i: "i < length (onlineNodes r')" for i
    proof (cases "i < length (onlineNodes r)")
      case True
      then obtain b where b: "find_ref r (key_id (onlineNodes r ! i)) = Some b" "onlineIndex (store r b) = int i"
        using ring_invD(3) [OF assms] by (auto simp: key_ok_def)
      with off have "b \<noteq> a" by auto
      with b True show ?thesis by (auto simp: key_ok_def r' st nth_append)
    next
      case False
      with i have "i = length (onlineNodes r)" by (simp add: r')
      with Some id show ?thesis by (auto simp: key_ok_def r' st k_def)
    qed
    ultimately have "ring_inv r'" using ring_invD(1) [OF assms] by (simp add: ring_inv_def r')
    then show ?thesis by (simp add: r'_def)
  qed (use assms Some in \<open>simp add: SetOnline_def\<close>)
qed (use assms in \<open>simp add: SetOnline_def\<close>)

text \<open>
  Taking a node off the list: the last key moves to the node's position. The two tests of the code, for
  a list of one element and for the last element, do not change the outcome.
\<close>

definition moved :: "'f HashRing \<Rightarrow> node_ref \<Rightarrow> node_ref \<Rightarrow> 'f HashRing" where
  "moved r a b =
     (let i = onlineIndex (store r a)
      in set_index a (- 1) (set_index b i
           (r\<lparr>onlineNodes := butlast ((onlineNodes r)[nat i := last (onlineNodes r)])\<rparr>)))"

lemma set_index_same: "set_index a (onlineIndex (store r a)) (r\<lparr>onlineNodes := xs\<rparr>) = r\<lparr>onlineNodes := xs\<rparr>"
  by (simp add: set_index_def)

lemma removed_eq:
  assumes inv: "ring_inv r" and a: "find_ref r ID = Some a" and on: "Node_IsOnline (Some (store r a))"
  obtains b where "removeFromOnlineList (Some a) r = Ret (moved r a b)"
    and "find_ref r (key_id (last (onlineNodes r))) = Some b"
    and "onlineIndex (store r b) = int (length (onlineNodes r)) - 1"
proof -
  let ?xs = "onlineNodes r" and ?i = "onlineIndex (store r a)"
  from on have i: "0 \<le> ?i" by (simp add: Node_IsOnline_def)
  with ring_invD(2) [OF inv a] have pos: "nat ?i < length ?xs" "key_id (?xs ! nat ?i) = ID"
      and id: "node_id (store r a) = ID"
    by (auto simp: position_ok_def)
  then have ne: "?xs \<noteq> []" by auto
  then obtain b where b: "find_ref r (key_id (last ?xs)) = Some b" "onlineIndex (store r b) = int (length ?xs - 1)"
    using ring_invD(3) [OF inv, of "length ?xs - 1"] by (auto simp: key_ok_def last_conv_nth)
  have last: "?xs[nat ?i := last ?xs] = ?xs" if "b = a"
  proof -
    from that b(2) have "nat ?i = length ?xs - 1" by simp
    then show ?thesis using ne by (metis last_conv_nth list_update_id)
  qed
  have "removeFromOnlineList (Some a) r = Ret (moved r a b)"
  proof (cases "key_id (last ?xs) = ID")
    case True
    with a b(1) have ba: "b = a" by simp
    show ?thesis
    proof (cases "length ?xs \<le> 1")
      case True
      then have "butlast ?xs = []" by (cases ?xs) auto
      with True on ba last [OF ba] show ?thesis
        by (simp add: removeFromOnlineList_def moved_def Let_def set_index_same)
    next
      case False
      with \<open>key_id (last ?xs) = ID\<close> id on ba last [OF ba] show ?thesis
        by (simp add: removeFromOnlineList_def moved_def Let_def set_index_same)
    qed
  next
    case False
    then have "1 < length ?xs" using pos by (cases ?xs) auto
    with False id on b(1) pos(1) i show ?thesis
      by (auto simp: removeFromOnlineList_def moved_def Let_def set_elem_def set_index_def)
  qed
  moreover have "onlineIndex (store r b) = int (length ?xs) - 1" using b(2) ne by (cases ?xs) auto
  ultimately show ?thesis using that b(1) by blast
qed

lemma moved_index:
  "onlineIndex (store (moved r a b) c) =
     (if c = a then - 1 else if c = b then onlineIndex (store r a) else onlineIndex (store r c))"
  by (simp add: moved_def Let_def)

lemma moved_simps [simp]:
  "nodes (moved r a b) = nodes r" "node_id (store (moved r a b) c) = node_id (store r c)"
  "length (onlineNodes (moved r a b)) = length (onlineNodes r) - 1"
  by (simp_all add: moved_def Let_def set_index_def)

lemma moved_nth:
  assumes "j < length (onlineNodes r) - 1"
  shows "onlineNodes (moved r a b) ! j =
    (if j = nat (onlineIndex (store r a)) then last (onlineNodes r) else onlineNodes r ! j)"
  using assms by (simp add: moved_def Let_def nth_butlast)

lemma moved_inv:
  assumes inv: "ring_inv r" and a: "find_ref r ID = Some a" and on: "Node_IsOnline (Some (store r a))"
    and b: "find_ref r (key_id (last (onlineNodes r))) = Some b"
      "onlineIndex (store r b) = int (length (onlineNodes r)) - 1"
  shows "ring_inv (moved r a b)"
proof -
  let ?xs = "onlineNodes r" and ?i = "nat (onlineIndex (store r a))" and ?r = "moved r a b"
  from on have i0: "0 \<le> onlineIndex (store r a)" by (simp add: Node_IsOnline_def)
  with ring_invD(2) [OF inv a] have i: "?i < length ?xs" "key_id (?xs ! ?i) = ID"
    by (auto simp: position_ok_def)
  have "position_ok ?r K c" if K: "find_ref ?r K = Some c" for K c
  proof -
    from K have K': "find_ref r K = Some c" by simp
    note p = ring_invD(2) [OF inv K']
    consider "c = a" | "c = b" "c \<noteq> a" | "c \<noteq> a" "c \<noteq> b" by blast
    then show ?thesis
    proof cases
      case 1
      with p show ?thesis by (simp add: position_ok_def moved_index)
    next
      case 2
      with K' b(1) have "K = key_id (last ?xs)" using find_ref_inj [OF inv] by blast
      moreover have "?i \<noteq> length ?xs - 1"
        using 2 i a K' b \<open>K = _\<close> by (metis last_conv_nth length_0_conv not_less_zero option.inject)
      ultimately show ?thesis using 2 p i i0 moved_nth [of ?i r a b]
        by (auto simp: position_ok_def moved_index)
    next
      case 3
      have "nat (onlineIndex (store r c)) \<noteq> length ?xs - 1 \<and> nat (onlineIndex (store r c)) \<noteq> ?i"
        if "0 \<le> onlineIndex (store r c)"
      proof -
        have k: "key_id (?xs ! nat (onlineIndex (store r c))) = K" using p that by (simp add: position_ok_def)
        have "?xs \<noteq> []" using i(1) by auto
        then show ?thesis using k i(2) K' a b(1) 3 by (metis last_conv_nth option.inject)
      qed
      with 3 p moved_nth [of "nat (onlineIndex (store r c))" r a b] show ?thesis
        by (auto simp: position_ok_def moved_index)
    qed
  qed
  moreover have "key_ok ?r j" if "j < length (onlineNodes ?r)" for j
  proof -
    from that have j: "j < length ?xs - 1" by simp
    show ?thesis
    proof (cases "j = ?i")
      case True
      then have "b \<noteq> a" using b(2) j i0 by auto
      with True b(1) i0 moved_nth [OF j, of a b] show ?thesis by (auto simp: key_ok_def moved_index)
    next
      case False
      obtain c where c: "find_ref r (key_id (?xs ! j)) = Some c" "onlineIndex (store r c) = int j"
        using ring_invD(3) [OF inv less_le_trans [OF j diff_le_self]] by (auto simp: key_ok_def)
      then have "c \<noteq> a" "c \<noteq> b" using False b(2) j by auto
      with c False moved_nth [OF j, of a b] show ?thesis by (auto simp: key_ok_def moved_index)
    qed
  qed
  ultimately show ?thesis using ring_invD(1) [OF inv] by (simp add: ring_inv_def)
qed

lemma remove_inv:
  assumes "ring_inv r" and "find_ref r ID = Some a"
  obtains r' where "removeFromOnlineList (Some a) r = Ret r'" "ring_inv r'" "nodes r' = nodes r"
    "onlineIndex (store r' a) = - 1"
proof (cases "Node_IsOnline (Some (store r a))")
  case True
  from removed_eq [OF assms True] obtain b where "removeFromOnlineList (Some a) r = Ret (moved r a b)"
    and "find_ref r (key_id (last (onlineNodes r))) = Some b"
    and "onlineIndex (store r b) = int (length (onlineNodes r)) - 1" .
  with moved_inv [OF assms True] that [of "moved r a b"] show ?thesis by (simp add: moved_index)
next
  case False
  with that [of r] assms ring_invD(2) [OF assms] show ?thesis
    by (simp add: removeFromOnlineList_def Node_IsOnline_def position_ok_def)
qed

lemma SetOffline_inv:
  assumes "ring_inv r"
  shows "\<exists>r'. SetOffline ID r = Ret r' \<and> ring_inv r'"
proof (cases "find_ref r ID")
  case None
  with assms show ?thesis by (simp add: SetOffline_def removeFromOnlineList_def)
next
  case (Some a)
  from remove_inv [OF assms Some] show ?thesis unfolding SetOffline_def Some by metis
qed

lemma RemoveNode_inv:
  assumes "ring_inv r"
  shows "\<exists>r'. RemoveNode ID r = Ret r' \<and> ring_inv r'"
proof (cases "find_ref r ID")
  case None
  with assms show ?thesis by (simp add: RemoveNode_def)
next
  case (Some a)
  obtain r1 where r1: "removeFromOnlineList (Some a) r = Ret r1" "ring_inv r1" "nodes r1 = nodes r"
      "onlineIndex (store r1 a) = - 1"
    using remove_inv [OF assms Some] .
  let ?r = "r1\<lparr>nodes := AList.delete ID (nodes r1)\<rparr>"
  have ref: "find_ref ?r K = (if K = ID then None else find_ref r1 K)" for K
    by (simp add: delete_conv')
  have "position_ok ?r K c" if "find_ref ?r K = Some c" for K c
    using that ring_invD(2) [OF r1(2), of K c] unfolding ref
    by (auto simp: position_ok_def split: if_splits)
  moreover have "key_ok ?r i" if i: "i < length (onlineNodes ?r)" for i
  proof -
    obtain c where c: "find_ref r1 (key_id (onlineNodes r1 ! i)) = Some c" "onlineIndex (store r1 c) = int i"
      using ring_invD(3) [OF r1(2), of i] i by (auto simp: key_ok_def)
    then have "key_id (onlineNodes r1 ! i) \<noteq> ID" using r1(3,4) Some by auto
    with c show ?thesis unfolding key_ok_def ref by simp
  qed
  ultimately have "ring_inv ?r"
    using ring_invD(1) [OF r1(2)] by (simp add: ring_inv_def distinct_delete)
  with r1(1) Some show ?thesis by (simp add: RemoveNode_def)
qed

lemma ring_inv_same:
  assumes "nodes r' = nodes r" "onlineNodes r' = onlineNodes r"
    "\<And>a. node_id (store r' a) = node_id (store r a)" "\<And>a. onlineIndex (store r' a) = onlineIndex (store r a)"
  shows "ring_inv r' \<longleftrightarrow> ring_inv r"
  by (simp add: ring_inv_def position_ok_def key_ok_def assms)

lemma UpdateNodeDiskUsage_inv:
  "ring_inv r \<Longrightarrow> ring_inv (UpdateNodeDiskUsage E ID ds fd r)"
  by (subst ring_inv_same)
     (auto simp: UpdateNodeDiskUsage_def SetDiskUsage_def Let_def split: option.splits)

lemma run_call_inv:
  assumes "ring_inv r" and "ring_ok r c"
  shows "\<exists>r'. run_call E r c = Ret r' \<and> ring_inv r'"
proof (cases c)
  case (CallAddNode ID node)
  with assms show ?thesis
    by (cases node) (auto intro!: AddNode_inv simp: AddNode_def [of E ID None])
qed (use assms in \<open>simp_all add: SetOnline_inv SetOffline_inv RemoveNode_inv UpdateNodeDiskUsage_inv\<close>)

definition state_ok :: "'f HashRing go \<Rightarrow> ring_call \<Rightarrow> bool" where
  "state_ok s c = (case s of Ret r \<Rightarrow> ring_ok r c | Panic _ \<Rightarrow> True)"

definition state_inv :: "'f HashRing go \<Rightarrow> bool" where
  "state_inv s \<longleftrightarrow> (\<exists>r. s = Ret r \<and> ring_inv r)"

interpretation ring_sys: guarded_system "ring_step E" state_ok state_inv
  for E :: "('r, 'f) rand_env"
proof
  fix s :: "'f HashRing go" and c
  assume "state_inv s" "state_ok s c"
  then obtain r where "s = Ret r" "ring_inv r" "ring_ok r c" by (auto simp: state_inv_def state_ok_def)
  then show "state_inv (ring_step E s c)" using run_call_inv by (auto simp: ring_step_def state_inv_def)
qed

lemma online_ids:
  assumes "ring_inv r"
  shows "distinct (GetOnlineNodeIDs r)" "set (GetOnlineNodeIDs r) = {ID. IsOnline r ID}"
proof -
  have idx: "\<exists>a. find_ref r (key_id (onlineNodes r ! i)) = Some a \<and> onlineIndex (store r a) = int i"
    if "i < length (onlineNodes r)" for i
    using ring_invD(3) [OF assms that] by (simp add: key_ok_def)
  then show "distinct (GetOnlineNodeIDs r)"
    unfolding GetOnlineNodeIDs_def distinct_conv_nth by (metis length_map nth_map of_nat_eq_iff option.inject)
  have "IsOnline r ID \<longleftrightarrow> (\<exists>i < length (onlineNodes r). key_id (onlineNodes r ! i) = ID)" for ID
  proof
    show "IsOnline r ID \<Longrightarrow> \<exists>i < length (onlineNodes r). key_id (onlineNodes r ! i) = ID"
      using ring_invD(2) [OF assms, of ID] by (auto simp: IsOnline_iff position_ok_def)
    show "\<exists>i < length (onlineNodes r). key_id (onlineNodes r ! i) = ID \<Longrightarrow> IsOnline r ID"
      using idx by (metis IsOnline_iff of_nat_0_le_iff)
  qed
  then show "set (GetOnlineNodeIDs r) = {ID. IsOnline r ID}"
    by (auto simp: GetOnlineNodeIDs_def in_set_conv_nth) (metis nth_mem image_eqI)
qed

lemma selected_online:
  assumes "rand_ok E" and "ring_inv r" and "set ks \<subseteq> set (onlineNodes r)"
  shows "\<exists>ID node g. go_bind (WeightedRandomSelect E key_weight rng ks seed) (\<lambda>res. Ret (picked r res)) =
      Ret ((ID, node), g) \<and>
    (if ks = [] then ID = [] \<and> node = None
     else ID \<in> key_id ` set ks \<and> IsOnline r ID \<and> node = find_ref r ID \<and> node \<noteq> None)"
proof (cases "ks = []")
  case True
  then show ?thesis by (simp add: select_nothing picked_def)
next
  case False
  from select_returns [OF assms(1) this, of key_weight rng seed]
  obtain i g where sel: "WeightedRandomSelect E key_weight rng ks seed = Ret ((i, Some (ks ! i)), g)"
    and i: "i < length ks" by blast
  then have mem: "ks ! i \<in> set ks" by simp
  with assms(3) have "key_id (ks ! i) \<in> set (GetOnlineNodeIDs r)" by (auto simp: GetOnlineNodeIDs_def)
  then have "IsOnline r (key_id (ks ! i))" using online_ids(2) [OF assms(2)] by blast
  with sel False mem show ?thesis by (auto simp: picked_def IsOnline_iff)
qed

lemma runs_keep_inv:
  assumes "run_ok (ring_step E) state_ok (Ret (New st)) calls"
  obtains r where "foldl (ring_step E) (Ret (New st)) calls = Ret r" "ring_inv r"
  using ring_sys.run_keeps [OF _ assms] New_inv that by (auto simp: state_inv_def)

text \<open>C32: The ring stays consistent. Whatever calls the ring receives, as long as a node is added once and
  not under an id that is online, no call panics, the list of online nodes has no duplicates, and it holds
  exactly the ids whose nodes report to be online.\<close>

theorem ring_consistent:
  assumes "run_ok (ring_step E) state_ok (Ret (New st)) calls"
  shows "\<exists>r. foldl (ring_step E) (Ret (New st)) calls = Ret r \<and>
    distinct (GetOnlineNodeIDs r) \<and> set (GetOnlineNodeIDs r) = {ID. IsOnline r ID}"
proof -
  obtain r where "foldl (ring_step E) (Ret (New st)) calls = Ret r" "ring_inv r"
    by (rule runs_keep_inv [OF assms])
  with online_ids [of r] show ?thesis by blast
qed

definition blank_node :: "rat Node" where
  "blank_node = \<lparr>Host = [], Rest = [], Data = None, DiskUsage = 0, Weight = 0, node_id = [], onlineIndex = 0\<rparr>"

definition demo_calls :: "ring_call list" where
  "demo_calls = [CallAddNode ''a'' (Some 0), CallAddNode ''b'' (Some 1), CallAddNode ''c'' (Some 2),
     CallSetOnline ''a'', CallSetOnline ''b'', CallSetOnline ''c'', CallSetOffline ''a''] "

lemmas ring_eval = demo_calls_def state_ok_def ring_step_def New_def AddNode_def SetOnline_def
  SetOffline_def RemoveNode_def removeFromOnlineList_def IsOnline_def Ring_Node_def Node_IsOnline_def
  set_index_def set_elem_def blank_node_def demo_rand_def Let_def

theorem ring_consistent_witness:
  "\<exists>r. foldl (ring_step demo_rand) (Ret (New (\<lambda>_. blank_node))) demo_calls = Ret r \<and>
    GetOnlineNodeIDs r = [''c'', ''b''] \<and> {''c'', ''b''} = {ID. IsOnline r ID}"
proof -
  have "run_ok (ring_step demo_rand) state_ok (Ret (New (\<lambda>_. blank_node))) demo_calls"
    by (simp add: ring_eval)
  from ring_consistent [OF this]
  obtain r where r: "foldl (ring_step demo_rand) (Ret (New (\<lambda>_. blank_node))) demo_calls = Ret r"
    "set (GetOnlineNodeIDs r) = {ID. IsOnline r ID}" by blast
  moreover from r(1) have "GetOnlineNodeIDs r = [''c'', ''b'']"
    by (auto simp: ring_eval GetOnlineNodeIDs_def)
  ultimately show ?thesis by auto
qed

text \<open>C33: A random node is online and not excluded. After any such calls, \<open>RandomNodeExcludedIDs\<close> returns,
  for every generator and every rounding, the id and the node of an online node outside the exclusion
  list, and returns the empty id with a nil node exactly when every online node is excluded.\<close>

theorem random_node_online:
  assumes "run_ok (ring_step E) state_ok (Ret (New st)) calls" and "rand_ok E"
    and "foldl (ring_step E) (Ret (New st)) calls = Ret r"
  shows "\<exists>ID node g. RandomNodeExcludedIDs E rng excludedIDs seed r = Ret ((ID, node), g) \<and>
    (if \<forall>K. IsOnline r K \<longrightarrow> K \<in> set excludedIDs then ID = [] \<and> node = None
     else IsOnline r ID \<and> ID \<notin> set excludedIDs \<and> node = find_ref r ID \<and> node \<noteq> None)"
proof -
  have inv: "ring_inv r" using assms(3) by (rule_tac runs_keep_inv [OF assms(1)]) simp
  let ?ks = "filter (\<lambda>k. key_id k \<notin> set excludedIDs) (onlineNodes r)"
  have "IsOnline r K \<longleftrightarrow> K \<in> key_id ` set (onlineNodes r)" for K
    using online_ids(2) [OF inv] by (metis GetOnlineNodeIDs_def list.set_map mem_Collect_eq)
  then have none: "(\<forall>K. IsOnline r K \<longrightarrow> K \<in> set excludedIDs) \<longleftrightarrow> ?ks = []"
    by (auto simp: filter_empty_conv)
  have "set ?ks \<subseteq> set (onlineNodes r)" by auto
  from selected_online [OF assms(2) inv this, of rng seed]
  obtain ID node g where sel: "RandomNodeExcludedIDs E rng excludedIDs seed r = Ret ((ID, node), g)"
    and ID: "if ?ks = [] then ID = [] \<and> node = None
      else ID \<in> key_id ` set ?ks \<and> IsOnline r ID \<and> node = find_ref r ID \<and> node \<noteq> None"
    unfolding RandomNodeExcludedIDs_def Let_def by blast
  have "if ?ks = [] then ID = [] \<and> node = None
      else IsOnline r ID \<and> ID \<notin> set excludedIDs \<and> node = find_ref r ID \<and> node \<noteq> None"
    using ID by (cases "?ks = []") (simp_all only: if_True if_False simp_thms, auto)
  with sel show ?thesis unfolding none by blast
qed

theorem random_node_online_witness:
  "\<exists>r node g. foldl (ring_step demo_rand) (Ret (New (\<lambda>_. blank_node))) demo_calls = Ret r \<and>
    RandomNodeExcludedIDs demo_rand 0 [''c''] ''seed'' r = Ret ((''b'', node), g) \<and> node \<noteq> None"
proof -
  have ok: "run_ok (ring_step demo_rand) state_ok (Ret (New (\<lambda>_. blank_node))) demo_calls"
    by (simp add: ring_eval)
  then obtain r where r: "foldl (ring_step demo_rand) (Ret (New (\<lambda>_. blank_node))) demo_calls = Ret r"
      and inv: "ring_inv r"
    by (rule runs_keep_inv)
  from r have "GetOnlineNodeIDs r = [''c'', ''b'']" by (auto simp: ring_eval GetOnlineNodeIDs_def)
  with online_ids(2) [OF inv] have on: "IsOnline r K \<longleftrightarrow> K = ''c'' \<or> K = ''b''" for K by auto
  have "IsOnline r ''b''" "''b'' \<notin> set [''c'']" by (simp_all add: on)
  then have some: "(\<forall>K. IsOnline r K \<longrightarrow> K \<in> set [''c'']) = False" by blast
  from random_node_online [OF ok rand_ok_demo r, of 0 "[''c'']" "''seed''", unfolded some if_False]
  obtain ID node g where sel: "RandomNodeExcludedIDs demo_rand 0 [''c''] ''seed'' r = Ret ((ID, node), g)"
    and "IsOnline r ID" "ID \<notin> set [''c'']" and ne: "node \<noteq> None" by blast
  then have "ID = ''b''" using on [of ID] by simp
  with r sel ne show ?thesis by blast
qed

text \<open>A node that is added again while it is online leaves a stale key, and a later call panics.\<close>

definition readd_calls :: "ring_call list" where
  "readd_calls = [CallAddNode ''b'' (Some 0), CallSetOnline ''b'', CallAddNode ''a'' (Some 1),
     CallSetOnline ''a'', CallAddNode ''a'' (Some 2), CallRemoveNode ''a'', CallSetOffline ''b'']"

theorem readd_online_panics:
  "foldl (ring_step demo_rand) (Ret (New (\<lambda>_. blank_node))) readd_calls = Panic ''nil pointer dereference''"
  by (simp add: ring_eval readd_calls_def)

text \<open>The assignment for a disk without space is overwritten by the quotient that follows it.\<close>

lemma disk_usage_ignores_guard:
  "DiskUsage (SetDiskUsage E diskSize freeDisk n) =
     f_div E (f_of_u64 E (diskSize - freeDisk)) (f_of_u64 E diskSize)"
  by (simp add: SetDiskUsage_def Let_def)

lemma counts:
  assumes "ring_inv r" and "length (nodes r) < 2 ^ 32"
  shows "unat (NodeCount r) = card (dom (map_of (nodes r)))" "unat (NodeOkCount r) = card {ID. IsOnline r ID}"
    "unat (NodeOkCount r) \<le> unat (NodeCount r)"
proof -
  have c: "card (dom (map_of (nodes r))) = length (nodes r)"
    using ring_invD(1) [OF assms(1)] distinct_card [of "map fst (nodes r)"] by (simp add: dom_map_of_conv_image_fst)
  have o: "card {ID. IsOnline r ID} = length (onlineNodes r)"
    using online_ids [OF assms(1)] distinct_card [of "GetOnlineNodeIDs r"] by (simp add: GetOnlineNodeIDs_def)
  have "{ID. IsOnline r ID} \<subseteq> dom (map_of (nodes r))" by (auto simp: IsOnline_iff)
  then have le: "length (onlineNodes r) \<le> length (nodes r)"
    using card_mono [of "dom (map_of (nodes r))" "{ID. IsOnline r ID}"] by (simp add: c o finite_dom_map_of)
  show "unat (NodeCount r) = card (dom (map_of (nodes r)))" "unat (NodeOkCount r) = card {ID. IsOnline r ID}"
    "unat (NodeOkCount r) \<le> unat (NodeCount r)"
    using assms(2) le by (simp_all add: NodeCount_def NodeOkCount_def c o unat_of_nat)
qed

end
