(* ===== verification/Slice_Store.thy ===== *)
theory Slice_Store
  imports Prelude
begin

text \<open>
  Slices on the disk of a node (\<open>pp/file/path.go\<close>, the slice operations of \<open>pp/file/file.go\<close>, the
  slice hash of \<open>framework/crypto/hash_tools.go\<close>). A disk maps paths to contents. Which calls of the
  operating system fail is the argument \<open>io\<close> of the operations, so it may differ from call to call.
  Slice hashes are strings of ASCII characters, for which Go's runes are the bytes.
\<close>

section \<open>Paths\<close>

text \<open>\<open>filepath.Join\<close> and \<open>filepath.Clean\<close> of the standard library, for Unix.\<close>

fun split_path :: "string \<Rightarrow> string list" where
  "split_path [] = [[]]"
| "split_path (c # cs) =
     (if c = CHR ''/'' then [] # split_path cs
      else case split_path cs of [] \<Rightarrow> [[c]] | x # xs \<Rightarrow> (c # x) # xs)"

text \<open>Components in reverse order; \<open>..\<close> removes one, and stays when a relative path has none left.\<close>

fun clean_comps :: "bool \<Rightarrow> string list \<Rightarrow> string list \<Rightarrow> string list" where
  "clean_comps rooted acc [] = rev acc"
| "clean_comps rooted acc (x # xs) =
     (if x = [] \<or> x = ''.'' then clean_comps rooted acc xs
      else if x = ''..'' then
        (case acc of
           [] \<Rightarrow> clean_comps rooted (if rooted then [] else [''..'']) xs
         | y # ys \<Rightarrow> if y = ''..'' then clean_comps rooted (x # acc) xs else clean_comps rooted ys xs)
      else clean_comps rooted (x # acc) xs)"

fun glue :: "string list \<Rightarrow> string" where
  "glue [] = []"
| "glue [x] = x"
| "glue (x # xs) = x @ ''/'' @ glue xs"

definition Clean :: "string \<Rightarrow> string" where
  "Clean p =
     (let rooted = (p \<noteq> [] \<and> hd p = CHR ''/'');
          q = (if rooted then ''/'' else []) @ glue (clean_comps rooted [] (split_path p))
      in if q = [] then ''.'' else q)"

definition path_join :: "string list \<Rightarrow> string" where
  "path_join xs = (let ys = filter (\<lambda>x. x \<noteq> []) xs in if ys = [] then [] else Clean (glue ys))"

section \<open>The disk\<close>

datatype file_error =
    WrongHashSize | StatFailed | MkdirFailed | OpenFailed | NegativeOffset | WriteFailed | ReadFailed
  | NotExist | RemoveFailed

record disk =
  files :: "string \<Rightarrow> bytes option"
  dirs :: "string set"

text \<open>\<open>write_err p = Some n\<close>: a write to \<open>p\<close> fails after \<open>n\<close> bytes.\<close>

record io =
  stat_err :: "string \<Rightarrow> bool"
  mkdir_err :: "string \<Rightarrow> bool"
  open_err :: "string \<Rightarrow> bool"
  write_err :: "string \<Rightarrow> nat option"
  read_err :: "string \<Rightarrow> bool"
  remove_err :: "string \<Rightarrow> bool"

definition no_errors :: io where
  "no_errors = \<lparr>stat_err = \<lambda>_. False, mkdir_err = \<lambda>_. False, open_err = \<lambda>_. False, write_err = \<lambda>_. None,
     read_err = \<lambda>_. False, remove_err = \<lambda>_. False\<rparr>"

type_synonym 'a fs_result = "(file_error + 'a) \<times> disk"

definition fs_bind :: "'a fs_result \<Rightarrow> ('a \<Rightarrow> disk \<Rightarrow> 'b fs_result) \<Rightarrow> 'b fs_result" where
  "fs_bind m f = (case m of (Inl e, d) \<Rightarrow> (Inl e, d) | (Inr x, d) \<Rightarrow> f x d)"

text \<open>
  \<open>WriteAt\<close>: the file is extended with zeros up to the offset; writing nothing changes nothing. The
  offset is an \<open>int64\<close>, converted from an \<open>uint64\<close>.
\<close>

definition write_at :: "bytes \<Rightarrow> nat \<Rightarrow> bytes \<Rightarrow> bytes" where
  "write_at f off data =
     (if data = [] then f
      else take off (f @ replicate (off - length f) 0) @ data @ drop (off + length data) f)"

definition PathExists :: "io \<Rightarrow> string \<Rightarrow> disk \<Rightarrow> bool fs_result" where
  "PathExists io p d =
     (if stat_err io p then (Inl StatFailed, d) else (Inr (p \<in> dirs d \<or> files d p \<noteq> None), d))"

section \<open>Slice paths\<close>

record home =
  StoragePath :: string
  RootPath :: string

definition GetTmpVerifyPath :: "home \<Rightarrow> string" where
  "GetTmpVerifyPath H = path_join [path_join [RootPath H, ''tmp''], ''verify'']"

definition GetTmpFileFolderPath :: "home \<Rightarrow> string \<Rightarrow> string" where
  "GetTmpFileFolderPath H fileHash = path_join [path_join [RootPath H, ''tmp''], fileHash]"

definition GetTmpSlicePath :: "home \<Rightarrow> string \<Rightarrow> string \<Rightarrow> string" where
  "GetTmpSlicePath H fileHash sliceHash = path_join [GetTmpFileFolderPath H fileHash, sliceHash]"

definition hashed_dir :: "string \<Rightarrow> string \<Rightarrow> string" where
  "hashed_dir folder hash = path_join [folder, take 8 hash, take 2 (drop 8 hash)]"

definition slice_path_in :: "string \<Rightarrow> io \<Rightarrow> string \<Rightarrow> disk \<Rightarrow> string fs_result" where
  "slice_path_in folder io hash d =
     (if length hash < 10 then (Inl WrongHashSize, d)
      else let path = hashed_dir folder hash
      in fs_bind (PathExists io path d) (\<lambda>exist d.
           if exist then (Inr (path_join [path, hash]), d)
           else if mkdir_err io path then (Inl MkdirFailed, d)
           else (Inr (path_join [path, hash]), d\<lparr>dirs := insert path (dirs d)\<rparr>)))"

definition getSlicePath :: "home \<Rightarrow> io \<Rightarrow> string \<Rightarrow> disk \<Rightarrow> string fs_result" where
  "getSlicePath H = slice_path_in (StoragePath H)"

definition getVerifySlicePath :: "home \<Rightarrow> io \<Rightarrow> string \<Rightarrow> disk \<Rightarrow> string fs_result" where
  "getVerifySlicePath H = slice_path_in (GetTmpVerifyPath H)"

section \<open>Reading and writing slices\<close>

text \<open>\<open>os.OpenFile(O_CREATE|O_RDWR)\<close> followed by \<open>WriteAt\<close>.\<close>

definition write_file_at :: "io \<Rightarrow> string \<Rightarrow> bytes \<Rightarrow> u64 \<Rightarrow> disk \<Rightarrow> unit fs_result" where
  "write_file_at io p data offset d =
     (if open_err io p then (Inl OpenFailed, d)
      else let f = (case files d p of None \<Rightarrow> [] | Some f \<Rightarrow> f);
               d1 = d\<lparr>files := (files d)(p := Some f)\<rparr>
      in if sint offset < 0 then (Inl NegativeOffset, d1)
         else case write_err io p of
           None \<Rightarrow> (Inr (), d1\<lparr>files := (files d1)(p := Some (write_at f (unat offset) data))\<rparr>)
         | Some n \<Rightarrow> (Inl WriteFailed, d1\<lparr>files := (files d1)(p := Some (write_at f (unat offset) (take n data)))\<rparr>))"

definition SaveSliceData :: "home \<Rightarrow> io \<Rightarrow> bytes \<Rightarrow> string \<Rightarrow> u64 \<Rightarrow> disk \<Rightarrow> unit fs_result" where
  "SaveSliceData H io data sliceHash offset d =
     fs_bind (getSlicePath H io sliceHash d) (\<lambda>p d. write_file_at io p data offset d)"

definition SaveVerifySliceData :: "home \<Rightarrow> io \<Rightarrow> bytes \<Rightarrow> string \<Rightarrow> u64 \<Rightarrow> disk \<Rightarrow> unit fs_result" where
  "SaveVerifySliceData H io data sliceHash offset d =
     fs_bind (getVerifySlicePath H io sliceHash d) (\<lambda>p d. write_file_at io p data offset d)"

definition GetWholeFileData :: "io \<Rightarrow> string \<Rightarrow> disk \<Rightarrow> bytes fs_result" where
  "GetWholeFileData io p d =
     (case files d p of None \<Rightarrow> (Inl NotExist, d)
      | Some f \<Rightarrow> if read_err io p then (Inl ReadFailed, d) else (Inr f, d))"

definition GetFileInfo_size :: "io \<Rightarrow> string \<Rightarrow> disk \<Rightarrow> nat fs_result" where
  "GetFileInfo_size io p d =
     (if stat_err io p then (Inl StatFailed, d)
      else case files d p of None \<Rightarrow> (Inl NotExist, d) | Some f \<Rightarrow> (Inr (length f), d))"

definition GetSliceData :: "home \<Rightarrow> io \<Rightarrow> string \<Rightarrow> disk \<Rightarrow> bytes fs_result" where
  "GetSliceData H io sliceHash d = fs_bind (getSlicePath H io sliceHash d) (GetWholeFileData io)"

definition GetVerifySliceData :: "home \<Rightarrow> io \<Rightarrow> string \<Rightarrow> disk \<Rightarrow> bytes fs_result" where
  "GetVerifySliceData H io sliceHash d = fs_bind (getVerifySlicePath H io sliceHash d) (GetWholeFileData io)"

definition GetSliceSize :: "home \<Rightarrow> io \<Rightarrow> string \<Rightarrow> disk \<Rightarrow> nat fs_result" where
  "GetSliceSize H io sliceHash d = fs_bind (getSlicePath H io sliceHash d) (GetFileInfo_size io)"

definition remove_file :: "io \<Rightarrow> string \<Rightarrow> disk \<Rightarrow> unit fs_result" where
  "remove_file io p d =
     (if remove_err io p \<or> files d p = None then (Inl RemoveFailed, d)
      else (Inr (), d\<lparr>files := (files d)(p := None)\<rparr>))"

definition DeleteSlice :: "home \<Rightarrow> io \<Rightarrow> string \<Rightarrow> disk \<Rightarrow> unit fs_result" where
  "DeleteSlice H io sliceHash d = fs_bind (getSlicePath H io sliceHash d) (remove_file io)"

definition DeleteVerifySlice :: "home \<Rightarrow> io \<Rightarrow> string \<Rightarrow> disk \<Rightarrow> unit fs_result" where
  "DeleteVerifySlice H io sliceHash d = fs_bind (getVerifySlicePath H io sliceHash d) (remove_file io)"

section \<open>Slices in packets\<close>

definition MaxData :: nat where
  "MaxData = 1024 * 1024 * 3"

text \<open>
  \<open>RequestBuffersForSlice\<close> cuts a size into pieces of at most \<open>MaxData\<close>, and
  \<open>ReadFileDataToPackets\<close> fills them from the memory-mapped file.
\<close>

function buffer_sizes :: "nat \<Rightarrow> nat \<Rightarrow> nat list" where
  "buffer_sizes start sz =
     (if start < sz
      then (if start + MaxData > sz then sz - start else MaxData) # buffer_sizes (start + MaxData) sz
      else [])"
  by pat_completeness auto
termination
  by (relation "measure (\<lambda>(start, sz). sz - start)") (auto simp: MaxData_def)

declare buffer_sizes.simps [simp del]

definition RequestBuffersForSlice :: "nat \<Rightarrow> nat list" where
  "RequestBuffersForSlice sz = buffer_sizes 0 sz"

fun read_packets :: "bytes \<Rightarrow> nat \<Rightarrow> nat list \<Rightarrow> bytes list" where
  "read_packets f off [] = []"
| "read_packets f off (n # ns) = take n (drop off f) # read_packets f (off + MaxData) ns"

definition ReadFileDataToPackets :: "io \<Rightarrow> string \<Rightarrow> disk \<Rightarrow> (nat \<times> bytes list) fs_result" where
  "ReadFileDataToPackets io p d =
     fs_bind (GetFileInfo_size io p d) (\<lambda>sz d.
       (Inr (sz, read_packets (case files d p of None \<Rightarrow> [] | Some f \<Rightarrow> f) 0 (RequestBuffersForSlice sz)), d))"

definition mmap_open :: "io \<Rightarrow> string \<Rightarrow> disk \<Rightarrow> bool" where
  "mmap_open io p d \<longleftrightarrow> \<not> open_err io p \<and> files d p \<noteq> None"

definition ReadSliceDataFromTmp :: "home \<Rightarrow> io \<Rightarrow> string \<Rightarrow> string \<Rightarrow> disk \<Rightarrow> (nat \<times> bytes list) fs_result" where
  "ReadSliceDataFromTmp H io fileHash sliceHash d =
     (let p = GetTmpSlicePath H fileHash sliceHash
      in if mmap_open io p d then ReadFileDataToPackets io p d else (Inl OpenFailed, d))"

definition ReadSliceData :: "home \<Rightarrow> io \<Rightarrow> string \<Rightarrow> string \<Rightarrow> disk \<Rightarrow> (nat \<times> bytes list) fs_result" where
  "ReadSliceData H io fileHash sliceHash d =
     fs_bind (getSlicePath H io sliceHash d) (\<lambda>p d.
       if mmap_open io p d then ReadFileDataToPackets io p d
       else ReadSliceDataFromTmp H io fileHash sliceHash d)"

section \<open>The hash of a slice\<close>

text \<open>
  \<open>cid_hash\<close> is the multihash of a content identifier (empty when it cannot be decoded), \<open>mh_sum\<close> the
  Keccak multihash, \<open>cid_encode\<close> the textual form of a raw content identifier: all three belong to
  libraries.
\<close>

unbundle bit_operations_syntax

record hash_lib =
  cid_hash :: "string \<Rightarrow> bytes"
  mh_sum :: "bytes \<Rightarrow> bytes"
  cid_encode :: "bytes \<Rightarrow> string"

definition CalcSliceHash :: "hash_lib \<Rightarrow> bytes \<Rightarrow> string \<Rightarrow> u64 \<Rightarrow> string option" where
  "CalcSliceHash L data fileHash sliceNumber =
     (let fileKeccak256 = cid_hash L fileHash;
          sliceKeccak256 = mh_sum L (be_put 8 (unat sliceNumber) @ data)
      in if length fileKeccak256 \<noteq> length sliceKeccak256 then None
         else Some (cid_encode L (mh_sum L (map2 (XOR) fileKeccak256 sliceKeccak256))))"

section \<open>Results of file operations\<close>

lemma fs_bind_simps [simp]: "fs_bind (Inl e, d) f = (Inl e, d)" "fs_bind (Inr x, d) f = f x d"
  by (simp_all add: fs_bind_def)

lemma fs_bind_Inr: "fst (fs_bind m f) = Inr y \<longleftrightarrow> (\<exists>x d. m = (Inr x, d) \<and> fst (f x d) = Inr y)"
  by (auto simp: fs_bind_def split: prod.splits sum.splits)

text \<open>The path of a slice depends on its hash alone; only directories are created for it.\<close>

definition slice_file :: "string \<Rightarrow> string \<Rightarrow> string" where
  "slice_file folder hash = path_join [hashed_dir folder hash, hash]"

lemma slice_path_cases:
  obtains e where "slice_path_in folder io hash d = (Inl e, d)"
  | "slice_path_in folder io hash d = (Inr (slice_file folder hash), d)" "10 \<le> length hash"
  | "slice_path_in folder io hash d =
      (Inr (slice_file folder hash), d\<lparr>dirs := insert (hashed_dir folder hash) (dirs d)\<rparr>)" "10 \<le> length hash"
  by (fastforce simp: slice_path_in_def PathExists_def slice_file_def Let_def split: if_splits)

lemma slice_path_ok:
  "10 \<le> length hash \<Longrightarrow> \<exists>D. slice_path_in folder no_errors hash d = (Inr (slice_file folder hash), d\<lparr>dirs := D\<rparr>)"
  by (auto simp: slice_path_in_def PathExists_def slice_file_def Let_def no_errors_def intro: exI [of _ "dirs d"])

lemma write_file_ok:
  assumes "0 \<le> sint offset"
  shows "write_file_at no_errors p data offset d =
    (Inr (), d\<lparr>files := (files d)(p \<mapsto> write_at (case files d p of None \<Rightarrow> [] | Some f \<Rightarrow> f) (unat offset) data)\<rparr>)"
  using assms by (auto simp: write_file_at_def no_errors_def Let_def split: option.splits)

lemma sint_small: "unat (x :: u64) < 2 ^ 63 \<Longrightarrow> sint x = int (unat x)"
proof -
  assume "unat x < 2 ^ 63"
  then have "uint x < 2 ^ 63" by (metis of_nat_less_iff of_nat_numeral of_nat_power uint_nat)
  moreover have "- (2 ^ 63) \<le> uint x" by (rule order_trans [OF _ uint_ge_0]) simp
  ultimately have "signed_take_bit 63 (uint x) = uint x" by (intro signed_take_bit_int_eq_self)
  then show ?thesis by (simp add: sint_uint)
qed

section \<open>Distinct slices have distinct files\<close>

lemma split_slash_free: "CHR ''/'' \<notin> set h \<Longrightarrow> split_path h = [h]"
  by (induction h) auto

lemma split_path_ne: "split_path p \<noteq> []"
  by (induction p) (auto split: list.splits)

lemma split_append: "CHR ''/'' \<notin> set h \<Longrightarrow> split_path (p @ ''/'' @ h) = split_path p @ [h]"
proof (induction p)
  case Nil
  then show ?case by (simp add: split_slash_free)
next
  case (Cons c p)
  then show ?case using split_path_ne [of p] by (auto split: list.splits)
qed

lemma clean_comps_snoc:
  assumes "h \<noteq> []" "h \<noteq> ''.''" "h \<noteq> ''..''"
  shows "clean_comps r acc (xs @ [h]) = clean_comps r acc xs @ [h]"
  using assms by (induction r acc xs rule: clean_comps.induct) (auto split: list.splits)

definition base_name :: "string \<Rightarrow> string" where
  "base_name p = rev (takeWhile (\<lambda>c. c \<noteq> CHR ''/'') (rev p))"

lemma base_name_slash: "CHR ''/'' \<notin> set h \<Longrightarrow> base_name (p @ ''/'' @ h) = h"
proof -
  assume "CHR ''/'' \<notin> set h"
  then have "takeWhile (\<lambda>c. c \<noteq> CHR ''/'') (rev h @ CHR ''/'' # rev p) = rev h"
    by (subst takeWhile_append2) auto
  then show ?thesis by (simp add: base_name_def)
qed

lemma base_name_plain: "CHR ''/'' \<notin> set h \<Longrightarrow> base_name h = h"
proof -
  assume "CHR ''/'' \<notin> set h"
  then have "takeWhile (\<lambda>c. c \<noteq> CHR ''/'') (rev h) = rev h"
    by (subst takeWhile_eq_all_conv) auto
  then show ?thesis by (simp only: base_name_def rev_rev_ident)
qed

lemma glue_snoc: "glue (xs @ [h]) = (if xs = [] then h else glue xs @ ''/'' @ h)"
proof (induction xs rule: glue.induct)
  case (3 x y xs)
  then show ?case by simp
qed auto

lemma base_name_glue:
  assumes "CHR ''/'' \<notin> set h"
  shows "base_name (glue (xs @ [h])) = h" "base_name (''/'' @ glue (xs @ [h])) = h"
proof -
  show "base_name (glue (xs @ [h])) = h"
    using assms by (auto simp: glue_snoc base_name_slash [simplified] base_name_plain)
  show "base_name (''/'' @ glue (xs @ [h])) = h"
  proof (cases "xs = []")
    case True
    then show ?thesis using assms base_name_slash [of h "[]"] by simp
  next
    case False
    then show ?thesis using assms base_name_slash [of h "''/'' @ glue xs"] by (simp add: glue_snoc)
  qed
qed

text \<open>A hash that is a plain file name is the base name of its path, so the files of two slices differ.\<close>

definition plain_hash :: "string \<Rightarrow> bool" where
  "plain_hash h \<longleftrightarrow> 10 \<le> length h \<and> CHR ''/'' \<notin> set h"

lemma Clean_base:
  assumes "h \<noteq> []" "h \<noteq> ''.''" "h \<noteq> ''..''" "CHR ''/'' \<notin> set h" and "p \<noteq> []"
  shows "base_name (Clean (p @ ''/'' @ h)) = h"
proof -
  define r where "r = (hd p = CHR ''/'')"
  define cs where "cs = clean_comps r [] (split_path p)"
  have ne: "glue (cs @ [h]) \<noteq> []" using assms(1) by (simp add: glue_snoc)
  have "clean_comps r [] (split_path (p @ ''/'' @ h)) = cs @ [h]"
    unfolding cs_def split_append [OF assms(4)] by (rule clean_comps_snoc [OF assms(1-3)])
  moreover have "p @ ''/'' @ h \<noteq> [] \<and> hd (p @ ''/'' @ h) = CHR ''/'' \<longleftrightarrow> r"
    using assms(5) by (simp add: r_def)
  ultimately have "Clean (p @ ''/'' @ h) = (if r then ''/'' else []) @ glue (cs @ [h])"
    using ne unfolding Clean_def Let_def by simp
  then show ?thesis using base_name_glue [OF assms(4), of cs] by (cases r) simp_all
qed

lemma base_name_slice:
  assumes "plain_hash h" and "p \<noteq> []"
  shows "base_name (path_join [p, h]) = h"
proof -
  from assms(1) have h: "h \<noteq> []" "h \<noteq> ''.''" "h \<noteq> ''..''" "CHR ''/'' \<notin> set h"
    by (auto simp: plain_hash_def)
  have "path_join [p, h] = Clean (p @ ''/'' @ h)" using h(1) assms(2) by (simp add: path_join_def)
  with Clean_base [OF h assms(2)] show ?thesis by simp
qed

lemma hashed_dir_ne: "folder \<noteq> [] \<Longrightarrow> hashed_dir folder hash \<noteq> []"
  by (auto simp: hashed_dir_def path_join_def Clean_def Let_def)

lemma base_name_slice_file: "plain_hash h \<Longrightarrow> folder \<noteq> [] \<Longrightarrow> base_name (slice_file folder h) = h"
  unfolding slice_file_def by (intro base_name_slice hashed_dir_ne)

lemma slice_file_inj:
  assumes "plain_hash h" "plain_hash h'" "folder \<noteq> []" "slice_file folder h = slice_file folder h'"
  shows "h = h'"
  using base_name_slice_file [OF assms(1,3)] base_name_slice_file [OF assms(2,3)] assms(4) by metis

text \<open>A hash with separators leads out of the storage folder: \<open>filepath.Join\<close> resolves the dots.\<close>

theorem slice_path_escapes:
  "slice_file ''/sds/storage'' ''../../../../etc/cron.d/x'' = ''/etc/cron.d/x''"
  by code_simp

section \<open>Reassembly\<close>

text \<open>
  Pieces of a content \<open>c\<close> written to a file: the file agrees with \<open>c\<close> at the positions written so far
  and is never longer than \<open>c\<close>. When all positions have been written, the file is \<open>c\<close>.
\<close>

definition agrees :: "bytes \<Rightarrow> bytes \<Rightarrow> nat set \<Rightarrow> bool" where
  "agrees f c S \<longleftrightarrow> length f \<le> length c \<and> (\<forall>k\<in>S. k < length f \<and> f ! k = c ! k)"

lemma length_write_at:
  "length (write_at f off data) = (if data = [] then length f else max (length f) (off + length data))"
  by (auto simp: write_at_def)

lemma nth_write_at:
  assumes "k < length (write_at f off data)" and "data \<noteq> []"
  shows "write_at f off data ! k =
    (if off \<le> k \<and> k < off + length data then data ! (k - off) else if k < length f then f ! k else 0)"
proof -
  define g where "g = take off (f @ replicate (off - length f) 0)"
  have g: "length g = off" "\<And>i. i < off \<Longrightarrow> g ! i = (if i < length f then f ! i else 0)"
    by (auto simp: g_def nth_append)
  have eq: "write_at f off data = g @ data @ drop (off + length data) f"
    using assms(2) by (simp add: write_at_def g_def)
  consider "k < off" | "off \<le> k" "k < off + length data" | "off + length data \<le> k" by linarith
  then show ?thesis
  proof cases
    case 1
    then show ?thesis by (simp add: eq nth_append g)
  next
    case 2
    moreover from 2 have "k - off < length data" by auto
    ultimately show ?thesis by (simp add: eq nth_append g)
  next
    case 3
    moreover from 3 have "\<not> k - off < length data" by linarith
    moreover have "k < length f" using assms 3 by (auto simp: length_write_at split: if_splits)
    ultimately show ?thesis by (simp add: eq nth_append g)
  qed
qed

lemma agrees_empty: "agrees [] c {}"
  by (simp add: agrees_def)

lemma write_agrees:
  assumes "agrees f c S" and "off + n \<le> length c"
  shows "agrees (write_at f off (take n (drop off c))) c (S \<union> {off..<off + n})"
proof (cases "n = 0")
  case True
  with assms show ?thesis by (simp add: write_at_def)
next
  case False
  let ?d = "take n (drop off c)"
  have d: "length ?d = n" "?d \<noteq> []" using assms(2) False by auto
  have len: "length (write_at f off ?d) = max (length f) (off + n)" using d by (simp add: length_write_at)
  have "write_at f off ?d ! k = c ! k" if "k \<in> S \<union> {off..<off + n}" for k
    using that assms d len by (subst nth_write_at) (auto simp: agrees_def)
  then show ?thesis using assms len by (auto simp: agrees_def)
qed

lemma agrees_all: "agrees f c {0..<length c} \<Longrightarrow> f = c"
proof -
  assume a: "agrees f c {0..<length c}"
  then have "length c \<le> length f" by (cases "length c") (auto simp: agrees_def dest!: bspec [of _ _ "length c - 1"])
  with a show ?thesis by (auto simp: agrees_def intro!: nth_equalityI)
qed

text \<open>The packets of a slice: piece \<open>i\<close> starts at \<open>i * MaxData\<close>, and together they are the slice.\<close>

definition piece :: "bytes \<Rightarrow> nat \<Rightarrow> bytes" where
  "piece f i = take MaxData (drop (i * MaxData) f)"

definition piece_count :: "bytes \<Rightarrow> nat" where
  "piece_count f = (length f + MaxData - 1) div MaxData"

lemma MaxData_pos: "0 < MaxData"
  by (simp add: MaxData_def)

lemma buffer_sizes_step:
  "start < sz \<Longrightarrow> buffer_sizes start sz = min MaxData (sz - start) # buffer_sizes (start + MaxData) sz"
  by (subst buffer_sizes.simps) auto

lemma read_packets_eq:
  assumes "i \<le> piece_count f"
  shows "read_packets f (i * MaxData) (buffer_sizes (i * MaxData) (length f)) = map (piece f) [i..<piece_count f]"
  using assms
proof (induction "piece_count f - i" arbitrary: i)
  case 0
  then have "i = piece_count f" by simp
  then have "\<not> i * MaxData < length f"
    using MaxData_pos by (simp add: piece_count_def not_less) (simp add: MaxData_def)
  then have "buffer_sizes (i * MaxData) (length f) = []" by (subst buffer_sizes.simps) simp
  with \<open>i = piece_count f\<close> show ?case by simp
next
  case (Suc n)
  then have i: "i < piece_count f" by simp
  then have less: "i * MaxData < length f" by (simp add: piece_count_def MaxData_def)
  have "read_packets f (Suc i * MaxData) (buffer_sizes (Suc i * MaxData) (length f)) =
      map (piece f) [Suc i..<piece_count f]"
    using Suc i by (intro Suc.hyps) auto
  then show ?case
    using less i by (simp add: buffer_sizes_step upt_conv_Cons piece_def add.commute min_def)
qed

lemma packets_eq: "read_packets f 0 (RequestBuffersForSlice (length f)) = map (piece f) [0..<piece_count f]"
  using read_packets_eq [of 0 f] by (simp add: RequestBuffersForSlice_def)

lemma piece_length: "i < piece_count f \<Longrightarrow> length (piece f i) = min MaxData (length f - i * MaxData)"
  by (simp add: piece_def)

lemma piece_bound: "i < piece_count f \<Longrightarrow> i * MaxData < length f"
  by (simp add: piece_count_def MaxData_def)

lemma piece_cover: "(\<Union>i<piece_count f. {i * MaxData..<i * MaxData + length (piece f i)}) = {0..<length f}"
proof (intro equalityI subsetI)
  fix k assume "k \<in> (\<Union>i<piece_count f. {i * MaxData..<i * MaxData + length (piece f i)})"
  then show "k \<in> {0..<length f}" by (auto simp: piece_def)
next
  fix k assume "k \<in> {0..<length f}"
  then have k: "k < length f" by simp
  define i where "i = k div MaxData"
  have "i * MaxData \<le> k" "k < i * MaxData + MaxData"
    using MaxData_pos dividend_less_div_times [of MaxData k] by (simp_all add: i_def add.commute)
  moreover from this k have "i < piece_count f"
    unfolding piece_count_def i_def by (simp add: MaxData_def)
  ultimately show "k \<in> (\<Union>i<piece_count f. {i * MaxData..<i * MaxData + length (piece f i)})"
    using k by (auto simp: piece_def intro!: bexI [of _ i])
qed

lemma piece_before: "i < j \<Longrightarrow> i * MaxData + length (piece f i) \<le> j * MaxData"
proof -
  assume "i < j"
  then have "Suc i * MaxData \<le> j * MaxData" by (intro mult_le_mono1) simp
  then show ?thesis by (simp add: piece_def)
qed

lemma pieces_sum: "(\<Sum>i<piece_count f. length (piece f i)) = length f"
proof -
  have disj: "{i * MaxData..<i * MaxData + length (piece f i)} \<inter> {j * MaxData..<j * MaxData + length (piece f j)} = {}"
    if "i \<noteq> j" for i j
    using that piece_before [of i j f] piece_before [of j i f] by (cases "i < j") auto
  have "card (\<Union>i<piece_count f. {i * MaxData..<i * MaxData + length (piece f i)}) =
      (\<Sum>i<piece_count f. card {i * MaxData..<i * MaxData + length (piece f i)})"
    by (rule card_UN_disjoint) (use disj in auto)
  then show ?thesis by (simp add: piece_cover)
qed

end
