(* ===== verification/Cost_Time.thy ===== *)
theory Cost_Time
  imports Auto_Clean_Map
begin

text \<open>
  Time statistics of the packets of a slice (\<open>pp/event/download_slice.go\<close>, \<open>pp/event/upload_slice.go\<close>).
  A packet that is queued counts up, a packet that has been written counts down and adds its time; the
  slice has been sent when the count is back at zero and some time was spent. The maps are
  \<open>AutoCleanUnsafeMap\<close>s: the same code as \<open>AutoCleanMap\<close> without its own lock, used under the lock of the
  statistics.
\<close>

type_synonym 'v AutoCleanUnsafeMap = "(string, 'v) AutoCleanMap"

definition aum_Store :: "'v AutoCleanUnsafeMap \<Rightarrow> string \<Rightarrow> 'v \<Rightarrow> 'v AutoCleanUnsafeMap" where
  "aum_Store = acm_Store"

definition aum_Load :: "'v AutoCleanUnsafeMap \<Rightarrow> string \<Rightarrow> 'v option \<times> 'v AutoCleanUnsafeMap" where
  "aum_Load = acm_Load"

definition aum_Delete :: "'v AutoCleanUnsafeMap \<Rightarrow> string \<Rightarrow> 'v AutoCleanUnsafeMap" where
  "aum_Delete = acm_Delete"

interpretation aum: kv_store LoadWithoutPushDelete aum_Store aum_Load aum_Delete
  unfolding aum_Store_def aum_Load_def aum_Delete_def by unfold_locales

record CostTimeStat =
  TotalCostTime :: int
  PacketCount :: int

definition no_cost :: CostTimeStat where
  "no_cost = \<lparr>TotalCostTime = 0, PacketCount = 0\<rparr>"

definition sent_completely :: "CostTimeStat \<Rightarrow> bool" where
  "sent_completely s \<longleftrightarrow> PacketCount s = 0 \<and> TotalCostTime s > 0"

section \<open>Sending\<close>

definition StartSendPacket ::
  "string \<Rightarrow> CostTimeStat AutoCleanUnsafeMap \<Rightarrow> CostTimeStat \<times> CostTimeStat AutoCleanUnsafeMap" where
  "StartSendPacket key m =
     (let (v, m1) = aum_Load m key;
          before = (case v of None \<Rightarrow> no_cost | Some s \<Rightarrow> s);
          after = \<lparr>TotalCostTime = TotalCostTime before, PacketCount = PacketCount before + 1\<rparr>
      in (after, aum_Store m1 key after))"

definition FinishSendPacket ::
  "string \<Rightarrow> int \<Rightarrow> CostTimeStat AutoCleanUnsafeMap \<Rightarrow> CostTimeStat \<times> CostTimeStat AutoCleanUnsafeMap" where
  "FinishSendPacket key costTime m =
     (let (v, m1) = aum_Load m key
      in case v of
           None \<Rightarrow> (no_cost, m1)
         | Some before \<Rightarrow>
            (let after = \<lparr>TotalCostTime = TotalCostTime before + costTime, PacketCount = PacketCount before - 1\<rparr>
             in (after, if 0 \<le> PacketCount after then aum_Store m1 key after else m1)))"

definition CheckSendSliceCompletion ::
  "string \<Rightarrow> CostTimeStat AutoCleanUnsafeMap \<Rightarrow> bool \<times> CostTimeStat AutoCleanUnsafeMap" where
  "CheckSendSliceCompletion key m =
     (let (v, m1) = aum_Load m key
      in (case v of None \<Rightarrow> False | Some s \<Rightarrow> sent_completely s, m1))"

definition GetCompletedTotalCostTime ::
  "string \<Rightarrow> CostTimeStat AutoCleanUnsafeMap \<Rightarrow> int option \<times> CostTimeStat AutoCleanUnsafeMap" where
  "GetCompletedTotalCostTime key m =
     (let (v, m1) = aum_Load m key
      in (case v of None \<Rightarrow> None | Some s \<Rightarrow> if sent_completely s then Some (TotalCostTime s) else None, m1))"

definition DeleteSendRecord :: "string \<Rightarrow> CostTimeStat AutoCleanUnsafeMap \<Rightarrow> CostTimeStat AutoCleanUnsafeMap" where
  "DeleteSendRecord key m = aum_Delete m key"

section \<open>Receiving\<close>

definition AddCostTime :: "string \<Rightarrow> int \<Rightarrow> int AutoCleanUnsafeMap \<Rightarrow> int \<times> int AutoCleanUnsafeMap" where
  "AddCostTime key costTime m =
     (let (v, m1) = aum_Load m key;
          total_cost = costTime + (case v of None \<Rightarrow> 0 | Some t \<Rightarrow> t)
      in (total_cost, if 0 < costTime then aum_Store m1 key total_cost else m1))"

definition DeleteRecvRecord :: "string \<Rightarrow> int AutoCleanUnsafeMap \<Rightarrow> int AutoCleanUnsafeMap" where
  "DeleteRecvRecord key m = aum_Delete m key"

section \<open>Counting packets\<close>

text \<open>What is recorded for a key, without the bookkeeping of the expiry.\<close>

abbreviation cost_of :: "'v AutoCleanUnsafeMap \<Rightarrow> string \<Rightarrow> 'v option" where
  "cost_of \<equiv> LoadWithoutPushDelete"

datatype packet_event = Started | Finished int

fun packet_step :: "string \<Rightarrow> CostTimeStat AutoCleanUnsafeMap \<Rightarrow> packet_event \<Rightarrow> CostTimeStat AutoCleanUnsafeMap" where
  "packet_step key m Started = snd (StartSendPacket key m)"
| "packet_step key m (Finished t) = snd (FinishSendPacket key t m)"

fun started_count :: "packet_event list \<Rightarrow> int" where
  "started_count [] = 0"
| "started_count (Started # es) = 1 + started_count es"
| "started_count (Finished t # es) = started_count es"

fun finished_times :: "packet_event list \<Rightarrow> int list" where
  "finished_times [] = []"
| "finished_times (Started # es) = finished_times es"
| "finished_times (Finished t # es) = t # finished_times es"

text \<open>Every packet is started before it is finished.\<close>

fun well_nested :: "nat \<Rightarrow> packet_event list \<Rightarrow> bool" where
  "well_nested open_count [] = True"
| "well_nested open_count (Started # es) = well_nested (Suc open_count) es"
| "well_nested open_count (Finished t # es) = (0 < open_count \<and> well_nested (open_count - 1) es)"

lemma cost_of_start:
  "cost_of (snd (StartSendPacket key m)) k =
     (if k = key then
        Some (let b = (case cost_of m key of None \<Rightarrow> no_cost | Some s \<Rightarrow> s)
              in \<lparr>TotalCostTime = TotalCostTime b, PacketCount = PacketCount b + 1\<rparr>)
      else cost_of m k)"
  using aum.load_value [of m key] aum.peek_load [of m key]
  by (auto simp: StartSendPacket_def Let_def aum.peek_store split: prod.splits)

lemma cost_of_finish:
  "cost_of (snd (FinishSendPacket key t m)) k =
     (if k = key then
        (case cost_of m key of None \<Rightarrow> None
         | Some b \<Rightarrow> Some (if 0 < PacketCount b
             then \<lparr>TotalCostTime = TotalCostTime b + t, PacketCount = PacketCount b - 1\<rparr> else b))
      else cost_of m k)"
  using aum.load_value [of m key] aum.peek_load [of m key]
  by (auto simp: FinishSendPacket_def Let_def aum.peek_store split: prod.splits option.splits)

lemma packets_counted:
  assumes "cost_of m key = Some s" and "PacketCount s = int n" and "well_nested n es"
  shows "cost_of (foldl (packet_step key) m es) key =
    Some \<lparr>TotalCostTime = TotalCostTime s + sum_list (finished_times es),
          PacketCount = PacketCount s + started_count es - int (length (finished_times es))\<rparr>"
  using assms
proof (induction es arbitrary: m s n)
  case (Cons e es)
  show ?case
  proof (cases e)
    case Started
    let ?s = "\<lparr>TotalCostTime = TotalCostTime s, PacketCount = PacketCount s + 1\<rparr>"
    have "cost_of (snd (StartSendPacket key m)) key = Some ?s"
      using Cons.prems by (simp add: cost_of_start)
    moreover have "PacketCount ?s = int (Suc n)" "well_nested (Suc n) es"
      using Cons.prems(2,3) Started by simp_all
    ultimately have "cost_of (foldl (packet_step key) (snd (StartSendPacket key m)) es) key =
        Some \<lparr>TotalCostTime = TotalCostTime ?s + sum_list (finished_times es),
              PacketCount = PacketCount ?s + started_count es - int (length (finished_times es))\<rparr>"
      by (rule Cons.IH)
    then show ?thesis by (simp add: Started)
  next
    case (Finished t)
    let ?s = "\<lparr>TotalCostTime = TotalCostTime s + t, PacketCount = PacketCount s - 1\<rparr>"
    have "cost_of (snd (FinishSendPacket key t m)) key = Some ?s"
      using Cons.prems Finished by (simp add: cost_of_finish)
    moreover have "PacketCount ?s = int (n - 1)" "well_nested (n - 1) es"
      using Cons.prems(2,3) Finished by auto
    ultimately have "cost_of (foldl (packet_step key) (snd (FinishSendPacket key t m)) es) key =
        Some \<lparr>TotalCostTime = TotalCostTime ?s + sum_list (finished_times es),
              PacketCount = PacketCount ?s + started_count es - int (length (finished_times es))\<rparr>"
      by (rule Cons.IH)
    then show ?thesis by (simp add: Finished)
  qed
qed simp

text \<open>
  A slice whose packets are started and written, in any order in which a packet is started first, is
  complete exactly when all started packets have been written and took some time.
\<close>

lemma completed_iff_all_written:
  assumes "cost_of m key = None" and "well_nested 0 (Started # es)"
  shows "fst (GetCompletedTotalCostTime key (foldl (packet_step key) m (Started # es))) =
    (if started_count (Started # es) = int (length (finished_times es)) \<and> 0 < sum_list (finished_times es)
     then Some (sum_list (finished_times es)) else None)"
proof -
  let ?m = "snd (StartSendPacket key m)"
  have "cost_of ?m key = Some \<lparr>TotalCostTime = 0, PacketCount = 1\<rparr>"
    using assms(1) by (simp add: cost_of_start no_cost_def)
  from packets_counted [OF this, of 1 es] assms(2)
  have "cost_of (foldl (packet_step key) m (Started # es)) key =
      Some \<lparr>TotalCostTime = sum_list (finished_times es),
            PacketCount = 1 + started_count es - int (length (finished_times es))\<rparr>" by simp
  with aum.load_value [of "foldl (packet_step key) m (Started # es)" key] show ?thesis
    by (auto simp: GetCompletedTotalCostTime_def sent_completely_def Let_def split: prod.splits)
qed

end
