(* ===== verification/Slice_Transfer.thy ===== *)
theory Slice_Transfer
  imports Slice_Store Cost_Time "HOL-Library.AList"
begin

text \<open>
  Slices that move between storage nodes: backup and transfer of a slice (\<open>pp/task/transfer_task.go\<close>,
  \<open>pp/event/transfer_slice.go\<close>) and the verification of a slice by another node
  (\<open>pp/task/verify_task.go\<close>, \<open>pp/event/verify_slice.go\<close>), after a message has been verified and decoded.
  A handler is one step on the state of a node; the messages it sends are collected in the outbox.
\<close>

section \<open>Decimal numbers in keys\<close>

function digits :: "nat \<Rightarrow> string" where
  "digits n = (if n < 10 then [char_of (48 + n)] else digits (n div 10) @ [char_of (48 + n mod 10)])"
  by pat_completeness auto
termination
  by (relation "measure id") auto

declare digits.simps [simp del]

definition FormatUint :: "u64 \<Rightarrow> string" where
  "FormatUint x = digits (unat x)"

definition FormatInt :: "int \<Rightarrow> string" where
  "FormatInt i = (if i < 0 then CHR ''-'' # digits (nat (- i)) else digits (nat i))"

section \<open>Data\<close>

record PPBaseInfo =
  pp_P2PAddress :: string
  pp_NetworkAddress :: string

record SliceStorageInfo =
  SliceSize :: u64
  SliceHash :: string

record TransferTask =
  TaskId :: string
  IsReceiver :: bool
  DeleteOrigin :: bool
  PpInfo :: PPBaseInfo
  StorageInfo :: SliceStorageInfo
  FileHash :: string
  SliceNum :: u64
  ReceiverP2pAddress :: string
  SpP2pAddress :: string
  AlreadySize :: u64
  LastTouchTime :: int

type_synonym VerifyTask = TransferTask

definition TRANSFER_TASK_TIMEOUT_THRESHOLD :: int where
  "TRANSFER_TASK_TIMEOUT_THRESHOLD = 180"

text \<open>The notice of an SP, for a backup and, with the same fields, for a verification.\<close>

record BackupNotice =
  n_FileHash :: string
  n_PpInfo :: PPBaseInfo
  n_StorageInfo :: SliceStorageInfo
  n_ToP2PAddress :: string
  n_SpP2PAddress :: string
  n_TaskId :: string
  n_SliceNumber :: u64
  n_DeleteOrigin :: bool
  n_TimeStamp :: int

type_synonym VerifyNotice = BackupNotice

text \<open>A piece of a slice on its way; \<open>d_SliceNumber\<close> is used by verifications only.\<close>

record piece_msg =
  d_Data :: bytes
  d_TaskId :: string
  d_SliceHash :: string
  d_SpP2PAddress :: string
  d_P2PAddress :: string
  d_Offset :: u64
  d_SliceSize :: u64
  d_SliceNumber :: u64

record slice_report =
  r_TaskId :: string
  r_FileHash :: string
  r_SliceHash :: string
  r_Success :: bool
  r_IsReceiver :: bool
  r_OriginDeleted :: bool
  r_SliceNumber :: u64
  r_SliceSize :: u64
  r_SpP2PAddress :: string
  r_CostTime :: int
  r_PpP2PAddress :: string
  r_OpponentP2PAddress :: string

datatype pp_out =
    OutReqTransferDownload string BackupNotice
  | OutReqTransferDownloadWrong BackupNotice
  | OutReqVerifyDownload string VerifyNotice
  | OutRspTransferDownload piece_msg
  | OutRspTransferRefused
  | OutRspVerifyDownload piece_msg
  | OutRspTransferDownloadResult string string string
  | OutRspVerifyDownloadResult string string string
  | OutReportBackupSliceResult slice_report
  | OutReportVerifyResult slice_report

record slice_node =
  transferTaskMap :: "(string \<times> TransferTask) list"
  verifyTaskMap :: "(string \<times> VerifyTask) list"
  the_disk :: disk
  transferSliceSpamCheckMap :: "(string, unit) AutoCleanMap"
  DownSendCostTimeMap :: "CostTimeStat AutoCleanUnsafeMap"
  DownRecvCostTimeMap :: "int AutoCleanUnsafeMap"
  outbox :: "pp_out list"

record pp_env =
  pe_home :: home
  pe_io :: io
  pe_hash :: hash_lib
  pe_address :: string
  pe_now :: int
  pe_reachable :: "string \<Rightarrow> bool"

definition send :: "pp_out \<Rightarrow> slice_node \<Rightarrow> slice_node" where
  "send m N = N\<lparr>outbox := outbox N @ [m]\<rparr>"

section \<open>The tables of tasks\<close>

definition AddTransferTask :: "string \<Rightarrow> string \<Rightarrow> TransferTask \<Rightarrow> slice_node \<Rightarrow> slice_node" where
  "AddTransferTask taskId sliceHash t N =
     N\<lparr>transferTaskMap := AList.update (taskId @ sliceHash) t (transferTaskMap N)\<rparr>"

definition GetOngoingTransferTaskCnt :: "slice_node \<Rightarrow> nat" where
  "GetOngoingTransferTaskCnt N = length (transferTaskMap N)"

definition GetTransferTaskByTaskSliceUID :: "string \<Rightarrow> slice_node \<Rightarrow> TransferTask option" where
  "GetTransferTaskByTaskSliceUID uid N = map_of (transferTaskMap N) uid"

definition GetTransferTask :: "string \<Rightarrow> string \<Rightarrow> slice_node \<Rightarrow> TransferTask option" where
  "GetTransferTask taskId sliceHash N = map_of (transferTaskMap N) (taskId @ sliceHash)"

definition touched :: "int \<Rightarrow> u64 \<Rightarrow> TransferTask \<Rightarrow> TransferTask" where
  "touched now delta t = t\<lparr>AlreadySize := AlreadySize t + delta, LastTouchTime := now\<rparr>"

definition AddAlreadySizeToTransferTask ::
  "int \<Rightarrow> string \<Rightarrow> string \<Rightarrow> u64 \<Rightarrow> slice_node \<Rightarrow> TransferTask option \<times> slice_node" where
  "AddAlreadySizeToTransferTask now taskId sliceHash delta N =
     (case map_of (transferTaskMap N) (taskId @ sliceHash) of
        None \<Rightarrow> (None, N)
      | Some t \<Rightarrow> (Some (touched now delta t),
          N\<lparr>transferTaskMap := AList.update (taskId @ sliceHash) (touched now delta t) (transferTaskMap N)\<rparr>))"

definition CleanTransferTaskByTaskSliceUID :: "string \<Rightarrow> slice_node \<Rightarrow> slice_node" where
  "CleanTransferTaskByTaskSliceUID uid N = N\<lparr>transferTaskMap := AList.delete uid (transferTaskMap N)\<rparr>"

definition CleanTransferTask :: "string \<Rightarrow> string \<Rightarrow> slice_node \<Rightarrow> slice_node" where
  "CleanTransferTask taskId sliceHash N =
     N\<lparr>transferTaskMap := AList.delete (taskId @ sliceHash) (transferTaskMap N)\<rparr>"

definition GetTimeoutTransfer :: "int \<Rightarrow> slice_node \<Rightarrow> string list" where
  "GetTimeoutTransfer now N =
     map fst (filter (\<lambda>(_, t). LastTouchTime t + TRANSFER_TASK_TIMEOUT_THRESHOLD < now) (transferTaskMap N))"

definition AddVerifyTask :: "string \<Rightarrow> string \<Rightarrow> VerifyTask \<Rightarrow> slice_node \<Rightarrow> slice_node" where
  "AddVerifyTask taskId sliceHash t N =
     N\<lparr>verifyTaskMap := AList.update (taskId @ sliceHash) t (verifyTaskMap N)\<rparr>"

definition GetVerifyTask :: "string \<Rightarrow> string \<Rightarrow> slice_node \<Rightarrow> VerifyTask option" where
  "GetVerifyTask taskId sliceHash N = map_of (verifyTaskMap N) (taskId @ sliceHash)"

definition AddAlreadySizeToVerifyTask ::
  "int \<Rightarrow> string \<Rightarrow> string \<Rightarrow> u64 \<Rightarrow> slice_node \<Rightarrow> VerifyTask option \<times> slice_node" where
  "AddAlreadySizeToVerifyTask now taskId sliceHash delta N =
     (case map_of (verifyTaskMap N) (taskId @ sliceHash) of
        None \<Rightarrow> (None, N)
      | Some t \<Rightarrow> (Some (touched now delta t),
          N\<lparr>verifyTaskMap := AList.update (taskId @ sliceHash) (touched now delta t) (verifyTaskMap N)\<rparr>))"

section \<open>Slice data of a task\<close>

definition read_slice :: "pp_env \<Rightarrow> string \<Rightarrow> string \<Rightarrow> slice_node \<Rightarrow> (nat \<times> bytes list) \<times> slice_node" where
  "read_slice E fileHash sliceHash N =
     (case ReadSliceData (pe_home E) (pe_io E) fileHash sliceHash (the_disk N) of
        (Inl _, d) \<Rightarrow> ((0, []), N\<lparr>the_disk := d\<rparr>)
      | (Inr x, d) \<Rightarrow> (x, N\<lparr>the_disk := d\<rparr>))"

definition GetTransferSliceData :: "pp_env \<Rightarrow> string \<Rightarrow> string \<Rightarrow> slice_node \<Rightarrow> (nat \<times> bytes list) \<times> slice_node" where
  "GetTransferSliceData E taskId sliceHash N =
     (case GetTransferTask taskId sliceHash N of
        None \<Rightarrow> ((0, []), N)
      | Some t \<Rightarrow> read_slice E (FileHash t) (SliceHash (StorageInfo t)) N)"

definition GetVerifySliceData_task :: "pp_env \<Rightarrow> string \<Rightarrow> string \<Rightarrow> slice_node \<Rightarrow> (nat \<times> bytes list) \<times> slice_node" where
  "GetVerifySliceData_task E taskId sliceHash N =
     (case GetVerifyTask taskId sliceHash N of
        None \<Rightarrow> ((0, []), N)
      | Some t \<Rightarrow> read_slice E (FileHash t) (SliceHash (StorageInfo t)) N)"

datatype transfer_error =
    NoTask | SaveFailed file_error | UpdateFailed | SizeFailed file_error | DataFailed file_error
  | HashFailed | HashMismatch

definition with_disk :: "'a fs_result \<Rightarrow> (file_error \<Rightarrow> transfer_error) \<Rightarrow> slice_node \<Rightarrow>
    ('a \<Rightarrow> slice_node \<Rightarrow> (transfer_error + 'b) \<times> slice_node) \<Rightarrow> (transfer_error + 'b) \<times> slice_node" where
  "with_disk m err N f =
     (case m of (Inl e, d) \<Rightarrow> (Inl (err e), N\<lparr>the_disk := d\<rparr>) | (Inr x, d) \<Rightarrow> f x (N\<lparr>the_disk := d\<rparr>))"

definition transfer_complete :: "pp_env \<Rightarrow> piece_msg \<Rightarrow> TransferTask \<Rightarrow> slice_node \<Rightarrow> (transfer_error + bool) \<times> slice_node" where
  "transfer_complete E target t N =
     with_disk (GetSliceSize (pe_home E) (pe_io E) (SliceHash (StorageInfo t)) (the_disk N)) SizeFailed N (\<lambda>sz N.
       if word_of_nat sz < SliceSize (StorageInfo t) \<or> AlreadySize t < d_SliceSize target then (Inr False, N)
       else with_disk (GetSliceData (pe_home E) (pe_io E) (SliceHash (StorageInfo t)) (the_disk N)) DataFailed N (\<lambda>data N.
         (case CalcSliceHash (pe_hash E) data (FileHash t) (SliceNum t) of
            None \<Rightarrow> (Inl HashFailed, N)
          | Some h \<Rightarrow> if SliceHash (StorageInfo t) \<noteq> h then (Inl HashMismatch, N) else (Inr True, N))))"

definition SaveTransferData :: "pp_env \<Rightarrow> piece_msg \<Rightarrow> slice_node \<Rightarrow> (transfer_error + bool) \<times> slice_node" where
  "SaveTransferData E target N =
     (case GetTransferTask (d_TaskId target) (d_SliceHash target) N of
        None \<Rightarrow> (Inl NoTask, N)
      | Some t0 \<Rightarrow>
        with_disk (SaveSliceData (pe_home E) (pe_io E) (d_Data target) (SliceHash (StorageInfo t0)) (d_Offset target) (the_disk N))
          SaveFailed N (\<lambda>_ N.
        (case AddAlreadySizeToTransferTask (pe_now E) (d_TaskId target) (d_SliceHash target)
                (word_of_nat (length (d_Data target))) N of
           (None, N) \<Rightarrow> (Inl UpdateFailed, N)
         | (Some t, N) \<Rightarrow> transfer_complete E target t N)))"

text \<open>
  A verification writes to the folder of verified slices and removes the slice when it is complete. A
  failed write is not reported, and slice number 0 skips both the write and the check.
\<close>

definition SaveVerifyData :: "pp_env \<Rightarrow> piece_msg \<Rightarrow> slice_node \<Rightarrow> (transfer_error + bool) \<times> slice_node" where
  "SaveVerifyData E target N =
     (case GetVerifyTask (d_TaskId target) (d_SliceHash target) N of
        None \<Rightarrow> (Inl NoTask, N)
      | Some t0 \<Rightarrow>
        let saved = (if d_SliceNumber target \<noteq> 0
              then SaveVerifySliceData (pe_home E) (pe_io E) (d_Data target) (SliceHash (StorageInfo t0)) (d_Offset target) (the_disk N)
              else (Inr (), the_disk N));
            N = N\<lparr>the_disk := snd saved\<rparr>
        in if fst saved \<noteq> Inr () then (Inr False, N)
           else (case AddAlreadySizeToVerifyTask (pe_now E) (d_TaskId target) (d_SliceHash target)
                   (word_of_nat (length (d_Data target))) N of
              (None, N) \<Rightarrow> (Inl UpdateFailed, N)
            | (Some t, N) \<Rightarrow>
              if AlreadySize t < d_SliceSize target then (Inr False, N)
              else if d_SliceNumber target = 0 then (Inr True, N)
              else with_disk (GetVerifySliceData (pe_home E) (pe_io E) (SliceHash (StorageInfo t)) (the_disk N)) DataFailed N (\<lambda>data N.
                let h = CalcSliceHash (pe_hash E) data (FileHash t) (SliceNum t);
                    N = N\<lparr>the_disk := snd (DeleteVerifySlice (pe_home E) (pe_io E) (SliceHash (StorageInfo t)) (the_disk N))\<rparr>
                in if SliceHash (StorageInfo t) \<noteq> (case h of None \<Rightarrow> [] | Some x \<Rightarrow> x) then (Inl HashMismatch, N)
                   else if h = None then (Inl HashFailed, N) else (Inr True, N))))"

section \<open>Handlers of a transfer\<close>

definition SendReportBackupSliceResult ::
  "pp_env \<Rightarrow> string \<Rightarrow> string \<Rightarrow> string \<Rightarrow> bool \<Rightarrow> bool \<Rightarrow> int \<Rightarrow> slice_node \<Rightarrow> slice_node" where
  "SendReportBackupSliceResult E taskId sliceHash sp result originDeleted costTime N =
     (case GetTransferTask taskId sliceHash N of
        None \<Rightarrow> N
      | Some t \<Rightarrow> send (OutReportBackupSliceResult
          \<lparr>r_TaskId = taskId, r_FileHash = FileHash t, r_SliceHash = SliceHash (StorageInfo t),
           r_Success = result, r_IsReceiver = IsReceiver t, r_OriginDeleted = originDeleted,
           r_SliceNumber = SliceNum t, r_SliceSize = SliceSize (StorageInfo t), r_SpP2PAddress = sp,
           r_CostTime = costTime, r_PpP2PAddress = pe_address E,
           r_OpponentP2PAddress =
             (if IsReceiver t then pp_P2PAddress (PpInfo t) else ReceiverP2pAddress t)\<rparr>) N)"

definition NoticeFileSliceBackup :: "pp_env \<Rightarrow> BackupNotice \<Rightarrow> slice_node \<Rightarrow> slice_node" where
  "NoticeFileSliceBackup E target N =
     (if pp_P2PAddress (n_PpInfo target) = pe_address E then N
      else let t = \<lparr>TaskId = n_TaskId target, IsReceiver = True, DeleteOrigin = n_DeleteOrigin target,
                 PpInfo = n_PpInfo target, StorageInfo = n_StorageInfo target, FileHash = n_FileHash target,
                 SliceNum = n_SliceNumber target, ReceiverP2pAddress = n_ToP2PAddress target,
                 SpP2pAddress = n_SpP2PAddress target, AlreadySize = 0, LastTouchTime = pe_now E\<rparr>;
               N1 = AddTransferTask (n_TaskId target) (SliceHash (n_StorageInfo target)) t N
      in if pe_reachable E (pp_NetworkAddress (n_PpInfo target))
         then send (OutReqTransferDownload (pp_NetworkAddress (n_PpInfo target)) target) N1
         else send (OutReqTransferDownloadWrong target) N1)"

text \<open>
  The sending loop: the last packet, which the end of the data lies beyond, ends it. The task of the
  sender is created without its \<open>TaskId\<close>.
\<close>

fun send_pieces :: "pp_env \<Rightarrow> string \<Rightarrow> string \<Rightarrow> string \<Rightarrow> nat \<Rightarrow> nat \<Rightarrow> bytes list \<Rightarrow> slice_node \<Rightarrow> slice_node" where
  "send_pieces E taskId sliceHash sp dataStart sliceDataLen [] N = N"
| "send_pieces E taskId sliceHash sp dataStart sliceDataLen (data # buffer) N =
     (let N1 = N\<lparr>DownSendCostTimeMap := snd (StartSendPacket (taskId @ sliceHash) (DownSendCostTimeMap N))\<rparr>;
          N2 = send (OutRspTransferDownload
            \<lparr>d_Data = data, d_TaskId = taskId, d_SliceHash = sliceHash, d_SpP2PAddress = sp,
             d_P2PAddress = pe_address E, d_Offset = word_of_nat dataStart,
             d_SliceSize = word_of_nat sliceDataLen, d_SliceNumber = 0\<rparr>) N1
      in if dataStart + MaxData > sliceDataLen then N2
         else send_pieces E taskId sliceHash sp (dataStart + MaxData) sliceDataLen buffer
                (snd (AddAlreadySizeToTransferTask (pe_now E) taskId sliceHash (word_of_nat (length data)) N2)))"

definition spam_key :: "BackupNotice \<Rightarrow> string" where
  "spam_key n = n_TaskId n @ FormatInt (sint (n_SliceNumber n)) @ n_ToP2PAddress n @ FormatInt (n_TimeStamp n)"

definition ReqTransferDownload :: "pp_env \<Rightarrow> BackupNotice \<Rightarrow> string \<Rightarrow> slice_node \<Rightarrow> slice_node" where
  "ReqTransferDownload E n newPp N =
     (case acm_Load (transferSliceSpamCheckMap N) (spam_key n) of
        (Some _, m) \<Rightarrow> send OutRspTransferRefused (N\<lparr>transferSliceSpamCheckMap := m\<rparr>)
      | (None, m) \<Rightarrow>
         let N1 = N\<lparr>transferSliceSpamCheckMap := acm_Store m (spam_key n) ()\<rparr>;
             t = \<lparr>TaskId = [], IsReceiver = False, DeleteOrigin = n_DeleteOrigin n, PpInfo = n_PpInfo n,
               StorageInfo = n_StorageInfo n, FileHash = n_FileHash n, SliceNum = n_SliceNumber n,
               ReceiverP2pAddress = newPp, SpP2pAddress = n_SpP2PAddress n, AlreadySize = 0,
               LastTouchTime = pe_now E\<rparr>;
             sliceHash = SliceHash (n_StorageInfo n);
             N2 = AddTransferTask (n_TaskId n) sliceHash t N1;
             ((sliceDataLen, buffer), N3) = GetTransferSliceData E (n_TaskId n) sliceHash N2
         in send_pieces E (n_TaskId n) sliceHash (n_SpP2PAddress n) 0 sliceDataLen buffer N3)"

text \<open>\<open>failed\<close>: the message carries a result that reports a failure.\<close>

definition RspTransferDownload :: "pp_env \<Rightarrow> int \<Rightarrow> bool \<Rightarrow> piece_msg \<Rightarrow> slice_node \<Rightarrow> slice_node" where
  "RspTransferDownload E costTime failed target N =
     (if failed \<or> d_Data target = [] then N
      else let (total_cost, m) = AddCostTime (d_TaskId target @ d_SliceHash target) costTime (DownRecvCostTimeMap N);
               (completed, N1) = SaveTransferData E target (N\<lparr>DownRecvCostTimeMap := m\<rparr>)
      in if completed = Inr True
         then send (OutRspTransferDownloadResult (d_TaskId target) (d_SliceHash target) (d_SpP2PAddress target))
                (SendReportBackupSliceResult E (d_TaskId target) (d_SliceHash target) (d_SpP2PAddress target)
                   True False total_cost N1)
         else N1)"

definition RspTransferDownloadResult :: "pp_env \<Rightarrow> bool \<Rightarrow> string \<Rightarrow> string \<Rightarrow> string \<Rightarrow> slice_node \<Rightarrow> slice_node" where
  "RspTransferDownloadResult E success taskId sliceHash sp N =
     (let (cost, m) = GetCompletedTotalCostTime (taskId @ sliceHash) (DownSendCostTimeMap N);
          N = N\<lparr>DownSendCostTimeMap := m\<rparr>
      in case cost of
           None \<Rightarrow> N
         | Some total_cost \<Rightarrow>
            if \<not> success then SendReportBackupSliceResult E taskId sliceHash sp False False total_cost N
            else let (deleteOrigin, N) =
                   (case GetTransferTask taskId sliceHash N of
                      None \<Rightarrow> (False, N)
                    | Some t \<Rightarrow> if DeleteOrigin t
                        then (case DeleteSlice (pe_home E) (pe_io E) (SliceHash (StorageInfo t)) (the_disk N) of
                                (res, d) \<Rightarrow> (res = Inr (), N\<lparr>the_disk := d\<rparr>))
                        else (False, N))
                 in SendReportBackupSliceResult E taskId sliceHash sp True deleteOrigin total_cost N)"

definition RspReportBackupSliceResult :: "string \<Rightarrow> string \<Rightarrow> slice_node \<Rightarrow> slice_node" where
  "RspReportBackupSliceResult taskId sliceHash N = CleanTransferTask taskId sliceHash N"

fun sendTransferFailureReportToSP :: "pp_env \<Rightarrow> string list \<Rightarrow> slice_node \<Rightarrow> slice_node" where
  "sendTransferFailureReportToSP E [] N = N"
| "sendTransferFailureReportToSP E (uid # uids) N =
     (case GetTransferTaskByTaskSliceUID uid N of
        None \<Rightarrow> sendTransferFailureReportToSP E uids N
      | Some t \<Rightarrow> sendTransferFailureReportToSP E uids (CleanTransferTaskByTaskSliceUID uid
          (SendReportBackupSliceResult E (TaskId t) (SliceHash (StorageInfo t)) (SpP2pAddress t) False False 0 N)))"

definition CheckTransferTimeout :: "pp_env \<Rightarrow> slice_node \<Rightarrow> slice_node" where
  "CheckTransferTimeout E N = sendTransferFailureReportToSP E (GetTimeoutTransfer (pe_now E) N) N"

section \<open>Handlers of a verification\<close>

definition SendReportVerifyResult ::
  "pp_env \<Rightarrow> string \<Rightarrow> string \<Rightarrow> string \<Rightarrow> bool \<Rightarrow> u64 \<Rightarrow> slice_node \<Rightarrow> slice_node" where
  "SendReportVerifyResult E taskId sliceHash sp result sliceSize N =
     (case GetVerifyTask taskId sliceHash N of
        None \<Rightarrow> N
      | Some t \<Rightarrow> send (OutReportVerifyResult
          \<lparr>r_TaskId = taskId, r_FileHash = FileHash t, r_SliceHash = SliceHash (StorageInfo t),
           r_Success = result, r_IsReceiver = IsReceiver t, r_OriginDeleted = False,
           r_SliceNumber = SliceNum t, r_SliceSize = sliceSize, r_SpP2PAddress = sp, r_CostTime = 0,
           r_PpP2PAddress = pe_address E,
           r_OpponentP2PAddress =
             (if IsReceiver t then pp_P2PAddress (PpInfo t) else ReceiverP2pAddress t)\<rparr>) N)"

definition NoticeFileSliceVerify :: "pp_env \<Rightarrow> VerifyNotice \<Rightarrow> slice_node \<Rightarrow> slice_node" where
  "NoticeFileSliceVerify E target N =
     (if pp_P2PAddress (n_PpInfo target) = pe_address E then N
      else let t = \<lparr>TaskId = n_TaskId target, IsReceiver = True, DeleteOrigin = n_DeleteOrigin target,
                 PpInfo = n_PpInfo target, StorageInfo = n_StorageInfo target, FileHash = n_FileHash target,
                 SliceNum = n_SliceNumber target, ReceiverP2pAddress = n_ToP2PAddress target,
                 SpP2pAddress = n_SpP2PAddress target, AlreadySize = 0, LastTouchTime = pe_now E\<rparr>;
               N1 = AddVerifyTask (n_TaskId target) (SliceHash (n_StorageInfo target)) t N
      in if pe_reachable E (pp_NetworkAddress (n_PpInfo target))
         then send (OutReqVerifyDownload (pp_NetworkAddress (n_PpInfo target)) target) N1 else N1)"

text \<open>The size of the sent data is added to a task in the table of transfers, not of verifications.\<close>

fun send_verify_pieces :: "pp_env \<Rightarrow> VerifyNotice \<Rightarrow> nat \<Rightarrow> nat \<Rightarrow> bytes list \<Rightarrow> slice_node \<Rightarrow> slice_node" where
  "send_verify_pieces E n dataStart sliceDataLen [] N = N"
| "send_verify_pieces E n dataStart sliceDataLen (data # buffer) N =
     (let sliceHash = SliceHash (n_StorageInfo n);
          N2 = send (OutRspVerifyDownload
            \<lparr>d_Data = data, d_TaskId = n_TaskId n, d_SliceHash = sliceHash, d_SpP2PAddress = n_SpP2PAddress n,
             d_P2PAddress = pe_address E, d_Offset = word_of_nat dataStart,
             d_SliceSize = word_of_nat sliceDataLen, d_SliceNumber = n_SliceNumber n\<rparr>) N
      in if dataStart + MaxData > sliceDataLen then N2
         else send_verify_pieces E n (dataStart + MaxData) sliceDataLen buffer
                (snd (AddAlreadySizeToTransferTask (pe_now E) (n_TaskId n) sliceHash (word_of_nat (length data)) N2)))"

definition ReqVerifyDownload :: "pp_env \<Rightarrow> VerifyNotice \<Rightarrow> string \<Rightarrow> slice_node \<Rightarrow> slice_node" where
  "ReqVerifyDownload E n newPp N =
     (let t = \<lparr>TaskId = [], IsReceiver = False, DeleteOrigin = n_DeleteOrigin n, PpInfo = n_PpInfo n,
           StorageInfo = n_StorageInfo n, FileHash = n_FileHash n, SliceNum = n_SliceNumber n,
           ReceiverP2pAddress = newPp, SpP2pAddress = n_SpP2PAddress n, AlreadySize = 0, LastTouchTime = 0\<rparr>;
          sliceHash = SliceHash (n_StorageInfo n);
          N1 = AddVerifyTask (n_TaskId n) sliceHash t N;
          ((sliceDataLen, buffer), N2) = GetVerifySliceData_task E (n_TaskId n) sliceHash N1
      in send_verify_pieces E n 0 sliceDataLen buffer N2)"

definition RspVerifyDownload :: "pp_env \<Rightarrow> bool \<Rightarrow> piece_msg \<Rightarrow> slice_node \<Rightarrow> slice_node" where
  "RspVerifyDownload E failed target N =
     (if failed \<or> d_Data target = [] then N
      else let (completed, N1) = SaveVerifyData E target N
      in if completed = Inr True
         then send (OutRspVerifyDownloadResult (d_TaskId target) (d_SliceHash target) (d_SpP2PAddress target))
                (SendReportVerifyResult E (d_TaskId target) (d_SliceHash target) (d_SpP2PAddress target)
                   True (d_SliceSize target) N1)
         else N1)"

end
