(* ===== verification/Transfer_Props.thy ===== *)
theory Transfer_Props
  imports Slice_Transfer
begin

text \<open>
  What the transfer of a slice achieves: the packets a node sends are the slice, the receiver assembles
  them in whatever order they arrive, and a success is reported only for a slice whose stored content
  has the hash of the task.
\<close>

section \<open>Sending\<close>

definition slice_at :: "pp_env \<Rightarrow> string \<Rightarrow> slice_node \<Rightarrow> bytes option" where
  "slice_at E h N = files (the_disk N) (slice_file (StoragePath (pe_home E)) h)"

definition piece_of :: "pp_env \<Rightarrow> BackupNotice \<Rightarrow> bytes \<Rightarrow> nat \<Rightarrow> piece_msg" where
  "piece_of E n c i =
     \<lparr>d_Data = piece c i, d_TaskId = n_TaskId n, d_SliceHash = SliceHash (n_StorageInfo n),
      d_SpP2PAddress = n_SpP2PAddress n, d_P2PAddress = pe_address E, d_Offset = word_of_nat (i * MaxData),
      d_SliceSize = word_of_nat (length c), d_SliceNumber = 0\<rparr>"

lemma send_simps [simp]:
  "outbox (send m N) = outbox N @ [m]" "transferTaskMap (send m N) = transferTaskMap N"
  "the_disk (send m N) = the_disk N" "verifyTaskMap (send m N) = verifyTaskMap N"
  by (simp_all add: send_def)

lemma added_simps [simp]:
  "outbox (snd (AddAlreadySizeToTransferTask now tid h delta N)) = outbox N"
  "the_disk (snd (AddAlreadySizeToTransferTask now tid h delta N)) = the_disk N"
  by (auto simp: AddAlreadySizeToTransferTask_def split: option.splits)

lemma piece_not_last:
  assumes "i < piece_count c" and "i * MaxData + MaxData \<le> length c" and "Suc i = piece_count c"
  shows "length c = Suc i * MaxData"
proof -
  have "\<not> Suc i * MaxData < length c"
    using assms(3) by (simp add: piece_count_def MaxData_def)
  with assms(2) show ?thesis by simp
qed

lemma sent_pieces:
  assumes "i \<le> piece_count c" and "h = SliceHash (n_StorageInfo n)"
  shows "outbox (send_pieces E (n_TaskId n) h (n_SpP2PAddress n) (i * MaxData) (length c)
      (map (piece c) [i..<piece_count c]) N) =
    outbox N @ map (\<lambda>i. OutRspTransferDownload (piece_of E n c i)) [i..<piece_count c]"
  using assms(1)
proof (induction "piece_count c - i" arbitrary: i N)
  case (Suc m)
  then have i: "i < piece_count c" by simp
  let ?N = "send (OutRspTransferDownload (piece_of E n c i))
    (N\<lparr>DownSendCostTimeMap := snd (StartSendPacket (n_TaskId n @ h) (DownSendCostTimeMap N))\<rparr>)"
  have step: "send_pieces E (n_TaskId n) h (n_SpP2PAddress n) (i * MaxData) (length c)
      (map (piece c) [i..<piece_count c]) N =
    (if i * MaxData + MaxData > length c then ?N
     else send_pieces E (n_TaskId n) h (n_SpP2PAddress n) (Suc i * MaxData) (length c)
       (map (piece c) [Suc i..<piece_count c])
       (snd (AddAlreadySizeToTransferTask (pe_now E) (n_TaskId n) h (word_of_nat (length (piece c i))) ?N)))"
    using i by (simp add: upt_conv_Cons Let_def piece_of_def assms(2) add.commute)
  show ?case
  proof (cases "i * MaxData + MaxData > length c")
    case True
    then have "Suc i = piece_count c" using i by (simp add: piece_count_def MaxData_def)
    then have "[i..<piece_count c] = [i]" using i by (simp add: upt_conv_Cons)
    with True step show ?thesis by simp
  next
    case False
    have "m = piece_count c - Suc i" "Suc i \<le> piece_count c" using Suc.hyps(2) i by simp_all
    from Suc.hyps(1) [OF this] show ?thesis
      unfolding step using False i by (simp add: upt_conv_Cons)
  qed
qed simp

lemma read_stored_slice:
  assumes "pe_io E = no_errors" and "slice_at E h N = Some c" and "10 \<le> length h"
  shows "\<exists>D. read_slice E fh h N = ((length c, map (piece c) [0..<piece_count c]), N\<lparr>the_disk := (the_disk N)\<lparr>dirs := D\<rparr>\<rparr>)"
proof -
  obtain D where D: "slice_path_in (StoragePath (pe_home E)) no_errors h (the_disk N) =
      (Inr (slice_file (StoragePath (pe_home E)) h), (the_disk N)\<lparr>dirs := D\<rparr>)"
    using slice_path_ok [OF assms(3)] by blast
  have "GetFileInfo_size no_errors (slice_file (StoragePath (pe_home E)) h) ((the_disk N)\<lparr>dirs := D\<rparr>) =
      (Inr (length c), (the_disk N)\<lparr>dirs := D\<rparr>)"
    using assms(2) by (simp add: GetFileInfo_size_def no_errors_def slice_at_def)
  then show ?thesis
    using assms(1,2) D
    by (simp add: read_slice_def ReadSliceData_def getSlicePath_def mmap_open_def slice_at_def
        ReadFileDataToPackets_def packets_eq) (auto simp: no_errors_def)
qed

lemma transfer_sends_slice:
  assumes "pe_io E = no_errors" and "slice_at E (SliceHash (n_StorageInfo n)) N = Some c"
    and "10 \<le> length (SliceHash (n_StorageInfo n))" and "\<not> HashKey (transferSliceSpamCheckMap N) (spam_key n)"
  shows "outbox (ReqTransferDownload E n newPp N) =
    outbox N @ map (\<lambda>i. OutRspTransferDownload (piece_of E n c i)) [0..<piece_count c]"
proof -
  let ?h = "SliceHash (n_StorageInfo n)"
  have load: "acm_Load (transferSliceSpamCheckMap N) (spam_key n) = (None, transferSliceSpamCheckMap N)"
    using assms(4) by (auto simp: HashKey_def acm_Load_def split: option.splits)
  define t where "t = \<lparr>TaskId = [], IsReceiver = False, DeleteOrigin = n_DeleteOrigin n, PpInfo = n_PpInfo n,
      StorageInfo = n_StorageInfo n, FileHash = n_FileHash n, SliceNum = n_SliceNumber n,
      ReceiverP2pAddress = newPp, SpP2pAddress = n_SpP2PAddress n, AlreadySize = 0, LastTouchTime = pe_now E\<rparr>"
  define N2 where "N2 = AddTransferTask (n_TaskId n) ?h t
      (N\<lparr>transferSliceSpamCheckMap := acm_Store (transferSliceSpamCheckMap N) (spam_key n) ()\<rparr>)"
  have task: "GetTransferTask (n_TaskId n) ?h N2 = Some t"
    by (simp add: N2_def AddTransferTask_def GetTransferTask_def update_conv')
  have "slice_at E ?h N2 = Some c" using assms(2) by (simp add: slice_at_def N2_def AddTransferTask_def)
  from read_stored_slice [OF assms(1) this assms(3)] obtain D where
    D: "read_slice E (n_FileHash n) ?h N2 =
      ((length c, map (piece c) [0..<piece_count c]), N2\<lparr>the_disk := (the_disk N2)\<lparr>dirs := D\<rparr>\<rparr>)" by blast
  have "GetTransferSliceData E (n_TaskId n) ?h N2 =
      ((length c, map (piece c) [0..<piece_count c]), N2\<lparr>the_disk := (the_disk N2)\<lparr>dirs := D\<rparr>\<rparr>)"
    using D by (simp add: GetTransferSliceData_def task) (simp add: t_def)
  then have "ReqTransferDownload E n newPp N =
      send_pieces E (n_TaskId n) ?h (n_SpP2PAddress n) 0 (length c) (map (piece c) [0..<piece_count c])
        (N2\<lparr>the_disk := (the_disk N2)\<lparr>dirs := D\<rparr>\<rparr>)"
    unfolding ReqTransferDownload_def load by (simp add: Let_def N2_def t_def)
  then show ?thesis
    using sent_pieces [of 0 c ?h n E "N2\<lparr>the_disk := (the_disk N2)\<lparr>dirs := D\<rparr>\<rparr>"]
    by (simp add: N2_def AddTransferTask_def)
qed

section \<open>Receiving\<close>

text \<open>
  The state of a receiver that has stored the pieces with indices in \<open>I\<close>: the task counts their bytes,
  and the file agrees with the slice there.
\<close>

definition stored_bytes :: "bytes \<Rightarrow> nat set \<Rightarrow> nat" where
  "stored_bytes c I = (\<Sum>i\<in>I. length (piece c i))"

definition positions :: "bytes \<Rightarrow> nat set \<Rightarrow> nat set" where
  "positions c I = (\<Union>i\<in>I. {i * MaxData..<i * MaxData + length (piece c i)})"

definition receiving :: "pp_env \<Rightarrow> BackupNotice \<Rightarrow> bytes \<Rightarrow> nat set \<Rightarrow> slice_node \<Rightarrow> bool" where
  "receiving E n c I N \<longleftrightarrow>
     (\<exists>t. GetTransferTask (n_TaskId n) (SliceHash (n_StorageInfo n)) N = Some t \<and>
        StorageInfo t = n_StorageInfo n \<and> FileHash t = n_FileHash n \<and> SliceNum t = n_SliceNumber n \<and>
        AlreadySize t = word_of_nat (stored_bytes c I)) \<and>
     agrees (case slice_at E (SliceHash (n_StorageInfo n)) N of None \<Rightarrow> [] | Some f \<Rightarrow> f) c (positions c I)"

text \<open>The slice that is transferred, and the environment of the receiver.\<close>

definition transferable :: "pp_env \<Rightarrow> BackupNotice \<Rightarrow> bytes \<Rightarrow> bool" where
  "transferable E n c \<longleftrightarrow> pe_io E = no_errors \<and> 10 \<le> length (SliceHash (n_StorageInfo n)) \<and>
     0 < length c \<and> length c < 2 ^ 63 \<and> SliceSize (n_StorageInfo n) = word_of_nat (length c) \<and>
     CalcSliceHash (pe_hash E) c (n_FileHash n) (n_SliceNumber n) = Some (SliceHash (n_StorageInfo n))"

lemma word_less_small:
  "a < 2 ^ 64 \<Longrightarrow> b < 2 ^ 64 \<Longrightarrow> (word_of_nat a :: u64) < word_of_nat b \<longleftrightarrow> a < b"
  by (simp add: word_less_nat_alt unat_of_nat)

lemma stored_bytes_le:
  assumes "I \<subseteq> {..<piece_count c}"
  shows "stored_bytes c I \<le> length c" "stored_bytes c I = length c \<longleftrightarrow> I = {..<piece_count c}"
proof -
  have pos: "0 < length (piece c i)" if "i < piece_count c" for i
    using piece_bound [OF that] MaxData_pos by (simp add: piece_def)
  have total: "stored_bytes c {..<piece_count c} = length c"
    by (simp add: stored_bytes_def pieces_sum)
  show "stored_bytes c I \<le> length c"
    unfolding total [symmetric] stored_bytes_def using assms by (intro sum_mono2) auto
  have "stored_bytes c I < stored_bytes c {..<piece_count c}" if "I \<noteq> {..<piece_count c}"
  proof -
    from that assms obtain i where "i < piece_count c" "i \<notin> I" by auto
    with pos assms show ?thesis unfolding stored_bytes_def by (intro sum_strict_mono2 [of _ _ i]) auto
  qed
  with total show "stored_bytes c I = length c \<longleftrightarrow> I = {..<piece_count c}" by fastforce
qed

lemma stored_bytes_insert: "finite I \<Longrightarrow> i \<notin> I \<Longrightarrow> stored_bytes c (insert i I) = stored_bytes c I + length (piece c i)"
  by (simp add: stored_bytes_def)

lemma positions_insert:
  "positions c (insert i I) = positions c I \<union> {i * MaxData..<i * MaxData + length (piece c i)}"
  by (auto simp: positions_def)

lemma GetTransferTask_add:
  assumes "GetTransferTask tid h N = Some t"
  shows "AddAlreadySizeToTransferTask now tid h delta N =
      (Some (touched now delta t), N\<lparr>transferTaskMap := AList.update (tid @ h) (touched now delta t) (transferTaskMap N)\<rparr>)"
  using assms by (simp add: AddAlreadySizeToTransferTask_def GetTransferTask_def)

lemma piece_offset_ok:
  assumes "i < piece_count c" and "length c < 2 ^ 63"
  shows "0 \<le> sint (word_of_nat (i * MaxData) :: u64)" "unat (word_of_nat (i * MaxData) :: u64) = i * MaxData"
proof -
  have "i * MaxData < 2 ^ 63" using piece_bound [OF assms(1)] assms(2) by simp
  then show u: "unat (word_of_nat (i * MaxData) :: u64) = i * MaxData"
    by (intro unat_word_of_nat) simp
  show "0 \<le> sint (word_of_nat (i * MaxData) :: u64)"
    using sint_small [of "word_of_nat (i * MaxData)"] u \<open>i * MaxData < 2 ^ 63\<close> by simp
qed

lemma save_piece:
  assumes "pe_io E = no_errors" and "10 \<le> length h" and "0 \<le> sint off"
  shows "\<exists>D. SaveSliceData (pe_home E) (pe_io E) data h off d =
    (Inr (), d\<lparr>dirs := D, files := (files d)(slice_file (StoragePath (pe_home E)) h \<mapsto>
       write_at (case files d (slice_file (StoragePath (pe_home E)) h) of None \<Rightarrow> [] | Some f \<Rightarrow> f) (unat off) data)\<rparr>)"
proof -
  obtain D where "slice_path_in (StoragePath (pe_home E)) no_errors h d =
      (Inr (slice_file (StoragePath (pe_home E)) h), d\<lparr>dirs := D\<rparr>)"
    using slice_path_ok [OF assms(2)] by blast
  then show ?thesis
    using write_file_ok [OF assms(3), of "slice_file (StoragePath (pe_home E)) h" data "d\<lparr>dirs := D\<rparr>"] assms(1)
    by (auto simp: SaveSliceData_def getSlicePath_def intro!: exI [of _ D])
qed

lemma read_back:
  assumes "pe_io E = no_errors" and "10 \<le> length h" and "files d (slice_file (StoragePath (pe_home E)) h) = Some f"
  shows "\<exists>D. GetSliceSize (pe_home E) (pe_io E) h d = (Inr (length f), d\<lparr>dirs := D\<rparr>)"
    "\<exists>D. GetSliceData (pe_home E) (pe_io E) h d = (Inr f, d\<lparr>dirs := D\<rparr>)"
proof -
  obtain D where "slice_path_in (StoragePath (pe_home E)) no_errors h d =
      (Inr (slice_file (StoragePath (pe_home E)) h), d\<lparr>dirs := D\<rparr>)"
    using slice_path_ok [OF assms(2)] by blast
  then show "\<exists>D. GetSliceSize (pe_home E) (pe_io E) h d = (Inr (length f), d\<lparr>dirs := D\<rparr>)"
    "\<exists>D. GetSliceData (pe_home E) (pe_io E) h d = (Inr f, d\<lparr>dirs := D\<rparr>)"
    using assms(1,3)
    by (auto simp: GetSliceSize_def GetSliceData_def getSlicePath_def GetFileInfo_size_def GetWholeFileData_def
        no_errors_def)
qed

lemma receive_step:
  assumes tr: "transferable E n c" and rc: "receiving E n c I N"
    and I: "I \<subseteq> {..<piece_count c}" and i: "i < piece_count c" "i \<notin> I"
  shows "\<exists>N'. SaveTransferData E (piece_of S n c i) N = (Inr (insert i I = {..<piece_count c}), N') \<and>
    receiving E n c (insert i I) N' \<and> outbox N' = outbox N"
proof -
  let ?h = "SliceHash (n_StorageInfo n)" and ?J = "insert i I"
  let ?p = "slice_file (StoragePath (pe_home E)) ?h"
  define m where "m = piece_of S n c i"
  have m: "d_TaskId m = n_TaskId n" "d_SliceHash m = ?h" "d_Data m = piece c i"
      "d_Offset m = word_of_nat (i * MaxData)" "d_SliceSize m = word_of_nat (length c)"
    by (simp_all add: m_def piece_of_def)
  from tr have io: "pe_io E = no_errors" and h: "10 \<le> length ?h" and len: "0 < length c" "length c < 2 ^ 63"
      and size: "SliceSize (n_StorageInfo n) = word_of_nat (length c)"
      and hash: "CalcSliceHash (pe_hash E) c (n_FileHash n) (n_SliceNumber n) = Some ?h"
    by (auto simp: transferable_def)
  from rc obtain t where t: "GetTransferTask (n_TaskId n) ?h N = Some t" "StorageInfo t = n_StorageInfo n"
      "FileHash t = n_FileHash n" "SliceNum t = n_SliceNumber n" "AlreadySize t = word_of_nat (stored_bytes c I)"
    by (auto simp: receiving_def)
  define f where "f = (case slice_at E ?h N of None \<Rightarrow> [] | Some f \<Rightarrow> f)"
  have agr: "agrees f c (positions c I)" using rc by (simp add: receiving_def f_def)
  define g where "g = write_at f (i * MaxData) (piece c i)"
  have J: "?J \<subseteq> {..<piece_count c}" "finite I" using I i finite_subset [OF I] by auto
  have agr': "agrees g c (positions c ?J)"
  proof -
    have "piece c i = take (length (piece c i)) (drop (i * MaxData) c)" by (simp add: piece_def min_def)
    moreover have "i * MaxData + length (piece c i) \<le> length c"
      using piece_bound [OF i(1)] by (simp add: piece_def)
    ultimately show ?thesis
      using write_agrees [OF agr, of "i * MaxData" "length (piece c i)"] by (simp add: g_def positions_insert)
  qed
  note off = piece_offset_ok [OF i(1) len(2)]
  obtain D1 where save: "SaveSliceData (pe_home E) (pe_io E) (piece c i) ?h (word_of_nat (i * MaxData)) (the_disk N) =
      (Inr (), (the_disk N)\<lparr>dirs := D1, files := (files (the_disk N))(?p \<mapsto> g)\<rparr>)"
    using save_piece [OF io h off(1), of "piece c i" "the_disk N"] off(2) by (auto simp: g_def f_def slice_at_def)
  define d1 where "d1 = (the_disk N)\<lparr>dirs := D1, files := (files (the_disk N))(?p \<mapsto> g)\<rparr>"
  have g1: "files d1 ?p = Some g" by (simp add: d1_def)
  define t' where "t' = touched (pe_now E) (word_of_nat (length (piece c i))) t"
  have t': "StorageInfo t' = n_StorageInfo n" "FileHash t' = n_FileHash n" "SliceNum t' = n_SliceNumber n"
      "AlreadySize t' = word_of_nat (stored_bytes c ?J)"
    using t J i by (simp_all add: t'_def touched_def stored_bytes_insert)
  define N1 where "N1 = N\<lparr>the_disk := d1, transferTaskMap := AList.update (n_TaskId n @ ?h) t' (transferTaskMap N)\<rparr>"
  have add: "AddAlreadySizeToTransferTask (pe_now E) (n_TaskId n) ?h (word_of_nat (length (piece c i)))
      (N\<lparr>the_disk := d1\<rparr>) = (Some t', N1)"
    using GetTransferTask_add [of "n_TaskId n" ?h "N\<lparr>the_disk := d1\<rparr>" t] t(1)
    by (simp add: t'_def N1_def GetTransferTask_def)
  obtain D2 where sz: "GetSliceSize (pe_home E) (pe_io E) ?h d1 = (Inr (length g), d1\<lparr>dirs := D2\<rparr>)"
    using read_back(1) [OF io h g1] by blast
  obtain D3 where dat: "GetSliceData (pe_home E) (pe_io E) ?h (d1\<lparr>dirs := D2\<rparr>) = (Inr g, d1\<lparr>dirs := D3\<rparr>)"
    using read_back(2) [OF io h, of "d1\<lparr>dirs := D2\<rparr>" g] g1 by auto
  have recv: "receiving E n c ?J (N1\<lparr>the_disk := d1\<lparr>dirs := D\<rparr>\<rparr>)" for D
    using t' agr' g1 by (auto simp: receiving_def N1_def GetTransferTask_def update_conv' slice_at_def)
  have gl: "length g \<le> length c" using agr' by (simp add: agrees_def)
  have nd: "the_disk N1 = d1" "\<And>d d'. N1\<lparr>the_disk := d, the_disk := d'\<rparr> = N1\<lparr>the_disk := d'\<rparr>"
    by (simp_all add: N1_def)
  have run: "SaveTransferData E m N =
      (if word_of_nat (length g) < SliceSize (n_StorageInfo n) \<or> AlreadySize t' < d_SliceSize m
       then (Inr False, N1\<lparr>the_disk := d1\<lparr>dirs := D2\<rparr>\<rparr>)
       else (case CalcSliceHash (pe_hash E) g (n_FileHash n) (n_SliceNumber n) of
            None \<Rightarrow> (Inl HashFailed, N1\<lparr>the_disk := d1\<lparr>dirs := D3\<rparr>\<rparr>)
          | Some x \<Rightarrow> if ?h \<noteq> x then (Inl HashMismatch, N1\<lparr>the_disk := d1\<lparr>dirs := D3\<rparr>\<rparr>)
              else (Inr True, N1\<lparr>the_disk := d1\<lparr>dirs := D3\<rparr>\<rparr>)))"
    using t save add sz dat t'(1-3) nd
    by (simp add: SaveTransferData_def transfer_complete_def with_disk_def m d1_def [symmetric] split: option.split)
  have small: "word_of_nat (length g) < SliceSize (n_StorageInfo n) \<longleftrightarrow> length g < length c"
      "AlreadySize t' < d_SliceSize m \<longleftrightarrow> stored_bytes c ?J < length c"
    using gl len stored_bytes_le(1) [OF J(1)] by (simp_all add: size t' m word_less_small)
  have out: "outbox (N1\<lparr>the_disk := d\<rparr>) = outbox N" for d by (simp add: N1_def)
  show ?thesis
  proof (cases "?J = {..<piece_count c}")
    case True
    then have "positions c ?J = {0..<length c}" by (simp add: positions_def piece_cover)
    then have "g = c" using agr' by (intro agrees_all) simp
    then have "SaveTransferData E m N = (Inr (?J = {..<piece_count c}), N1\<lparr>the_disk := d1\<lparr>dirs := D3\<rparr>\<rparr>)"
      using True small hash stored_bytes_le(2) [OF J(1)] unfolding run by simp
    then show ?thesis unfolding m_def by (intro exI conjI) (assumption, rule recv, rule out)
  next
    case False
    then have "stored_bytes c ?J < length c" using stored_bytes_le [OF J(1)] by linarith
    then have "SaveTransferData E m N = (Inr (?J = {..<piece_count c}), N1\<lparr>the_disk := d1\<lparr>dirs := D2\<rparr>\<rparr>)"
      using False small unfolding run by simp
    then show ?thesis unfolding m_def by (intro exI conjI) (assumption, rule recv, rule out)
  qed
qed

lemma receiving_cost [simp]: "receiving E n c I (N\<lparr>DownRecvCostTimeMap := m\<rparr>) \<longleftrightarrow> receiving E n c I N"
  by (simp add: receiving_def GetTransferTask_def slice_at_def)

lemma receiving_send [simp]: "receiving E n c I (send m N) \<longleftrightarrow> receiving E n c I N"
  by (simp add: receiving_def GetTransferTask_def slice_at_def)

lemma mset_image_list:
  "mset ys = image_mset f (mset xs) \<Longrightarrow> \<exists>zs. ys = map f zs \<and> mset zs = mset xs"
proof (induction ys arbitrary: xs)
  case (Cons y ys)
  have "y \<in># mset (y # ys)" by simp
  then have "y \<in># image_mset f (mset xs)" unfolding Cons.prems .
  then obtain x where x: "x \<in> set xs" "y = f x" by auto
  have rem: "add_mset x (mset (remove1 x xs)) = mset xs" using x(1) by simp
  have "add_mset y (mset ys) = image_mset f (add_mset x (mset (remove1 x xs)))"
    unfolding rem using Cons.prems by simp
  then have "mset ys = image_mset f (mset (remove1 x xs))" by (simp add: x(2) del: mset_remove1)
  then obtain zs where zs: "ys = map f zs" "mset zs = mset (remove1 x xs)" using Cons.IH by blast
  have "mset (x # zs) = mset xs" using zs(2) rem by simp
  moreover have "y # ys = map f (x # zs)" by (simp add: x zs(1))
  ultimately show ?case by (intro exI [of _ "x # zs"] conjI)
qed simp

lemma piece_count_pos: "0 < length c \<Longrightarrow> 0 < piece_count c"
  using pieces_sum [of c] by (intro gr0I) simp

lemma receive_message:
  assumes "transferable E n c" and "receiving E n c I N" and "I \<subseteq> {..<piece_count c}"
    and "i < piece_count c" "i \<notin> I"
    and N'_def: "N' = RspTransferDownload E cost False (piece_of S n c i) N"
  shows "receiving E n c (insert i I) N'"
    "insert i I \<noteq> {..<piece_count c} \<Longrightarrow> outbox N' = outbox N"
    "insert i I = {..<piece_count c} \<Longrightarrow>
      \<exists>r. outbox N' = outbox N @ [OutReportBackupSliceResult r,
          OutRspTransferDownloadResult (n_TaskId n) (SliceHash (n_StorageInfo n)) (n_SpP2PAddress n)] \<and>
        r_Success r \<and> r_TaskId r = n_TaskId n \<and> r_SliceHash r = SliceHash (n_StorageInfo n) \<and>
        r_FileHash r = n_FileHash n"
proof -
  let ?m = "piece_of S n c i" and ?h = "SliceHash (n_StorageInfo n)"
  obtain tot cm where ct: "AddCostTime (n_TaskId n @ ?h) cost (DownRecvCostTimeMap N) = (tot, cm)" by fastforce
  have rcv: "receiving E n c I (N\<lparr>DownRecvCostTimeMap := cm\<rparr>)" using assms(2) by simp
  obtain N1 where sv: "SaveTransferData E ?m (N\<lparr>DownRecvCostTimeMap := cm\<rparr>) = (Inr (insert i I = {..<piece_count c}), N1)"
    and r1: "receiving E n c (insert i I) N1" and o1: "outbox N1 = outbox N"
    using receive_step [OF assms(1) rcv assms(3,4,5), of S] by auto
  have "d_Data ?m \<noteq> []"
    using piece_bound [OF assms(4)] MaxData_pos by (auto simp: piece_of_def piece_def)
  then have N': "N' = (if insert i I = {..<piece_count c}
      then send (OutRspTransferDownloadResult (n_TaskId n) ?h (n_SpP2PAddress n))
        (SendReportBackupSliceResult E (n_TaskId n) ?h (n_SpP2PAddress n) True False tot N1) else N1)"
    using ct sv by (simp add: N'_def RspTransferDownload_def piece_of_def)
  obtain t where t: "GetTransferTask (n_TaskId n) ?h N1 = Some t" "StorageInfo t = n_StorageInfo n" "FileHash t = n_FileHash n"
    using r1 by (auto simp: receiving_def)
  show "receiving E n c (insert i I) N'"
    using r1 t by (cases "insert i I = {..<piece_count c}") (simp_all add: N' SendReportBackupSliceResult_def)
  show "insert i I \<noteq> {..<piece_count c} \<Longrightarrow> outbox N' = outbox N" by (simp add: N' o1)
  show "insert i I = {..<piece_count c} \<Longrightarrow>
      \<exists>r. outbox N' = outbox N @ [OutReportBackupSliceResult r,
          OutRspTransferDownloadResult (n_TaskId n) ?h (n_SpP2PAddress n)] \<and>
        r_Success r \<and> r_TaskId r = n_TaskId n \<and> r_SliceHash r = ?h \<and> r_FileHash r = n_FileHash n"
    using t by (simp add: N' o1 SendReportBackupSliceResult_def)
qed

lemma receive_rest:
  assumes tr: "transferable E n c"
  shows "receiving E n c I N \<Longrightarrow> distinct js \<Longrightarrow> set js \<inter> I = {} \<Longrightarrow> set js \<union> I = {..<piece_count c} \<Longrightarrow> js \<noteq> [] \<Longrightarrow>
    \<exists>r. slice_at E (SliceHash (n_StorageInfo n))
          (foldl (\<lambda>N i. RspTransferDownload E (cost i) False (piece_of S n c i) N) N js) = Some c \<and>
      outbox (foldl (\<lambda>N i. RspTransferDownload E (cost i) False (piece_of S n c i) N) N js) =
        outbox N @ [OutReportBackupSliceResult r,
          OutRspTransferDownloadResult (n_TaskId n) (SliceHash (n_StorageInfo n)) (n_SpP2PAddress n)] \<and>
      r_Success r \<and> r_TaskId r = n_TaskId n \<and> r_SliceHash r = SliceHash (n_StorageInfo n) \<and>
      r_FileHash r = n_FileHash n"
proof (induction "js" arbitrary: I N)
  case (Cons i js)
  let ?h = "SliceHash (n_StorageInfo n)"
  let ?N = "RspTransferDownload E (cost i) False (piece_of S n c i) N"
  have un: "insert i (set js) \<union> I = {..<piece_count c}" and dj: "insert i (set js) \<inter> I = {}" and ds: "i \<notin> set js" "distinct js"
    using Cons.prems(2-4) by simp_all
  have "i \<in> {..<piece_count c}" and i: "i \<notin> I" "I \<subseteq> {..<piece_count c}" using un dj by blast+
  then have lt: "i < piece_count c" by simp
  note step = receive_message [OF tr Cons.prems(1) i(2) lt i(1) refl, of "cost i" S]
  show ?case
  proof (cases "js = []")
    case True
    then have all: "insert i I = {..<piece_count c}" using un by simp
    then have "positions c (insert i I) = {0..<length c}" by (simp add: positions_def piece_cover)
    then have "(case slice_at E ?h ?N of None \<Rightarrow> [] | Some f \<Rightarrow> f) = c"
      using step(1) by (intro agrees_all) (simp add: receiving_def)
    moreover have "c \<noteq> []" using tr by (auto simp: transferable_def)
    ultimately have "slice_at E ?h ?N = Some c" by (auto split: option.splits)
    then show ?thesis
      using step(3) [OF all] unfolding True foldl.simps by (elim exE conjE) (intro exI conjI, assumption+)
  next
    case False
    then obtain j where "j \<in> set js" by (cases js) auto
    then have "j \<in> {..<piece_count c}" "j \<notin> insert i I" using un dj ds by blast+
    then have "insert i I \<noteq> {..<piece_count c}" by blast
    note same = step(2) [OF this]
    have "set js \<inter> insert i I = {}" "set js \<union> insert i I = {..<piece_count c}" using un dj ds by blast+
    from Cons.IH [OF step(1) ds(2) this False] show ?thesis unfolding same foldl.simps .
  qed
qed simp

lemma notice_receiving:
  assumes "pp_P2PAddress (n_PpInfo n) \<noteq> pe_address E" and "slice_at E (SliceHash (n_StorageInfo n)) N = None"
  shows "receiving E n c {} (NoticeFileSliceBackup E n N)"
  using assms
  by (simp add: receiving_def NoticeFileSliceBackup_def Let_def AddTransferTask_def GetTransferTask_def update_conv'
      slice_at_def positions_def stored_bytes_def agrees_empty)

text \<open>C35: A transferred slice arrives. When an SP asks a node to take over a slice and the node that stores
  it answers, the pieces it sends can reach the receiver in any order: the receiver then has exactly the
  slice on its disk, and after the last piece, and only then, it reports the success to the SP and tells the
  sender.\<close>

theorem transfer_completes:
  assumes "pe_io S = no_errors" and "slice_at S (SliceHash (n_StorageInfo n)) sender = Some c"
    and "\<not> HashKey (transferSliceSpamCheckMap sender) (spam_key n)"
    and "outbox (ReqTransferDownload S n newPp sender) = outbox sender @ map OutRspTransferDownload sent"
    and "transferable R n c" and "pp_P2PAddress (n_PpInfo n) \<noteq> pe_address R"
    and "slice_at R (SliceHash (n_StorageInfo n)) receiver = None"
    and "mset arrived = mset sent"
    and "final = foldl (\<lambda>N m. RspTransferDownload R (cost m) False m N) (NoticeFileSliceBackup R n receiver) arrived"
  shows "slice_at R (SliceHash (n_StorageInfo n)) final = Some c \<and>
    (\<exists>r. outbox final = outbox (NoticeFileSliceBackup R n receiver) @ [OutReportBackupSliceResult r,
        OutRspTransferDownloadResult (n_TaskId n) (SliceHash (n_StorageInfo n)) (n_SpP2PAddress n)] \<and>
      r_Success r \<and> r_TaskId r = n_TaskId n \<and> r_SliceHash r = SliceHash (n_StorageInfo n) \<and>
      r_FileHash r = n_FileHash n)"
proof -
  let ?n = "piece_count c"
  from assms(5) have h: "10 \<le> length (SliceHash (n_StorageInfo n))" and c: "0 < length c"
    by (auto simp: transferable_def)
  have "map OutRspTransferDownload sent = map (\<lambda>i. OutRspTransferDownload (piece_of S n c i)) [0..<?n]"
    using transfer_sends_slice [OF assms(1,2) h assms(3), of newPp] assms(4) by simp
  then have "map OutRspTransferDownload sent = map OutRspTransferDownload (map (piece_of S n c) [0..<?n])"
    by (simp add: comp_def)
  then have sent: "sent = map (piece_of S n c) [0..<?n]"
    by (rule map_injective) (auto simp: inj_def)
  have "mset arrived = image_mset (piece_of S n c) (mset [0..<?n])" by (simp only: assms(8) sent mset_map)
  from mset_image_list [OF this] obtain js where js: "arrived = map (piece_of S n c) js" "mset js = mset [0..<?n]"
    by (elim exE conjE)
  have d: "distinct js" unfolding mset_eq_imp_distinct_iff [OF js(2)] by (rule distinct_upt)
  have st: "set js = {..<?n}" unfolding mset_eq_setD [OF js(2)] by (simp only: set_upt atLeast0LessThan)
  have "set js \<noteq> {}" using piece_count_pos [OF c] unfolding st by blast
  then have ne: "js \<noteq> []" by blast
  have parts: "set js \<inter> {} = {}" "set js \<union> {} = {..<?n}" unfolding st by (rule Int_empty_right, rule Un_empty_right)
  have final: "final = foldl (\<lambda>N i. RspTransferDownload R (cost (piece_of S n c i)) False (piece_of S n c i) N)
      (NoticeFileSliceBackup R n receiver) js"
    unfolding assms(9) js(1) foldl_map ..
  show ?thesis
    using receive_rest [OF assms(5) notice_receiving [OF assms(6,7)] d parts ne, of "\<lambda>i. cost (piece_of S n c i)" S]
    unfolding final by (elim exE conjE) (intro conjI exI, assumption+)
qed

text \<open>A node with one slice of three bytes that another node is asked to take over.\<close>

definition demo_hash :: hash_lib where
  "demo_hash = \<lparr>cid_hash = \<lambda>_. [0], mh_sum = \<lambda>b. [sum_list b], cid_encode = \<lambda>b. ''slice'' @ digits (unat (hd b)) @ ''hashes''\<rparr>"

definition demo_pp :: "string \<Rightarrow> pp_env" where
  "demo_pp a = \<lparr>pe_home = \<lparr>StoragePath = ''/s'', RootPath = ''/r''\<rparr>, pe_io = no_errors, pe_hash = demo_hash,
     pe_address = a, pe_now = 0, pe_reachable = \<lambda>_. True\<rparr>"

definition demo_node :: "(string \<Rightarrow> bytes option) \<Rightarrow> slice_node" where
  "demo_node fs = \<lparr>transferTaskMap = [], verifyTaskMap = [], the_disk = \<lparr>files = fs, dirs = {}\<rparr>,
     transferSliceSpamCheckMap = NewAutoCleanMap 1 0, DownSendCostTimeMap = NewAutoCleanMap 1 0,
     DownRecvCostTimeMap = NewAutoCleanMap 1 0, outbox = []\<rparr>"

definition demo_notice :: BackupNotice where
  "demo_notice = \<lparr>n_FileHash = ''f'', n_PpInfo = \<lparr>pp_P2PAddress = ''a'', pp_NetworkAddress = ''net''\<rparr>,
     n_StorageInfo = \<lparr>SliceSize = 3, SliceHash = ''slice7hashes''\<rparr>, n_ToP2PAddress = ''b'', n_SpP2PAddress = ''sp'',
     n_TaskId = ''t'', n_SliceNumber = 1, n_DeleteOrigin = False, n_TimeStamp = 0\<rparr>"

lemma demo_CalcSliceHash: "CalcSliceHash demo_hash [1, 2, 3] f 1 = Some ''slice7hashes''"
proof -
  have "be_put 8 1 = [0, 0, 0, 0, 0, 0, 0, 1]" "char_of (55 :: nat) = CHR ''7''" by code_simp+
  then show ?thesis by (simp add: CalcSliceHash_def demo_hash_def digits.simps [of 7])
qed

lemma demo_transferable: "transferable (demo_pp a) demo_notice [1, 2, 3]"
  by (simp add: transferable_def demo_pp_def demo_notice_def demo_CalcSliceHash)

lemma demo_pieces: "piece_count [1, 2, 3] = 1" "piece [1, 2, 3] 0 = [1, 2, 3 :: u8]"
  by (simp_all add: piece_count_def piece_def MaxData_def)

theorem transfer_completes_witness:
  "slice_at (demo_pp ''b'') ''slice7hashes''
    (RspTransferDownload (demo_pp ''b'') 5 False (piece_of (demo_pp ''a'') demo_notice [1, 2, 3] 0)
      (NoticeFileSliceBackup (demo_pp ''b'') demo_notice (demo_node (\<lambda>_. None)))) = Some [1, 2, 3]"
proof -
  let ?S = "demo_pp ''a''" and ?c = "[1, 2, 3] :: bytes"
  let ?s = "demo_node [slice_file ''/s'' ''slice7hashes'' \<mapsto> ?c]"
  have n: "SliceHash (n_StorageInfo demo_notice) = ''slice7hashes''" by (simp add: demo_notice_def)
  have io: "pe_io ?S = no_errors" by (simp add: demo_pp_def)
  have at: "slice_at ?S (SliceHash (n_StorageInfo demo_notice)) ?s = Some ?c"
    by (simp add: n slice_at_def demo_pp_def demo_node_def)
  have fresh: "\<not> HashKey (transferSliceSpamCheckMap ?s) (spam_key demo_notice)"
    by (simp add: HashKey_def demo_node_def NewAutoCleanMap_def)
  have out: "outbox (ReqTransferDownload ?S demo_notice ''b'' ?s) =
      outbox ?s @ map OutRspTransferDownload [piece_of ?S demo_notice ?c 0]"
    using transfer_sends_slice [OF io at _ fresh, of "''b''"] by (simp add: n demo_pieces)
  have other: "pp_P2PAddress (n_PpInfo demo_notice) \<noteq> pe_address (demo_pp ''b'')"
    by (simp add: demo_notice_def demo_pp_def)
  have none: "slice_at (demo_pp ''b'') (SliceHash (n_StorageInfo demo_notice)) (demo_node (\<lambda>_. None)) = None"
    by (simp add: slice_at_def demo_node_def)
  from transfer_completes [OF io at fresh out demo_transferable other none refl refl, of "\<lambda>_. 5"]
  show ?thesis by (simp add: n)
qed

section \<open>Only verified slices are reported\<close>

lemma with_disk_Inr:
  assumes "with_disk m err N f = (Inr y, N')"
  obtains x d where "m = (Inr x, d)" "f x (N\<lparr>the_disk := d\<rparr>) = (Inr y, N')"
  using assms by (auto simp: with_disk_def split: prod.splits sum.splits)

lemma GetSliceData_stored:
  assumes "GetSliceData H io h d = (Inr f, d')"
  shows "files d' (slice_file (StoragePath H) h) = Some f"
  using assms
  by (cases rule: slice_path_cases [of "StoragePath H" io h d])
    (auto simp: GetSliceData_def getSlicePath_def GetWholeFileData_def split: option.splits if_splits)

lemma transfer_complete_outbox: "transfer_complete E m t N = (res, N') \<Longrightarrow> outbox N' = outbox N"
  by (auto simp: transfer_complete_def with_disk_def split: prod.splits sum.splits if_splits option.splits)

lemma SaveTransferData_outbox: "SaveTransferData E m N = (res, N') \<Longrightarrow> outbox N' = outbox N"
  by (auto simp: SaveTransferData_def with_disk_def AddAlreadySizeToTransferTask_def
      split: option.splits prod.splits sum.splits dest!: transfer_complete_outbox)

lemma transfer_complete_verified:
  assumes "transfer_complete E m t N = (Inr True, N')"
  shows "\<exists>c d. N' = N\<lparr>the_disk := d\<rparr> \<and> slice_at E (SliceHash (StorageInfo t)) N' = Some c \<and>
    CalcSliceHash (pe_hash E) c (FileHash t) (SliceNum t) = Some (SliceHash (StorageInfo t))"
  using assms unfolding transfer_complete_def
  by (fastforce elim!: with_disk_Inr dest: GetSliceData_stored simp: slice_at_def split: if_splits option.splits)

lemma SaveTransferData_verified:
  assumes "SaveTransferData E m N = (Inr True, N')"
  shows "\<exists>t c. GetTransferTask (d_TaskId m) (d_SliceHash m) N' = Some t \<and>
    slice_at E (SliceHash (StorageInfo t)) N' = Some c \<and>
    CalcSliceHash (pe_hash E) c (FileHash t) (SliceNum t) = Some (SliceHash (StorageInfo t))"
proof -
  from assms obtain t0 d1 where t0: "GetTransferTask (d_TaskId m) (d_SliceHash m) N = Some t0"
    and "(case AddAlreadySizeToTransferTask (pe_now E) (d_TaskId m) (d_SliceHash m)
        (word_of_nat (length (d_Data m))) (N\<lparr>the_disk := d1\<rparr>) of
      (None, N) \<Rightarrow> (Inl UpdateFailed, N) | (Some t, N) \<Rightarrow> transfer_complete E m t N) = (Inr True, N')"
    by (auto simp: SaveTransferData_def split: option.splits elim!: with_disk_Inr)
  moreover define t where "t = touched (pe_now E) (word_of_nat (length (d_Data m))) t0"
  moreover define N1 where "N1 = N\<lparr>the_disk := d1, transferTaskMap := AList.update (d_TaskId m @ d_SliceHash m) t (transferTaskMap N)\<rparr>"
  ultimately have run: "transfer_complete E m t N1 = (Inr True, N')"
    using GetTransferTask_add [of "d_TaskId m" "d_SliceHash m" "N\<lparr>the_disk := d1\<rparr>" t0]
    by (simp add: GetTransferTask_def)
  have "GetTransferTask (d_TaskId m) (d_SliceHash m) (N1\<lparr>the_disk := d\<rparr>) = Some t" for d
    by (simp add: N1_def GetTransferTask_def update_conv')
  with transfer_complete_verified [OF run] show ?thesis by auto
qed

text \<open>C36: Only a verified slice is reported. Whatever fails on the disk and whatever a packet contains, a
  report that a node sends while it receives a slice reports a success, and at that moment the node stores
  content whose hash, for the file and number of the report, is the slice hash of the report.\<close>

theorem transfer_verified:
  assumes "outbox (RspTransferDownload E cost failed m N) = outbox N @ out" and "OutReportBackupSliceResult r \<in> set out"
  shows "r_Success r \<and> (\<exists>c. slice_at E (r_SliceHash r) (RspTransferDownload E cost failed m N) = Some c \<and>
    CalcSliceHash (pe_hash E) c (r_FileHash r) (r_SliceNumber r) = Some (r_SliceHash r))"
proof -
  obtain tot cm where ct: "AddCostTime (d_TaskId m @ d_SliceHash m) cost (DownRecvCostTimeMap N) = (tot, cm)" by fastforce
  obtain res N1 where sv: "SaveTransferData E m (N\<lparr>DownRecvCostTimeMap := cm\<rparr>) = (res, N1)" by fastforce
  have same: "outbox N1 = outbox N" using SaveTransferData_outbox [OF sv] by simp
  have run: "RspTransferDownload E cost failed m N = (if failed \<or> d_Data m = [] then N
      else if res = Inr True then send (OutRspTransferDownloadResult (d_TaskId m) (d_SliceHash m) (d_SpP2PAddress m))
        (SendReportBackupSliceResult E (d_TaskId m) (d_SliceHash m) (d_SpP2PAddress m) True False tot N1) else N1)"
    by (simp add: RspTransferDownload_def ct sv)
  with assms same have c: "\<not> (failed \<or> d_Data m = [])" "res = Inr True" by (auto split: if_splits)
  obtain t c where t: "GetTransferTask (d_TaskId m) (d_SliceHash m) N1 = Some t"
      "slice_at E (SliceHash (StorageInfo t)) N1 = Some c"
      "CalcSliceHash (pe_hash E) c (FileHash t) (SliceNum t) = Some (SliceHash (StorageInfo t))"
    using SaveTransferData_verified sv c(2) by blast
  with assms run c same show ?thesis
    by (auto simp: SendReportBackupSliceResult_def slice_at_def)
qed

theorem transfer_verified_witness:
  "\<exists>r c. OutReportBackupSliceResult r \<in> set (outbox (RspTransferDownload (demo_pp ''b'') 5 False
        (piece_of (demo_pp ''a'') demo_notice [1, 2, 3] 0)
        (NoticeFileSliceBackup (demo_pp ''b'') demo_notice (demo_node (\<lambda>_. None))))) \<and>
    r_Success r \<and> CalcSliceHash demo_hash c (r_FileHash r) (r_SliceNumber r) = Some (r_SliceHash r)"
proof -
  let ?N = "NoticeFileSliceBackup (demo_pp ''b'') demo_notice (demo_node (\<lambda>_. None))"
  have "receiving (demo_pp ''b'') demo_notice [1, 2, 3] {} ?N"
    by (rule notice_receiving) (simp_all add: demo_notice_def demo_pp_def slice_at_def demo_node_def)
  from receive_message(3) [OF demo_transferable this _ _ _ refl, of 0 5 "demo_pp ''a''"]
  obtain r where r: "outbox (RspTransferDownload (demo_pp ''b'') 5 False (piece_of (demo_pp ''a'') demo_notice [1, 2, 3] 0) ?N) =
      outbox ?N @ [OutReportBackupSliceResult r, OutRspTransferDownloadResult (n_TaskId demo_notice)
        (SliceHash (n_StorageInfo demo_notice)) (n_SpP2PAddress demo_notice)]"
    by (auto simp: demo_pieces)
  have mem: "OutReportBackupSliceResult r \<in> set [OutReportBackupSliceResult r, OutRspTransferDownloadResult (n_TaskId demo_notice)
        (SliceHash (n_StorageInfo demo_notice)) (n_SpP2PAddress demo_notice)]" by simp
  have "pe_hash (demo_pp ''b'') = demo_hash" by (simp add: demo_pp_def)
  with transfer_verified [OF r mem] r show ?thesis by auto
qed

section \<open>Timeouts\<close>

text \<open>
  The task of a sender is stored without its \<open>TaskId\<close>, and a timed out task is reported under the
  \<open>TaskId\<close> it stores: the timeout of a sender removes the task and reports nothing.
\<close>

theorem sender_timeout_silent:
  assumes "map_of (transferTaskMap N) uid = Some t" and "TaskId t = []"
    and "map_of (transferTaskMap N) (SliceHash (StorageInfo t)) = None"
  shows "sendTransferFailureReportToSP E [uid] N = N\<lparr>transferTaskMap := AList.delete uid (transferTaskMap N)\<rparr>"
  using assms
  by (simp add: GetTransferTaskByTaskSliceUID_def SendReportBackupSliceResult_def GetTransferTask_def
      CleanTransferTaskByTaskSliceUID_def)

text \<open>A receiver's timeout is reported as a failure, and the task is gone.\<close>

lemma receiver_timeout_reported:
  assumes "map_of (transferTaskMap N) uid = Some t" and "uid = TaskId t @ SliceHash (StorageInfo t)"
  shows "\<exists>r. outbox (sendTransferFailureReportToSP E [uid] N) = outbox N @ [OutReportBackupSliceResult r] \<and>
      \<not> r_Success r \<and> r_TaskId r = TaskId t \<and> r_SliceHash r = SliceHash (StorageInfo t)"
    "GetTransferTaskByTaskSliceUID uid (sendTransferFailureReportToSP E [uid] N) = None"
  using assms
  by (simp_all add: GetTransferTaskByTaskSliceUID_def SendReportBackupSliceResult_def GetTransferTask_def
      CleanTransferTaskByTaskSliceUID_def delete_conv')

end
