(* ===== verification/Upload_Task.thy ===== *)
theory Upload_Task
  imports Slice_Transfer
begin

text \<open>
  The upload of a file in progress (\<open>pp/task/upload_task.go\<close>) and the handlers that drive it
  (\<open>uploadTaskHandler\<close>, \<open>uploadTaskHelper\<close>, \<open>UploadPause\<close> in \<open>pp/event/upload_file.go\<close>,
  \<open>RspUploadSlicesWrong\<close> in \<open>pp/event/upload_slice.go\<close>). Tasks of type \<open>BACKUP\<close> are never created and
  are left out. A Go map is a list of its entries in the order of the next iteration; the order is
  arbitrary, and a run may change it at any time.
\<close>

section \<open>Data\<close>

record SliceOffset =
  SliceOffsetStart :: u64
  SliceOffsetEnd :: u64

record SliceHashAddr =
  sl_SliceHash :: string
  sl_SliceNumber :: u64
  sl_SliceSize :: u64
  sl_SliceOffset :: SliceOffset
  sl_PpInfo :: PPBaseInfo

record RspUploadFile =
  ru_Slices :: "SliceHashAddr list"
  ru_FileHash :: string
  ru_TaskId :: string
  ru_OwnerWalletAddress :: string
  ru_SpP2PAddress :: string
  ru_TimeStamp :: int

datatype slice_status =
    SLICE_STATUS_STARTED | SLICE_STATUS_FAILED | SLICE_STATUS_WAITING_FOR_SP | SLICE_STATUS_REPLACED
  | SLICE_STATUS_FINISHED

datatype upload_state = STATE_NOT_STARTED | STATE_RUNNING | STATE_DONE | STATE_PAUSED

definition MAXSLICE :: int where
  "MAXSLICE = 50"

definition MAX_UPLOAD_RETRY :: nat where
  "MAX_UPLOAD_RETRY = 5"

definition UPLOAD_WAIT_TIMEOUT :: int where
  "UPLOAD_WAIT_TIMEOUT = 60"

text \<open>Times are in nanoseconds.\<close>

definition Second :: int where
  "Second = 1000000000"

record SliceWithStatus =
  slice :: SliceHashAddr
  Error :: "string option"
  fatal :: bool
  Status :: slice_status

record SlicesPerDestination =
  ppInfo :: PPBaseInfo
  slices :: "SliceWithStatus list"
  started :: bool

record UploadFileTask =
  rspUploadFile :: "nat \<Rightarrow> RspUploadFile option"
  destinations :: "(string \<times> SlicesPerDestination) list"
  state :: upload_state
  pause :: bool
  concurrentUploads :: int
  fatalError :: "string option"
  retryCount :: nat
  lastTouch :: int

text \<open>\<open>ts_RspUploadFile\<close> is a pointer, and nil when the map of responses has no entry.\<close>

record UploadSliceTask =
  ts_RspUploadFile :: "RspUploadFile option"
  ts_SliceNumber :: u64
  ts_SliceHash :: string

datatype upload_error = UploadErrNoUploadTask | UploadErrFatalError | UploadErrMaxRetries | UploadFinished

abbreviation address :: "SliceHashAddr \<Rightarrow> string" where
  "address s \<equiv> pp_P2PAddress (sl_PpInfo s)"

abbreviation number :: "SliceWithStatus \<Rightarrow> u64" where
  "number r \<equiv> sl_SliceNumber (slice r)"

section \<open>Creating a task\<close>

definition new_record :: "SliceHashAddr \<Rightarrow> SliceWithStatus" where
  "new_record s = \<lparr>slice = s, Error = None, fatal = False, Status = SLICE_STATUS_STARTED\<rparr>"

fun append_record :: "SliceHashAddr \<Rightarrow> (string \<times> SlicesPerDestination) list \<Rightarrow> (string \<times> SlicesPerDestination) list" where
  "append_record s [] = [(address s, \<lparr>ppInfo = sl_PpInfo s, slices = [new_record s], started = False\<rparr>)]"
| "append_record s ((a, d) # ds) =
     (if a = address s then (a, d\<lparr>slices := slices d @ [new_record s]\<rparr>) # ds else (a, d) # append_record s ds)"

definition CreateUploadFileTask :: "int \<Rightarrow> RspUploadFile \<Rightarrow> UploadFileTask" where
  "CreateUploadFileTask now target =
     \<lparr>rspUploadFile = [0 \<mapsto> target], destinations = foldl (\<lambda>ds s. append_record s ds) [] (ru_Slices target),
      state = STATE_NOT_STARTED, pause = False, concurrentUploads = 0, fatalError = None, retryCount = 0,
      lastTouch = now\<rparr>"

definition set_started :: "bool \<Rightarrow> string \<Rightarrow> (string \<times> SlicesPerDestination) list \<Rightarrow> (string \<times> SlicesPerDestination) list" where
  "set_started b a = map (\<lambda>(a', d). (a', if a' = a then d\<lparr>started := b\<rparr> else d))"

definition addNewSlice :: "SliceHashAddr \<Rightarrow> UploadFileTask \<Rightarrow> UploadFileTask" where
  "addNewSlice s u = u\<lparr>destinations := set_started False (address s) (append_record s (destinations u))\<rparr>"

section \<open>Reading a task\<close>

definition records :: "UploadFileTask \<Rightarrow> SliceWithStatus list" where
  "records u = concat (map (slices \<circ> snd) (destinations u))"

definition IsFinished :: "UploadFileTask \<Rightarrow> bool" where
  "IsFinished u = list_all (\<lambda>r. Status r = SLICE_STATUS_FINISHED \<or> Status r = SLICE_STATUS_REPLACED) (records u)"

text \<open>The error of the first fatal slice; a slice that is fatal without an error counts as none.\<close>

definition IsFatal :: "UploadFileTask \<Rightarrow> string option" where
  "IsFatal u = (case fatalError u of
       Some e \<Rightarrow> Some e
     | None \<Rightarrow> (case find fatal (records u) of None \<Rightarrow> None | Some r \<Rightarrow> Error r))"

text \<open>The two numbers whose quotient is the progress.\<close>

definition GetUploadProgress :: "UploadFileTask \<Rightarrow> nat \<times> nat" where
  "GetUploadProgress u =
     (length (filter (\<lambda>r. Status r = SLICE_STATUS_FINISHED) (records u)),
      length (filter (\<lambda>r. Status r \<noteq> SLICE_STATUS_REPLACED) (records u)))"

definition CanRetry :: "UploadFileTask \<Rightarrow> bool" where
  "CanRetry u \<longleftrightarrow> retryCount u < MAX_UPLOAD_RETRY"

definition excluded :: "SlicesPerDestination \<Rightarrow> bool" where
  "excluded d \<longleftrightarrow> list_ex (\<lambda>r. Status r \<in> {SLICE_STATUS_FAILED, SLICE_STATUS_WAITING_FOR_SP, SLICE_STATUS_REPLACED}) (slices d)"

definition GetExcludedDestinations :: "UploadFileTask \<Rightarrow> PPBaseInfo list" where
  "GetExcludedDestinations u = map (ppInfo \<circ> snd) (filter (excluded \<circ> snd) (destinations u))"

text \<open>\<open>u.rspUploadFile[0]\<close> is dereferenced without a check.\<close>

definition first_response :: "UploadFileTask \<Rightarrow> RspUploadFile go" where
  "first_response u = (case rspUploadFile u 0 of None \<Rightarrow> Panic ''nil pointer'' | Some r \<Rightarrow> Ret r)"

section \<open>Changing a task\<close>

definition Touch :: "int \<Rightarrow> UploadFileTask \<Rightarrow> UploadFileTask" where
  "Touch now u = u\<lparr>lastTouch := now\<rparr>"

definition SetRspUploadFile :: "RspUploadFile \<Rightarrow> UploadFileTask \<Rightarrow> UploadFileTask" where
  "SetRspUploadFile r u = u\<lparr>rspUploadFile := (rspUploadFile u)(retryCount u \<mapsto> r)\<rparr>"

definition to_report :: "SliceWithStatus \<Rightarrow> bool" where
  "to_report r \<longleftrightarrow> Status r \<in> {SLICE_STATUS_FAILED, SLICE_STATUS_STARTED, SLICE_STATUS_WAITING_FOR_SP}"

definition stop_failed :: "SlicesPerDestination \<Rightarrow> SlicesPerDestination" where
  "stop_failed d = d\<lparr>slices := map (\<lambda>r. if to_report r then r\<lparr>Status := SLICE_STATUS_WAITING_FOR_SP\<rparr> else r) (slices d),
     started := started d \<and> \<not> list_ex to_report (slices d)\<rparr>"

definition SliceFailuresToReport :: "UploadFileTask \<Rightarrow> (SliceHashAddr list \<times> bool list) \<times> UploadFileTask" where
  "SliceFailuresToReport u =
     (let rs = filter to_report (records u)
      in ((map slice rs, map (\<lambda>r. Status r = SLICE_STATUS_FAILED) rs),
          u\<lparr>destinations := map (\<lambda>(a, d). (a, stop_failed d)) (destinations u)\<rparr>))"

definition UpdateRetryCount :: "UploadFileTask \<Rightarrow> UploadFileTask" where
  "UpdateRetryCount u = u\<lparr>retryCount := Suc (retryCount u)\<rparr>"

definition SetFatalError :: "string \<Rightarrow> UploadFileTask \<Rightarrow> UploadFileTask" where
  "SetFatalError e u = u\<lparr>fatalError := Some e\<rparr>"

text \<open>Where a slice number is found last that is not yet replaced.\<close>

definition original_destination :: "UploadFileTask \<Rightarrow> u64 \<Rightarrow> string option" where
  "original_destination u n =
     map_of (rev (concat (map (\<lambda>(a, d). map (\<lambda>r. (number r, a)) (filter (\<lambda>r. Status r \<noteq> SLICE_STATUS_REPLACED) (slices d)))
        (destinations u)))) n"

text \<open>The first record with the number is replaced, also when it has been replaced before.\<close>

fun replace_first :: "u64 \<Rightarrow> SliceWithStatus list \<Rightarrow> SliceWithStatus list option" where
  "replace_first n [] = None"
| "replace_first n (r # rs) =
     (if number r = n then Some (r\<lparr>Status := SLICE_STATUS_REPLACED\<rparr> # rs) else map_option ((#) r) (replace_first n rs))"

fun replace_at :: "string \<Rightarrow> u64 \<Rightarrow> (string \<times> SlicesPerDestination) list \<Rightarrow> (string \<times> SlicesPerDestination) list option" where
  "replace_at a n [] = None"
| "replace_at a n ((a', d) # ds) =
     (if a' = a then map_option (\<lambda>rs. (a', d\<lparr>slices := rs\<rparr>) # ds) (replace_first n (slices d))
      else map_option ((#) (a', d)) (replace_at a n ds))"

definition replace_slice :: "(u64 \<Rightarrow> string option) \<Rightarrow> UploadFileTask \<Rightarrow> SliceHashAddr \<Rightarrow> UploadFileTask" where
  "replace_slice orig u new =
     (case orig (sl_SliceNumber new) of
        None \<Rightarrow> u
      | Some a \<Rightarrow> (case replace_at a (sl_SliceNumber new) (destinations u) of
            None \<Rightarrow> u
          | Some ds \<Rightarrow> addNewSlice new (u\<lparr>destinations := ds\<rparr>)))"

definition UpdateSliceDestinationsForRetry :: "SliceHashAddr list \<Rightarrow> UploadFileTask \<Rightarrow> UploadFileTask" where
  "UpdateSliceDestinationsForRetry news u =
     (if state u \<noteq> STATE_NOT_STARTED then u else foldl (replace_slice (original_destination u)) u news)"

text \<open>
  The first record with the hash that is not replaced gets the status; for replaced ones on the way
  nothing happens, since a replaced record is not a started one.
\<close>

fun set_status :: "string \<Rightarrow> slice_status \<Rightarrow> SliceWithStatus list \<Rightarrow> (bool \<times> SliceWithStatus list) option" where
  "set_status h st [] = None"
| "set_status h st (r # rs) =
     (if sl_SliceHash (slice r) = h \<and> Status r \<noteq> SLICE_STATUS_REPLACED
      then Some (st \<noteq> SLICE_STATUS_STARTED \<and> Status r = SLICE_STATUS_STARTED, r\<lparr>Status := st\<rparr> # rs)
      else map_option (\<lambda>(b, rs). (b, r # rs)) (set_status h st rs))"

fun set_status_in :: "string \<Rightarrow> slice_status \<Rightarrow> (string \<times> SlicesPerDestination) list \<Rightarrow>
    (bool \<times> (string \<times> SlicesPerDestination) list) option" where
  "set_status_in h st [] = None"
| "set_status_in h st ((a, d) # ds) =
     (case set_status h st (slices d) of
        Some (b, rs) \<Rightarrow> Some (b, (a, d\<lparr>slices := rs\<rparr>) # ds)
      | None \<Rightarrow> map_option (\<lambda>(b, ds). (b, (a, d) # ds)) (set_status_in h st ds))"

definition SetUploadSliceStatus :: "string \<Rightarrow> slice_status \<Rightarrow> UploadFileTask \<Rightarrow> UploadFileTask option" where
  "SetUploadSliceStatus h st u =
     (case set_status_in h st (destinations u) of
        None \<Rightarrow> None
      | Some (b, ds) \<Rightarrow> Some (u\<lparr>destinations := ds,
          concurrentUploads := (if b then concurrentUploads u - 1 else concurrentUploads u)\<rparr>))"

fun start_next :: "(string \<times> SlicesPerDestination) list \<Rightarrow> (SlicesPerDestination \<times> (string \<times> SlicesPerDestination) list) option" where
  "start_next [] = None"
| "start_next ((a, d) # ds) =
     (if \<not> started d then Some (d\<lparr>started := True\<rparr>, (a, d\<lparr>started := True\<rparr>) # ds)
      else map_option (\<lambda>(d', ds'). (d', (a, d) # ds')) (start_next ds))"

definition NextDestination :: "UploadFileTask \<Rightarrow> SlicesPerDestination option \<times> UploadFileTask" where
  "NextDestination u =
     (if concurrentUploads u \<ge> MAXSLICE then (None, u)
      else case start_next (destinations u) of
             None \<Rightarrow> (None, u)
           | Some (d, ds) \<Rightarrow> (Some d, u\<lparr>destinations := ds, concurrentUploads := concurrentUploads u + 1\<rparr>))"

section \<open>Uploading\<close>

definition setError :: "string \<Rightarrow> bool \<Rightarrow> SliceWithStatus \<Rightarrow> SliceWithStatus" where
  "setError e f r = r\<lparr>Error := Some e, fatal := f, Status := SLICE_STATUS_FAILED\<rparr>"

definition CreateUploadSliceTask :: "SliceWithStatus \<Rightarrow> UploadFileTask \<Rightarrow> UploadSliceTask" where
  "CreateUploadSliceTask r u =
     \<lparr>ts_RspUploadFile = rspUploadFile u (retryCount u), ts_SliceNumber = number r, ts_SliceHash = sl_SliceHash (slice r)\<rparr>"

text \<open>
  \<open>fn\<close> uploads one slice and changes the rest of the node, \<open>'w\<close>; it returns an error, or panics.
  The slices of a destination are uploaded until one fails.
\<close>

fun upload_slices :: "(UploadSliceTask \<Rightarrow> 'w \<Rightarrow> (string option \<times> 'w) go) \<Rightarrow> UploadFileTask \<Rightarrow> SliceWithStatus list \<Rightarrow>
    'w \<Rightarrow> (SliceWithStatus list \<times> 'w) go" where
  "upload_slices fn u [] w = Ret ([], w)"
| "upload_slices fn u (r # rs) w =
     (if fatalError u \<noteq> None then Ret (r # rs, w)
      else if Status r = SLICE_STATUS_FINISHED \<or> Status r = SLICE_STATUS_REPLACED
      then go_bind (upload_slices fn u rs w) (\<lambda>(rs, w). Ret (r # rs, w))
      else go_bind (fn (CreateUploadSliceTask r u) w) (\<lambda>(err, w).
        (case err of
           Some e \<Rightarrow> Ret (setError e False r # rs, w)
         | None \<Rightarrow> go_bind (upload_slices fn u rs w) (\<lambda>(rs, w). Ret (r # rs, w)))))"

text \<open>A paused task becomes \<open>STATE_PAUSED\<close> at the first slice; \<open>pause\<close> and the fatal error do not change meanwhile.\<close>

definition uploadSlicesToDestination :: "(UploadSliceTask \<Rightarrow> 'w \<Rightarrow> (string option \<times> 'w) go) \<Rightarrow> UploadFileTask \<Rightarrow>
    SliceWithStatus list \<Rightarrow> 'w \<Rightarrow> (SliceWithStatus list \<times> 'w) go" where
  "uploadSlicesToDestination fn u rs w = (if pause u then Ret (rs, w) else upload_slices fn u rs w)"

fun upload_all :: "(UploadSliceTask \<Rightarrow> 'w \<Rightarrow> (string option \<times> 'w) go) \<Rightarrow> UploadFileTask \<Rightarrow>
    (string \<times> SlicesPerDestination) list \<Rightarrow> 'w \<Rightarrow> ((string \<times> SlicesPerDestination) list \<times> int \<times> 'w) go" where
  "upload_all fn u [] w = Ret ([], 0, w)"
| "upload_all fn u ((a, d) # ds) w =
     (if started d then go_bind (upload_all fn u ds w) (\<lambda>(ds, k, w). Ret ((a, d) # ds, k, w))
      else go_bind (uploadSlicesToDestination fn u (slices d) w) (\<lambda>(rs, w).
             go_bind (upload_all fn u ds w) (\<lambda>(ds, k, w). Ret ((a, d\<lparr>slices := rs, started := True\<rparr>) # ds, k + 1, w))))"

definition UploadToDestination :: "(UploadSliceTask \<Rightarrow> 'w \<Rightarrow> (string option \<times> 'w) go) \<Rightarrow> UploadFileTask \<Rightarrow> 'w \<Rightarrow>
    (UploadFileTask \<times> 'w) go" where
  "UploadToDestination fn u w =
     (if state u = STATE_NOT_STARTED
      then if concurrentUploads u < MAXSLICE
           then go_bind (upload_all fn u (destinations u) w) (\<lambda>(ds, k, w).
             Ret (u\<lparr>destinations := ds, concurrentUploads := concurrentUploads u + k, state := STATE_DONE\<rparr>, w))
           else Ret (u\<lparr>state := STATE_RUNNING\<rparr>, w)
      else if state u = STATE_DONE \<and> pause u then Ret (u\<lparr>state := STATE_PAUSED\<rparr>, w)
      else Ret (u, w))"

section \<open>Driving a task\<close>

record slices_wrong =
  sw_FileHash :: string
  sw_TaskId :: string
  sw_SpP2PAddress :: string
  sw_ExcludedDestinations :: "PPBaseInfo list"
  sw_Slices :: "SliceHashAddr list"
  sw_FailedSlices :: "bool list"

definition ReqUploadSlicesWrong :: "UploadFileTask \<Rightarrow> SliceHashAddr list \<Rightarrow> bool list \<Rightarrow> slices_wrong go" where
  "ReqUploadSlicesWrong u ss failed = go_bind (first_response u) (\<lambda>r.
     Ret \<lparr>sw_FileHash = ru_FileHash r, sw_TaskId = ru_TaskId r, sw_SpP2PAddress = ru_SpP2PAddress r,
       sw_ExcludedDestinations = GetExcludedDestinations u, sw_Slices = ss, sw_FailedSlices = failed\<rparr>)"

text \<open>
  The state of one upload: its task while it is in \<open>UploadFileTaskMap\<close>, whether the repeated job of the
  task is scheduled, the requests to the SP, and the rest of the node.
\<close>

record 'w upload_world =
  the_task :: "UploadFileTask option"
  job :: bool
  wrong_requests :: "slices_wrong list"
  rest :: 'w

text \<open>The first part of the handler: a task without progress for a minute counts one more retry.\<close>

definition count_retry :: "int \<Rightarrow> UploadFileTask \<Rightarrow> upload_error option \<times> UploadFileTask" where
  "count_retry now u =
     (if now - lastTouch u > UPLOAD_WAIT_TIMEOUT * Second
      then let ((ss, _), u1) = SliceFailuresToReport u
           in if ss = [] then (None, u1)
              else let u2 = UpdateRetryCount (Touch now u1)
                   in if \<not> CanRetry u2 then (Some UploadErrMaxRetries, u2)
                      else (None, (if state u2 = STATE_DONE then u2\<lparr>state := STATE_PAUSED\<rparr> else u2)\<lparr>pause := True\<rparr>)
      else (None, u))"

definition uploadTaskHandler :: "(UploadSliceTask \<Rightarrow> 'w \<Rightarrow> (string option \<times> 'w) go) \<Rightarrow> int \<Rightarrow> 'w upload_world \<Rightarrow>
    (upload_error option \<times> 'w upload_world) go" where
  "uploadTaskHandler fn now W =
     (case the_task W of
        None \<Rightarrow> Ret (Some UploadErrNoUploadTask, W)
      | Some u0 \<Rightarrow>
        (case count_retry now u0 of
           (Some e, u) \<Rightarrow> Ret (Some e, W\<lparr>the_task := Some u\<rparr>)
         | (None, u) \<Rightarrow>
           if state u = STATE_PAUSED
           then let ((ss, failed), u1) = SliceFailuresToReport (u\<lparr>state := STATE_NOT_STARTED, pause := False\<rparr>)
                in go_bind (ReqUploadSlicesWrong u1 ss failed) (\<lambda>m.
                     Ret (None, W\<lparr>the_task := Some u1, wrong_requests := wrong_requests W @ [m]\<rparr>))
           else if IsFinished u then Ret (Some UploadFinished, W\<lparr>the_task := Some u\<rparr>)
           else if IsFatal u \<noteq> None then Ret (Some UploadErrFatalError, W\<lparr>the_task := Some u\<rparr>)
           else go_bind (UploadToDestination fn u (rest W)) (\<lambda>(u, w).
                  Ret (None, W\<lparr>the_task := Some u, rest := w\<rparr>))))"

definition StopRepeatedUploadTaskJob :: "'w upload_world \<Rightarrow> 'w upload_world go" where
  "StopRepeatedUploadTaskJob W =
     (if the_task W = None then Ret W
      else if \<not> job W then Panic ''nil pointer'' else Ret (W\<lparr>job := False\<rparr>))"

definition uploadTaskHelper :: "(UploadSliceTask \<Rightarrow> 'w \<Rightarrow> (string option \<times> 'w) go) \<Rightarrow> int \<Rightarrow> 'w upload_world \<Rightarrow>
    'w upload_world go" where
  "uploadTaskHelper fn now W = go_bind (uploadTaskHandler fn now W) (\<lambda>(err, W).
     (case err of
        None \<Rightarrow> Ret W
      | Some UploadErrNoUploadTask \<Rightarrow> StopRepeatedUploadTaskJob W
      | Some _ \<Rightarrow> go_bind (StopRepeatedUploadTaskJob W) (\<lambda>W. Ret (W\<lparr>the_task := None\<rparr>))))"

definition startUploadTask :: "(UploadSliceTask \<Rightarrow> 'w \<Rightarrow> (string option \<times> 'w) go) \<Rightarrow> int \<Rightarrow> RspUploadFile \<Rightarrow> 'w \<Rightarrow>
    'w upload_world go" where
  "startUploadTask fn now target w =
     go_bind (uploadTaskHelper fn now
       \<lparr>the_task = Some (CreateUploadFileTask now target), job = False, wrong_requests = [], rest = w\<rparr>) (\<lambda>W.
     Ret (W\<lparr>job := True\<rparr>))"

text \<open>
  The answer of the SP to a request for new destinations. The file hash in \<open>RspUploadFile\<close> is read before
  the result is looked at.
\<close>

record slices_wrong_answer =
  wa_failed :: "string option"
  wa_RspUploadFile :: "RspUploadFile option"

definition RspUploadSlicesWrong :: "(UploadSliceTask \<Rightarrow> 'w \<Rightarrow> (string option \<times> 'w) go) \<Rightarrow> int \<Rightarrow>
    slices_wrong_answer \<Rightarrow> 'w upload_world \<Rightarrow> 'w upload_world go" where
  "RspUploadSlicesWrong fn now target W =
     (case wa_RspUploadFile target of
        None \<Rightarrow> Panic ''nil pointer''
      | Some r \<Rightarrow>
        (case the_task W of
           None \<Rightarrow> Ret W
         | Some u \<Rightarrow>
           (case wa_failed target of
              Some m \<Rightarrow> Ret (W\<lparr>the_task := Some (SetFatalError m u)\<rparr>)
            | None \<Rightarrow>
              if ru_Slices r = []
              then Ret (W\<lparr>the_task := Some (SetFatalError ''No new slices in RspUploadSlicesWrong for file'' u)\<rparr>)
              else uploadTaskHelper fn now
                     (W\<lparr>the_task := Some (SetRspUploadFile r (UpdateSliceDestinationsForRetry (ru_Slices r) u))\<rparr>))))"

text \<open>The part of \<open>RspUploadFileSlice\<close> that marks a slice as uploaded.\<close>

definition slice_uploaded :: "int \<Rightarrow> string \<Rightarrow> 'w upload_world \<Rightarrow> 'w upload_world" where
  "slice_uploaded now h W =
     (case the_task W of
        None \<Rightarrow> W
      | Some u \<Rightarrow>
        (case SetUploadSliceStatus h SLICE_STATUS_FINISHED u of
           None \<Rightarrow> W
         | Some u1 \<Rightarrow> W\<lparr>the_task := Some (Touch now u1)\<rparr>))"

definition UploadPause :: "'w upload_world \<Rightarrow> 'w upload_world" where
  "UploadPause W = W\<lparr>the_task := None\<rparr>"

section \<open>Runs\<close>

datatype upload_event =
    Tick int
  | Answer int slices_wrong_answer
  | Uploaded int string
  | UserPause
  | Reorder "(string \<times> SlicesPerDestination) list"

definition reorder :: "(string \<times> SlicesPerDestination) list \<Rightarrow> 'w upload_world \<Rightarrow> 'w upload_world" where
  "reorder ds W = (case the_task W of
       None \<Rightarrow> W
     | Some u \<Rightarrow> if mset ds = mset (destinations u) then W\<lparr>the_task := Some (u\<lparr>destinations := ds\<rparr>)\<rparr> else W)"

fun upload_event_step :: "(UploadSliceTask \<Rightarrow> 'w \<Rightarrow> (string option \<times> 'w) go) \<Rightarrow> 'w upload_world \<Rightarrow> upload_event \<Rightarrow>
    'w upload_world go" where
  "upload_event_step fn W (Tick now) = (if job W then uploadTaskHelper fn now W else Ret W)"
| "upload_event_step fn W (Answer now a) = RspUploadSlicesWrong fn now a W"
| "upload_event_step fn W (Uploaded now h) = Ret (slice_uploaded now h W)"
| "upload_event_step fn W UserPause = Ret (UploadPause W)"
| "upload_event_step fn W (Reorder ds) = Ret (reorder ds W)"

definition upload_step :: "(UploadSliceTask \<Rightarrow> 'w \<Rightarrow> (string option \<times> 'w) go) \<Rightarrow> 'w upload_world go \<Rightarrow> upload_event \<Rightarrow>
    'w upload_world go" where
  "upload_step fn s e = go_bind s (\<lambda>W. upload_event_step fn W e)"

end
