(* ===== verification/Upload_Props.thy ===== *)
theory Upload_Props
  imports Upload_Task
begin

text \<open>
  What the upload of a file guarantees in every run, whatever the network, the SP and the storage nodes
  do: an upload ends with success only when every slice was confirmed, and it does not go on forever.
  And what it does not do: tell the SP which slices failed, and retry when many destinations fail.
\<close>

section \<open>The records of a task\<close>

abbreviation live :: "SliceWithStatus \<Rightarrow> bool" where
  "live r \<equiv> Status r \<noteq> SLICE_STATUS_REPLACED"

definition dest_recs :: "(string \<times> SlicesPerDestination) list \<Rightarrow> SliceWithStatus list" where
  "dest_recs ds = concat (map (slices \<circ> snd) ds)"

definition recs :: "(string \<times> SlicesPerDestination) list \<Rightarrow> SliceWithStatus multiset" where
  "recs ds = mset (dest_recs ds)"

lemma recs_simps [simp]: "recs [] = {#}" "recs ((a, d) # ds) = mset (slices d) + recs ds"
  by (simp_all add: recs_def dest_recs_def)

lemma set_records: "set (records u) = set_mset (recs (destinations u))"
  by (simp add: records_def recs_def dest_recs_def)

lemma recs_reorder: "mset ds = mset ds' \<Longrightarrow> recs ds = recs ds'"
  by (simp add: recs_def dest_recs_def mset_concat comp_assoc flip: sum_mset_sum_list)

lemma recs_append: "recs (append_record s ds) = add_mset (new_record s) (recs ds)"
  by (induction s ds rule: append_record.induct) auto

lemma recs_started: "recs (set_started b a ds) = recs ds"
  by (induction ds) (auto simp: set_started_def)

lemma recs_addNewSlice: "recs (destinations (addNewSlice s u)) = add_mset (new_record s) (recs (destinations u))"
  by (simp add: addNewSlice_def recs_started recs_append)

lemma replace_first_mset:
  "replace_first n rs = Some rs' \<Longrightarrow>
    \<exists>r\<in>#mset rs. number r = n \<and> mset rs' = add_mset (r\<lparr>Status := SLICE_STATUS_REPLACED\<rparr>) (mset rs - {#r#})"
proof (induction n rs arbitrary: rs' rule: replace_first.induct)
  case (2 n r rs)
  show ?case
  proof (cases "number r = n")
    case True
    with 2 show ?thesis by auto
  next
    case False
    with 2 obtain rs1 where "replace_first n rs = Some rs1" "rs' = r # rs1" by auto
    with 2 False obtain r1 where "r1 \<in># mset rs" "number r1 = n"
        "mset rs1 = add_mset (r1\<lparr>Status := SLICE_STATUS_REPLACED\<rparr>) (mset rs - {#r1#})" by blast
    with \<open>rs' = r # rs1\<close> show ?thesis by (intro bexI [of _ r1]) auto
  qed
qed simp

lemma replace_at_recs:
  "replace_at a n ds = Some ds' \<Longrightarrow>
    \<exists>r\<in>#recs ds. number r = n \<and> recs ds' = add_mset (r\<lparr>Status := SLICE_STATUS_REPLACED\<rparr>) (recs ds - {#r#})"
proof (induction a n ds arbitrary: ds' rule: replace_at.induct)
  case (2 a n a' d ds)
  show ?case
  proof (cases "a' = a")
    case True
    with 2 obtain rs where "replace_first n (slices d) = Some rs" "ds' = (a', d\<lparr>slices := rs\<rparr>) # ds" by auto
    with replace_first_mset [OF this(1)] show ?thesis by (auto simp: diff_union_swap2 intro!: bexI)
  next
    case False
    with 2 obtain ds1 where "replace_at a n ds = Some ds1" "ds' = (a', d) # ds1" by auto
    with 2 False obtain r1 where "r1 \<in># recs ds" "number r1 = n"
        "recs ds1 = add_mset (r1\<lparr>Status := SLICE_STATUS_REPLACED\<rparr>) (recs ds - {#r1#})" by blast
    with \<open>ds' = (a', d) # ds1\<close> show ?thesis by (intro bexI [of _ r1]) auto
  qed
qed simp

lemma set_status_mset:
  "set_status h st rs = Some (b, rs') \<Longrightarrow>
    \<exists>r\<in>#mset rs. sl_SliceHash (slice r) = h \<and> live r \<and> mset rs' = add_mset (r\<lparr>Status := st\<rparr>) (mset rs - {#r#})"
proof (induction h st rs arbitrary: rs' b rule: set_status.induct)
  case (2 h st r rs)
  show ?case
  proof (cases "sl_SliceHash (slice r) = h \<and> live r")
    case True
    with 2 show ?thesis by auto
  next
    case False
    with 2 obtain rs1 b1 where "set_status h st rs = Some (b1, rs1)" "rs' = r # rs1" by auto
    with 2 False obtain r1 where "r1 \<in># mset rs" "sl_SliceHash (slice r1) = h" "live r1"
        "mset rs1 = add_mset (r1\<lparr>Status := st\<rparr>) (mset rs - {#r1#})" by blast
    with \<open>rs' = r # rs1\<close> show ?thesis by (intro bexI [of _ r1]) auto
  qed
qed simp

lemma set_status_recs:
  "set_status_in h st ds = Some (b, ds') \<Longrightarrow>
    \<exists>r\<in>#recs ds. sl_SliceHash (slice r) = h \<and> live r \<and> recs ds' = add_mset (r\<lparr>Status := st\<rparr>) (recs ds - {#r#})"
proof (induction h st ds arbitrary: ds' b rule: set_status_in.induct)
  case (2 h st a d ds)
  show ?case
  proof (cases "set_status h st (slices d)")
    case (Some x)
    then obtain b1 rs where x: "set_status h st (slices d) = Some (b1, rs)" by (cases x) auto
    with 2 have "ds' = (a, d\<lparr>slices := rs\<rparr>) # ds" by auto
    with set_status_mset [OF x] show ?thesis by (auto simp: diff_union_swap2 intro!: bexI)
  next
    case None
    with 2 obtain b1 ds1 where "set_status_in h st ds = Some (b1, ds1)" "ds' = (a, d) # ds1" by auto
    with 2 None obtain r1 where "r1 \<in># recs ds" "sl_SliceHash (slice r1) = h" "live r1"
        "recs ds1 = add_mset (r1\<lparr>Status := st\<rparr>) (recs ds - {#r1#})" by blast
    with \<open>ds' = (a, d) # ds1\<close> show ?thesis by (intro bexI [of _ r1]) auto
  qed
qed simp

lemma recs_failures:
  "recs (destinations (snd (SliceFailuresToReport u))) =
    image_mset (\<lambda>r. if to_report r then r\<lparr>Status := SLICE_STATUS_WAITING_FOR_SP\<rparr> else r) (recs (destinations u))"
proof -
  have "recs (map (\<lambda>(a, d). (a, stop_failed d)) ds) =
      image_mset (\<lambda>r. if to_report r then r\<lparr>Status := SLICE_STATUS_WAITING_FOR_SP\<rparr> else r) (recs ds)" for ds
    by (induction ds) (auto simp: stop_failed_def)
  then show ?thesis by (simp add: SliceFailuresToReport_def Let_def)
qed

text \<open>Uploading changes records only by marking them as failed.\<close>

definition tried :: "SliceWithStatus \<Rightarrow> SliceWithStatus \<Rightarrow> bool" where
  "tried r r' \<longleftrightarrow> r' = r \<or> (live r \<and> Status r \<noteq> SLICE_STATUS_FINISHED \<and> (\<exists>e. r' = setError e False r))"

lemma tried_refl: "list_all2 tried rs rs"
  by (rule list_all2_refl) (simp add: tried_def)

lemma upload_slices_tried: "upload_slices fn u rs w = Ret (rs', w') \<Longrightarrow> list_all2 tried rs rs'"
proof (induction fn u rs w arbitrary: rs' w' rule: upload_slices.induct)
  case (2 fn u r rs w)
  have r: "tried r r" by (simp add: tried_def)
  show ?case
  proof (cases "fatalError u \<noteq> None")
    case True
    with 2 show ?thesis by (simp add: tried_refl)
  next
    case alive: False
    show ?thesis
    proof (cases "Status r = SLICE_STATUS_FINISHED \<or> Status r = SLICE_STATUS_REPLACED")
      case True
      with alive 2 r show ?thesis by (auto simp: go_simps)
    next
      case False
      with alive 2 obtain err w1 where fn: "fn (CreateUploadSliceTask r u) w = Ret (err, w1)"
        by (auto simp: go_simps)
      show ?thesis
      proof (cases err)
        case None
        with fn alive False 2 r show ?thesis by (auto simp: go_simps)
      next
        case (Some e)
        with fn alive False 2 have "rs' = setError e False r # rs" by simp
        moreover have "tried r (setError e False r)" using False by (auto simp: tried_def)
        ultimately show ?thesis by (simp add: tried_refl)
      qed
    qed
  qed
qed simp

lemma upload_all_tried:
  "upload_all fn u ds w = Ret (ds', k, w') \<Longrightarrow> list_all2 tried (dest_recs ds) (dest_recs ds')"
proof (induction fn u ds w arbitrary: ds' k w' rule: upload_all.induct)
  case (2 fn u a d ds w)
  show ?case
  proof (cases "started d")
    case True
    with 2 show ?thesis by (auto simp: go_simps dest_recs_def intro!: list_all2_appendI tried_refl)
  next
    case False
    with 2 obtain rs w1 ds1 k1 where u: "uploadSlicesToDestination fn u (slices d) w = Ret (rs, w1)"
        "upload_all fn u ds w1 = Ret (ds1, k1, w')" "ds' = (a, d\<lparr>slices := rs, started := True\<rparr>) # ds1"
      by (auto simp: go_simps)
    from u(1) have "list_all2 tried (slices d) rs"
      by (auto simp: uploadSlicesToDestination_def tried_refl upload_slices_tried split: if_splits)
    with 2 False u show ?thesis by (auto simp: dest_recs_def intro!: list_all2_appendI)
  qed
qed (simp add: dest_recs_def)


lemma list_all2_set_right: "list_all2 P xs ys \<Longrightarrow> y \<in> set ys \<Longrightarrow> \<exists>x\<in>set xs. P x y"
  by (induction rule: list_all2_induct) auto

lemma list_all2_set_left: "list_all2 P xs ys \<Longrightarrow> x \<in> set xs \<Longrightarrow> \<exists>y\<in>set ys. P x y"
  by (induction rule: list_all2_induct) auto

section \<open>What every step keeps\<close>

text \<open>
  \<open>ns\<close> are the numbers of the file's slices, \<open>H\<close> the hashes of the slices that were confirmed, and \<open>quiet\<close>
  says that no upload was tried since the failures were collected.
\<close>

definition rec_inv :: "u64 set \<Rightarrow> string set \<Rightarrow> bool \<Rightarrow> SliceWithStatus multiset \<Rightarrow> bool" where
  "rec_inv ns H quiet R \<longleftrightarrow> (\<forall>n\<in>ns. \<exists>r\<in>#R. number r = n \<and> live r) \<and>
     (\<forall>r\<in>#R. Status r = SLICE_STATUS_FINISHED \<longrightarrow> sl_SliceHash (slice r) \<in> H) \<and>
     (quiet \<longrightarrow> (\<forall>r\<in>#R. Status r \<noteq> SLICE_STATUS_FAILED))"

lemma rec_inv_mono: "rec_inv ns H q R \<Longrightarrow> H \<subseteq> H' \<Longrightarrow> (q' \<longrightarrow> q) \<Longrightarrow> rec_inv ns H' q' R"
  by (auto simp: rec_inv_def)

lemma rec_inv_failures:
  assumes "rec_inv ns H q R"
  shows "rec_inv ns H q' (image_mset (\<lambda>r. if to_report r then r\<lparr>Status := SLICE_STATUS_WAITING_FOR_SP\<rparr> else r) R)"
  unfolding rec_inv_def
proof (intro conjI ballI)
  fix n assume "n \<in> ns"
  then obtain x where x: "x \<in># R" "number x = n" "live x" using assms(1) by (auto simp: rec_inv_def)
  let ?y = "if to_report x then x\<lparr>Status := SLICE_STATUS_WAITING_FOR_SP\<rparr> else x"
  have "number ?y = n" "live ?y" using x by auto
  with x(1) show "\<exists>r\<in>#image_mset (\<lambda>r. if to_report r then r\<lparr>Status := SLICE_STATUS_WAITING_FOR_SP\<rparr> else r) R.
      number r = n \<and> live r" by (intro bexI [of _ ?y]) auto
qed (use assms in \<open>auto simp: rec_inv_def to_report_def\<close>)

lemma rec_inv_replaced:
  assumes "rec_inv ns H q R" "r \<in># R" "number r = sl_SliceNumber s"
  shows "rec_inv ns H q (add_mset (new_record s) (add_mset (r\<lparr>Status := SLICE_STATUS_REPLACED\<rparr>) (R - {#r#})))"
  unfolding rec_inv_def
proof (intro conjI ballI)
  fix n assume "n \<in> ns"
  then obtain x where x: "x \<in># R" "number x = n" "live x" using assms(1) by (auto simp: rec_inv_def)
  show "\<exists>r'\<in>#add_mset (new_record s) (add_mset (r\<lparr>Status := SLICE_STATUS_REPLACED\<rparr>) (R - {#r#})). number r' = n \<and> live r'"
  proof (cases "n = sl_SliceNumber s")
    case True
    then show ?thesis by (auto simp: new_record_def)
  next
    case False
    with x assms(3) have "x \<noteq> r" by auto
    with x(1) have "x \<in># R - {#r#}" by (simp add: in_diff_count)
    with x show ?thesis by auto
  qed
qed (use assms in \<open>auto simp: rec_inv_def new_record_def dest!: in_diffD\<close>)

lemma rec_inv_status:
  assumes "rec_inv ns H q R" "r \<in># R" "live r"
  shows "rec_inv ns (insert (sl_SliceHash (slice r)) H) q (add_mset (r\<lparr>Status := SLICE_STATUS_FINISHED\<rparr>) (R - {#r#}))"
  unfolding rec_inv_def
proof (intro conjI ballI)
  fix n assume "n \<in> ns"
  then obtain x where x: "x \<in># R" "number x = n" "live x" using assms(1) by (auto simp: rec_inv_def)
  show "\<exists>r'\<in>#add_mset (r\<lparr>Status := SLICE_STATUS_FINISHED\<rparr>) (R - {#r#}). number r' = n \<and> live r'"
  proof (cases "x = r")
    case True
    with x show ?thesis by auto
  next
    case False
    with x(1) have "x \<in># R - {#r#}" by (simp add: in_diff_count)
    with x show ?thesis by auto
  qed
qed (use assms in \<open>auto simp: rec_inv_def dest!: in_diffD\<close>)

lemma rec_inv_tried:
  assumes "rec_inv ns H q (mset rs)" "list_all2 tried rs rs'"
  shows "rec_inv ns H False (mset rs')"
  unfolding rec_inv_def
proof (intro conjI ballI)
  fix n assume "n \<in> ns"
  then obtain x where x: "x \<in> set rs" "number x = n" "live x" using assms(1) by (auto simp: rec_inv_def)
  then obtain y where "y \<in> set rs'" "tried x y" using list_all2_set_left [OF assms(2)] by blast
  moreover from \<open>tried x y\<close> x have "number y = n" "live y" by (auto simp: tried_def setError_def)
  ultimately show "\<exists>r\<in>#mset rs'. number r = n \<and> live r" by auto
next
  fix y assume "y \<in># mset rs'"
  then obtain x where "x \<in> set rs" "tried x y" using list_all2_set_right [OF assms(2)] by auto
  then show "Status y = SLICE_STATUS_FINISHED \<longrightarrow> sl_SliceHash (slice y) \<in> H"
    using assms(1) by (auto simp: rec_inv_def tried_def setError_def)
qed simp

definition quiet :: "UploadFileTask \<Rightarrow> bool" where
  "quiet u \<longleftrightarrow> pause u \<or> state u = STATE_PAUSED"

definition task_inv :: "u64 set \<Rightarrow> string set \<Rightarrow> UploadFileTask \<Rightarrow> bool" where
  "task_inv ns H u \<longleftrightarrow> rec_inv ns H (quiet u) (recs (destinations u)) \<and> retryCount u < MAX_UPLOAD_RETRY \<and>
     rspUploadFile u 0 \<noteq> None"

lemma failures_fields:
  assumes "SliceFailuresToReport u = ((ss, failed), u')"
  shows "state u' = state u" "pause u' = pause u" "retryCount u' = retryCount u" "lastTouch u' = lastTouch u"
    "rspUploadFile u' = rspUploadFile u" "concurrentUploads u' = concurrentUploads u" "fatalError u' = fatalError u"
    "ss = map slice (filter to_report (records u))"
    "recs (destinations u') =
      image_mset (\<lambda>r. if to_report r then r\<lparr>Status := SLICE_STATUS_WAITING_FOR_SP\<rparr> else r) (recs (destinations u))"
  using assms recs_failures [of u] by (auto simp: SliceFailuresToReport_def Let_def)

definition timed_out :: "int \<Rightarrow> UploadFileTask \<Rightarrow> bool" where
  "timed_out now u \<longleftrightarrow> now - lastTouch u > UPLOAD_WAIT_TIMEOUT * Second"

definition unfinished :: "UploadFileTask \<Rightarrow> bool" where
  "unfinished u \<longleftrightarrow> filter to_report (records u) \<noteq> []"

lemma count_retry_eq:
  "count_retry now u =
    (if \<not> timed_out now u then (None, u)
     else let u1 = snd (SliceFailuresToReport u)
       in if \<not> unfinished u then (None, u1)
          else if Suc (retryCount u) < MAX_UPLOAD_RETRY
          then (None, u1\<lparr>lastTouch := now, retryCount := Suc (retryCount u),
            state := (if state u = STATE_DONE then STATE_PAUSED else state u), pause := True\<rparr>)
          else (Some UploadErrMaxRetries, u1\<lparr>lastTouch := now, retryCount := Suc (retryCount u)\<rparr>))"
  by (simp add: count_retry_def timed_out_def unfinished_def SliceFailuresToReport_def Let_def Touch_def
      UpdateRetryCount_def CanRetry_def)

lemma count_retry_inv:
  assumes "task_inv ns H u" and "count_retry now u = (None, u')"
  shows "task_inv ns H u'"
proof (cases "timed_out now u")
  case True
  obtain ss failed u1 where f: "SliceFailuresToReport u = ((ss, failed), u1)" by (metis surj_pair)
  note u1 = failures_fields [OF f]
  from assms(1) have "rec_inv ns H q (recs (destinations u1))" for q
    unfolding u1 by (intro rec_inv_failures) (auto simp: task_inv_def)
  moreover have "retryCount u1 < MAX_UPLOAD_RETRY" "rspUploadFile u1 0 \<noteq> None"
    using assms(1) u1 by (simp_all add: task_inv_def)
  ultimately show ?thesis
    using True f assms(2) by (auto simp: count_retry_eq task_inv_def Let_def split: if_splits)
next
  case False
  with assms show ?thesis by (simp add: count_retry_eq)
qed

lemma upload_all_paused: "pause u \<Longrightarrow> upload_all fn u ds w = Ret (ds', k, w') \<Longrightarrow> dest_recs ds' = dest_recs ds"
  by (induction fn u ds w arbitrary: ds' k w' rule: upload_all.induct)
    (auto simp: go_simps dest_recs_def uploadSlicesToDestination_def split: if_splits)

lemma UploadToDestination_inv:
  assumes "task_inv ns H u" and "UploadToDestination fn u w = Ret (u', w')"
  shows "task_inv ns H u'"
proof (cases "state u = STATE_NOT_STARTED \<and> concurrentUploads u < MAXSLICE")
  case True
  with assms(2) obtain ds k where up: "upload_all fn u (destinations u) w = Ret (ds, k, w')"
    and u': "u' = u\<lparr>destinations := ds, concurrentUploads := concurrentUploads u + k, state := STATE_DONE\<rparr>"
    by (auto simp: UploadToDestination_def go_simps)
  have "rec_inv ns H (pause u) (recs ds)"
  proof (cases "pause u")
    case True
    with upload_all_paused [OF this up] assms(1) show ?thesis by (simp add: task_inv_def quiet_def recs_def)
  next
    case False
    with assms(1) upload_all_tried [OF up] show ?thesis by (auto simp: task_inv_def recs_def intro: rec_inv_tried)
  qed
  with assms(1) show ?thesis by (simp add: u' task_inv_def quiet_def)
next
  case False
  with assms show ?thesis
    by (auto simp: UploadToDestination_def task_inv_def quiet_def split: if_splits elim: rec_inv_mono)
qed

definition world_inv :: "u64 set \<Rightarrow> string set \<Rightarrow> 'w upload_world \<Rightarrow> bool" where
  "world_inv ns H W \<longleftrightarrow> (\<forall>u. the_task W = Some u \<longrightarrow> task_inv ns H u) \<and>
     (\<forall>m\<in>set (wrong_requests W). True \<notin> set (sw_FailedSlices m))"

lemma handler_cases:
  assumes "uploadTaskHandler fn now W = Ret (err, W')"
  obtains
    (no_task) "the_task W = None" "err = Some UploadErrNoUploadTask" "W' = W"
  | (max_retries) u0 u where "the_task W = Some u0" "count_retry now u0 = (Some UploadErrMaxRetries, u)"
      "err = Some UploadErrMaxRetries" "W' = W\<lparr>the_task := Some u\<rparr>"
  | (request) u0 u ss failed u1 m where "the_task W = Some u0" "count_retry now u0 = (None, u)" "state u = STATE_PAUSED"
      "SliceFailuresToReport (u\<lparr>state := STATE_NOT_STARTED, pause := False\<rparr>) = ((ss, failed), u1)"
      "ReqUploadSlicesWrong u1 ss failed = Ret m" "err = None"
      "W' = W\<lparr>the_task := Some u1, wrong_requests := wrong_requests W @ [m]\<rparr>"
  | (finished) u0 u where "the_task W = Some u0" "count_retry now u0 = (None, u)" "state u \<noteq> STATE_PAUSED" "IsFinished u"
      "err = Some UploadFinished" "W' = W\<lparr>the_task := Some u\<rparr>"
  | (fatal) u0 u where "the_task W = Some u0" "count_retry now u0 = (None, u)" "state u \<noteq> STATE_PAUSED"
      "err = Some UploadErrFatalError"
      "W' = W\<lparr>the_task := Some u\<rparr>"
  | (upload) u0 u u1 w where "the_task W = Some u0" "count_retry now u0 = (None, u)" "state u \<noteq> STATE_PAUSED"
      "\<not> IsFinished u" "UploadToDestination fn u (rest W) = Ret (u1, w)" "err = None"
      "W' = W\<lparr>the_task := Some u1, rest := w\<rparr>"
proof (cases "the_task W")
  case None
  have "Ret (Some UploadErrNoUploadTask, W) = Ret (err, W')"
    using assms unfolding uploadTaskHandler_def None option.case .
  then have "err = Some UploadErrNoUploadTask" "W' = W" by simp_all
  then show ?thesis by (rule no_task [OF None])
next
  case (Some u0)
  obtain e u where cr: "count_retry now u0 = (e, u)" by fastforce
  show ?thesis
  proof (cases e)
    case (Some x)
    then have x: "x = UploadErrMaxRetries" using cr by (auto simp: count_retry_eq Let_def split: if_splits)
    show ?thesis
      using assms max_retries [OF \<open>the_task W = Some u0\<close> cr [unfolded Some x]]
      unfolding uploadTaskHandler_def \<open>the_task W = Some u0\<close> cr [unfolded Some x] option.case prod.case by simp
  next
    case None
    note cr = cr [unfolded None]
    have run: "uploadTaskHandler fn now W =
        (if state u = STATE_PAUSED
         then let ((ss, failed), u1) = SliceFailuresToReport (u\<lparr>state := STATE_NOT_STARTED, pause := False\<rparr>)
              in go_bind (ReqUploadSlicesWrong u1 ss failed) (\<lambda>m.
                   Ret (None, W\<lparr>the_task := Some u1, wrong_requests := wrong_requests W @ [m]\<rparr>))
         else if IsFinished u then Ret (Some UploadFinished, W\<lparr>the_task := Some u\<rparr>)
         else if IsFatal u \<noteq> None then Ret (Some UploadErrFatalError, W\<lparr>the_task := Some u\<rparr>)
         else go_bind (UploadToDestination fn u (rest W)) (\<lambda>(u, w). Ret (None, W\<lparr>the_task := Some u, rest := w\<rparr>)))"
      unfolding uploadTaskHandler_def Some cr option.case prod.case ..
    consider (p) "state u = STATE_PAUSED" | (fin) "state u \<noteq> STATE_PAUSED" "IsFinished u"
      | (ft) "state u \<noteq> STATE_PAUSED" "\<not> IsFinished u" "IsFatal u \<noteq> None"
      | (up) "state u \<noteq> STATE_PAUSED" "\<not> IsFinished u" "IsFatal u = None" by blast
    then show ?thesis
    proof cases
      case p
      obtain ss failed u1 where f:
        "SliceFailuresToReport (u\<lparr>state := STATE_NOT_STARTED, pause := False\<rparr>) = ((ss, failed), u1)" by (metis surj_pair)
      have "go_bind (ReqUploadSlicesWrong u1 ss failed) (\<lambda>m.
          Ret (None, W\<lparr>the_task := Some u1, wrong_requests := wrong_requests W @ [m]\<rparr>)) = Ret (err, W')"
        using assms unfolding run f if_P [OF p] by simp
      then obtain m where m: "ReqUploadSlicesWrong u1 ss failed = Ret m"
          "Ret (None, W\<lparr>the_task := Some u1, wrong_requests := wrong_requests W @ [m]\<rparr>) = Ret (err, W')"
        unfolding go_bind_Ret by (elim exE conjE)
      from m(2) have "err = None" "W' = W\<lparr>the_task := Some u1, wrong_requests := wrong_requests W @ [m]\<rparr>"
        by simp_all
      with request [OF Some cr p f m(1)] show ?thesis by blast
    next
      case fin
      have "Ret (Some UploadFinished, W\<lparr>the_task := Some u\<rparr>) = Ret (err, W')"
        using assms unfolding run if_not_P [OF fin(1)] if_P [OF fin(2)] .
      then show ?thesis unfolding go.inject prod.inject by (elim conjE) (rule finished [OF Some cr fin], simp_all only:)
    next
      case ft
      have "Ret (Some UploadErrFatalError, W\<lparr>the_task := Some u\<rparr>) = Ret (err, W')"
        using assms unfolding run if_not_P [OF ft(1)] if_not_P [OF ft(2)] if_P [OF ft(3)] .
      then show ?thesis unfolding go.inject prod.inject by (elim conjE) (rule fatal [OF Some cr ft(1)], simp_all only:)
    next
      case up
      have "go_bind (UploadToDestination fn u (rest W)) (\<lambda>(u, w). Ret (None, W\<lparr>the_task := Some u, rest := w\<rparr>)) = Ret (err, W')"
        using assms unfolding run if_not_P [OF up(1)] if_not_P [OF up(2)] up(3) by simp
      then obtain u1 w where u1: "UploadToDestination fn u (rest W) = Ret (u1, w)"
          "Ret (None, W\<lparr>the_task := Some u1, rest := w\<rparr>) = Ret (err, W')"
        by (auto simp: go_bind_Ret)
      from u1(2) have "err = None" "W' = W\<lparr>the_task := Some u1, rest := w\<rparr>"
        by simp_all
      with upload [OF Some cr up(1,2) u1(1)] show ?thesis by blast
    qed
  qed
qed

lemma world_inv_task: "world_inv ns H W \<Longrightarrow> the_task W = Some u \<Longrightarrow> task_inv ns H u"
  by (simp add: world_inv_def)

lemma world_inv_set: "world_inv ns H W \<Longrightarrow> task_inv ns H u \<Longrightarrow> world_inv ns H (W\<lparr>the_task := Some u\<rparr>)"
  by (simp add: world_inv_def)

definition no_failure_reported :: "'w upload_world \<Rightarrow> bool" where
  "no_failure_reported W \<longleftrightarrow> (\<forall>m\<in>set (wrong_requests W). True \<notin> set (sw_FailedSlices m))"

lemma request_inv:
  assumes ui: "task_inv ns H u" and "state u = STATE_PAUSED"
    and f: "SliceFailuresToReport (u\<lparr>state := STATE_NOT_STARTED, pause := False\<rparr>) = ((ss, failed), u1)"
  shows "task_inv ns H u1" "True \<notin> set failed"
proof -
  note u1 = failures_fields [OF f]
  have "rec_inv ns H q (recs (destinations u1))" for q
    unfolding u1 using ui by (intro rec_inv_failures) (auto simp: task_inv_def)
  then show "task_inv ns H u1" using ui u1 by (simp add: task_inv_def)
  have "r \<in> set (records u) \<Longrightarrow> Status r \<noteq> SLICE_STATUS_FAILED" for r
    using ui assms(2) by (auto simp: task_inv_def quiet_def rec_inv_def set_records)
  then show "True \<notin> set failed"
    using f by (auto simp: SliceFailuresToReport_def Let_def records_def)
qed

lemma handler_inv:
  assumes inv: "world_inv ns H W" and h: "uploadTaskHandler fn now W = Ret (err, W')"
  shows "no_failure_reported W'" "err = None \<Longrightarrow> world_inv ns H W'"
    "err = Some UploadFinished \<Longrightarrow> \<exists>u. the_task W' = Some u \<and> task_inv ns H u \<and> IsFinished u"
proof -
  have nf: "no_failure_reported W" using inv by (simp add: world_inv_def no_failure_reported_def)
  have kept: "task_inv ns H u" if "the_task W = Some u0" "count_retry now u0 = (None, u)" for u0 u
    by (rule count_retry_inv [OF world_inv_task [OF inv that(1)] that(2)])
  from h show "no_failure_reported W'"
  proof (cases rule: handler_cases)
    case (request u0 u ss failed u1 m)
    have "sw_FailedSlices m = failed" using request(5) by (auto simp: ReqUploadSlicesWrong_def go_simps)
    with request_inv(2) [OF kept request(3,4)] request(1,2,7) nf show ?thesis by (simp add: no_failure_reported_def)
  qed (use nf in \<open>simp_all add: no_failure_reported_def\<close>)
  from h show "world_inv ns H W'" if "err = None"
  proof (cases rule: handler_cases)
    case (request u0 u ss failed u1 m)
    have "sw_FailedSlices m = failed" using request(5) by (auto simp: ReqUploadSlicesWrong_def go_simps)
    with request_inv [OF kept [OF request(1,2)] request(3,4)] inv show ?thesis
      unfolding request(7) by (simp add: world_inv_def)
  next
    case (upload u0 u u1 w)
    have "task_inv ns H u1" by (rule UploadToDestination_inv [OF kept [OF upload(1,2)] upload(5)])
    with inv show ?thesis unfolding upload(7) by (simp add: world_inv_def)
  qed (use that in simp_all)
  from h show "\<exists>u. the_task W' = Some u \<and> task_inv ns H u \<and> IsFinished u" if "err = Some UploadFinished"
  proof (cases rule: handler_cases)
    case (finished u0 u)
    with kept [OF finished(1,2)] show ?thesis unfolding finished(6) by simp
  qed (use that in simp_all)
qed

lemma helper_cases:
  assumes "uploadTaskHelper fn now W = Ret W'"
  obtains (goes_on) "uploadTaskHandler fn now W = Ret (None, W')"
  | (no_task) "the_task W = None" "W' = W"
  | (ends) e W1 where "uploadTaskHandler fn now W = Ret (Some e, W1)" "e \<noteq> UploadErrNoUploadTask" "job W1"
      "W' = W1\<lparr>job := False, the_task := None\<rparr>"
proof -
  obtain err W1 where h: "uploadTaskHandler fn now W = Ret (err, W1)"
    using assms by (auto simp: uploadTaskHelper_def go_bind_Ret)
  have run: "uploadTaskHelper fn now W = (case err of
        None \<Rightarrow> Ret W1
      | Some UploadErrNoUploadTask \<Rightarrow> StopRepeatedUploadTaskJob W1
      | Some _ \<Rightarrow> go_bind (StopRepeatedUploadTaskJob W1) (\<lambda>W. Ret (W\<lparr>the_task := None\<rparr>)))"
    unfolding uploadTaskHelper_def h by simp
  show ?thesis
  proof (cases err)
    case None
    with h assms goes_on show ?thesis unfolding run by simp
  next
    case (Some e)
    have task: "the_task W1 \<noteq> None \<or> the_task W = None \<and> e = UploadErrNoUploadTask \<and> W1 = W"
      using h by (cases rule: handler_cases) (use Some in simp_all)
    show ?thesis
    proof (cases "e = UploadErrNoUploadTask")
      case True
      with h Some have "the_task W = None \<and> W1 = W" by (cases rule: handler_cases) simp_all
      with no_task assms Some True show ?thesis unfolding run by (simp add: StopRepeatedUploadTaskJob_def)
    next
      case False
      with Some have "go_bind (StopRepeatedUploadTaskJob W1) (\<lambda>W. Ret (W\<lparr>the_task := None\<rparr>)) = Ret W'"
        using assms unfolding run by (cases e) simp_all
      with task False have "job W1" "W' = W1\<lparr>job := False, the_task := None\<rparr>"
        by (auto simp: StopRepeatedUploadTaskJob_def split: if_splits)
      with ends h Some False show ?thesis by blast
    qed
  qed
qed

lemma helper_inv:
  assumes "world_inv ns H W" and "uploadTaskHelper fn now W = Ret W'"
  shows "world_inv ns H W'"
  using assms(2)
proof (cases rule: helper_cases)
  case goes_on
  then show ?thesis using handler_inv(2) [OF assms(1)] by blast
next
  case (ends e W1)
  then show ?thesis using handler_inv(1) [OF assms(1) ends(1)] by (simp add: world_inv_def no_failure_reported_def)
qed (use assms(1) in simp)

lemma replace_slice_fields:
  "state (replace_slice orig u s) = state u" "pause (replace_slice orig u s) = pause u"
  "retryCount (replace_slice orig u s) = retryCount u" "rspUploadFile (replace_slice orig u s) = rspUploadFile u"
  "concurrentUploads (replace_slice orig u s) = concurrentUploads u" "lastTouch (replace_slice orig u s) = lastTouch u"
  "fatalError (replace_slice orig u s) = fatalError u"
  by (auto simp: replace_slice_def addNewSlice_def split: option.splits)

lemma replace_slice_inv:
  assumes "task_inv ns H u"
  shows "task_inv ns H (replace_slice orig u s)"
proof (cases "orig (sl_SliceNumber s)")
  case (Some a)
  show ?thesis
  proof (cases "replace_at a (sl_SliceNumber s) (destinations u)")
    case (Some ds)
    with replace_at_recs [OF this] obtain r where r: "r \<in># recs (destinations u)" "number r = sl_SliceNumber s"
      "recs ds = add_mset (r\<lparr>Status := SLICE_STATUS_REPLACED\<rparr>) (recs (destinations u) - {#r#})" by blast
    with \<open>orig _ = Some a\<close> Some assms rec_inv_replaced [OF _ r(1,2)] show ?thesis
      by (simp add: task_inv_def replace_slice_def recs_addNewSlice quiet_def) (simp add: addNewSlice_def)
  qed (use assms \<open>orig _ = Some a\<close> in \<open>simp add: replace_slice_def\<close>)
qed (use assms in \<open>simp add: replace_slice_def\<close>)

lemma replace_all_inv: "task_inv ns H u \<Longrightarrow> task_inv ns H (foldl (replace_slice orig) u ss)"
  by (induction ss arbitrary: u) (simp_all add: replace_slice_inv)

lemma answer_cases:
  assumes "RspUploadSlicesWrong fn now a W = Ret W'" and "the_task W = Some u"
  shows "(\<exists>m. W' = W\<lparr>the_task := Some (SetFatalError m u)\<rparr>) \<or>
    (\<exists>r. uploadTaskHelper fn now
        (W\<lparr>the_task := Some (SetRspUploadFile r (UpdateSliceDestinationsForRetry (ru_Slices r) u))\<rparr>) = Ret W')"
proof -
  from assms(1) obtain r where r: "wa_RspUploadFile a = Some r" by (auto simp: RspUploadSlicesWrong_def split: option.splits)
  have run: "RspUploadSlicesWrong fn now a W =
      (case wa_failed a of
         Some m \<Rightarrow> Ret (W\<lparr>the_task := Some (SetFatalError m u)\<rparr>)
       | None \<Rightarrow> if ru_Slices r = []
           then Ret (W\<lparr>the_task := Some (SetFatalError ''No new slices in RspUploadSlicesWrong for file'' u)\<rparr>)
           else uploadTaskHelper fn now
                  (W\<lparr>the_task := Some (SetRspUploadFile r (UpdateSliceDestinationsForRetry (ru_Slices r) u))\<rparr>))"
    unfolding RspUploadSlicesWrong_def r assms(2) option.case ..
  show ?thesis
  proof (cases "wa_failed a = None \<and> ru_Slices r \<noteq> []")
    case True
    then show ?thesis using assms(1) unfolding run by auto
  next
    case False
    then show ?thesis using assms(1) unfolding run by (auto split: option.splits)
  qed
qed

lemma answer_inv:
  assumes "world_inv ns H W" and "RspUploadSlicesWrong fn now a W = Ret W'"
  shows "world_inv ns H W'"
proof (cases "the_task W")
  case None
  with assms show ?thesis by (auto simp: RspUploadSlicesWrong_def split: option.splits)
next
  case (Some u)
  with assms(1) have inv: "task_inv ns H u" by (simp add: world_inv_def)
  have fatal: "task_inv ns H (SetFatalError m u)" for m
    using inv by (simp add: task_inv_def SetFatalError_def quiet_def)
  have "task_inv ns H (UpdateSliceDestinationsForRetry ss u)" for ss
    using inv replace_all_inv by (simp add: UpdateSliceDestinationsForRetry_def)
  then have new: "task_inv ns H (SetRspUploadFile r (UpdateSliceDestinationsForRetry ss u))" for r ss
    by (simp add: task_inv_def SetRspUploadFile_def quiet_def)
  have set_task: "world_inv ns H (W\<lparr>the_task := Some u'\<rparr>)" if "task_inv ns H u'" for u'
    using assms(1) that by (simp add: world_inv_def)
  from answer_cases [OF assms(2) Some] show ?thesis
  proof
    assume "\<exists>m. W' = W\<lparr>the_task := Some (SetFatalError m u)\<rparr>"
    then show ?thesis using set_task [OF fatal] by auto
  next
    assume "\<exists>r. uploadTaskHelper fn now
        (W\<lparr>the_task := Some (SetRspUploadFile r (UpdateSliceDestinationsForRetry (ru_Slices r) u))\<rparr>) = Ret W'"
    then show ?thesis using helper_inv [OF set_task [OF new]] by blast
  qed
qed

lemma uploaded_inv: "world_inv ns H W \<Longrightarrow> world_inv ns (insert h H) (slice_uploaded now h W)"
proof -
  assume inv: "world_inv ns H W"
  then have mono: "world_inv ns (insert h H) W"
    by (auto simp: world_inv_def task_inv_def elim!: rec_inv_mono)
  show ?thesis
  proof (cases "the_task W")
    case (Some u)
    show ?thesis
    proof (cases "set_status_in h SLICE_STATUS_FINISHED (destinations u)")
      case (Some x)
      then obtain b ds where x: "set_status_in h SLICE_STATUS_FINISHED (destinations u) = Some (b, ds)" by (cases x) auto
      from set_status_recs [OF this] obtain r where r: "r \<in># recs (destinations u)" "sl_SliceHash (slice r) = h" "live r"
        "recs ds = add_mset (r\<lparr>Status := SLICE_STATUS_FINISHED\<rparr>) (recs (destinations u) - {#r#})" by blast
      with inv \<open>the_task W = Some u\<close> rec_inv_status [of ns H _ "recs (destinations u)" r] x show ?thesis
        by (auto simp: slice_uploaded_def SetUploadSliceStatus_def world_inv_def task_inv_def Touch_def quiet_def)
    qed (use mono \<open>the_task W = Some u\<close> in \<open>simp add: slice_uploaded_def SetUploadSliceStatus_def\<close>)
  qed (use mono in \<open>simp add: slice_uploaded_def\<close>)
qed

fun confirmed :: "upload_event \<Rightarrow> string set" where
  "confirmed (Uploaded t h) = {h}"
| "confirmed e = {}"

lemma pause_inv: "world_inv ns H W \<Longrightarrow> world_inv ns H (UploadPause W)"
  by (simp add: world_inv_def UploadPause_def)

lemma reorder_inv: "world_inv ns H W \<Longrightarrow> world_inv ns H (reorder ds W)"
  by (auto simp: reorder_def world_inv_def task_inv_def quiet_def dest: recs_reorder split: option.split)

lemma event_inv:
  assumes "world_inv ns H W" and "upload_event_step fn W e = Ret W'"
  shows "world_inv ns (confirmed e \<union> H) W'"
proof (cases e)
  case (Tick now)
  with assms show ?thesis by (auto simp: helper_inv split: if_splits)
next
  case (Answer now a)
  with assms show ?thesis by (simp add: answer_inv)
next
  case (Uploaded now h)
  with assms uploaded_inv [of ns H W h now] show ?thesis by simp
next
  case UserPause
  with assms pause_inv [of ns H W] show ?thesis by simp
next
  case (Reorder ds)
  with assms reorder_inv [of ns H W ds] show ?thesis by simp
qed

lemma panic_stuck: "foldl (upload_step fn) (Panic m) es = Panic m"
  by (induction es) (simp_all add: upload_step_def)

lemma run_inv:
  "world_inv ns H W \<Longrightarrow> foldl (upload_step fn) (Ret W) es = Ret W' \<Longrightarrow> world_inv ns (\<Union> (confirmed ` set es) \<union> H) W'"
proof (induction es arbitrary: W H)
  case (Cons e es)
  have e: "upload_step fn (Ret W) e = upload_event_step fn W e" by (simp add: upload_step_def)
  obtain W1 where W1: "upload_event_step fn W e = Ret W1"
    using Cons.prems(2) panic_stuck [of fn _ es] by (cases "upload_event_step fn W e") (simp_all add: e)
  with Cons.prems e have "foldl (upload_step fn) (Ret W1) es = Ret W'" by simp
  from Cons.IH [OF event_inv [OF Cons.prems(1) W1] this] show ?case by (simp add: Un_assoc Un_left_commute)
qed simp

section \<open>Success means that every slice was confirmed\<close>

lemma recs_created: "recs (foldl (\<lambda>ds s. append_record s ds) ds ss) = recs ds + mset (map new_record ss)"
  by (induction ss arbitrary: ds) (simp_all add: recs_append)

lemma start_inv:
  assumes "startUploadTask fn now target w = Ret W"
  shows "world_inv (sl_SliceNumber ` set (ru_Slices target)) {} W"
proof -
  let ?W = "\<lparr>the_task = Some (CreateUploadFileTask now target), job = False, wrong_requests = [], rest = w\<rparr>"
  from assms obtain W1 where h: "uploadTaskHelper fn now ?W = Ret W1" and W: "W = W1\<lparr>job := True\<rparr>"
    by (auto simp: startUploadTask_def go_bind_Ret)
  have "rec_inv (sl_SliceNumber ` set (ru_Slices target)) {} q (mset (map new_record (ru_Slices target)))" for q
    by (auto simp: rec_inv_def new_record_def)
  then have "world_inv (sl_SliceNumber ` set (ru_Slices target)) {} ?W"
    by (simp add: world_inv_def task_inv_def CreateUploadFileTask_def recs_created MAX_UPLOAD_RETRY_def)
  from helper_inv [OF this h] show ?thesis by (simp add: world_inv_def W)
qed

text \<open>C37: An upload that ends with success is complete. In every run of an upload, whatever the network, the
  storage nodes and the SP do, the handler reports success only when every slice number of the file has a
  record that a storage node confirmed.\<close>

theorem upload_success_complete:
  assumes "startUploadTask fn t0 target w = Ret W0" and "foldl (upload_step fn) (Ret W0) es = Ret W"
    and "uploadTaskHandler fn now W = Ret (Some UploadFinished, W')" and "s \<in> set (ru_Slices target)"
  shows "\<exists>u r t. the_task W' = Some u \<and> r \<in> set (records u) \<and> number r = sl_SliceNumber s \<and>
    Status r = SLICE_STATUS_FINISHED \<and> Uploaded t (sl_SliceHash (slice r)) \<in> set es"
proof -
  let ?H = "\<Union> (confirmed ` set es) \<union> {}"
  have "world_inv (sl_SliceNumber ` set (ru_Slices target)) ?H W"
    by (rule run_inv [OF start_inv [OF assms(1)] assms(2)])
  from handler_inv(3) [OF this assms(3) refl] obtain u where u: "the_task W' = Some u" "IsFinished u"
      and inv: "rec_inv (sl_SliceNumber ` set (ru_Slices target)) ?H (quiet u) (recs (destinations u))"
    by (auto simp: task_inv_def)
  from inv assms(4) obtain r where r: "r \<in> set (records u)" "number r = sl_SliceNumber s" "live r"
    by (auto simp: rec_inv_def set_records)
  with u(2) have fin: "Status r = SLICE_STATUS_FINISHED" by (auto simp: IsFinished_def list_all_iff)
  with inv r(1) have "sl_SliceHash (slice r) \<in> ?H" by (auto simp: rec_inv_def set_records)
  then obtain e where e: "e \<in> set es" "sl_SliceHash (slice r) \<in> confirmed e" by auto
  from e(2) obtain t where "e = Uploaded t (sl_SliceHash (slice r))" by (cases e) auto
  with e u(1) r fin show ?thesis by blast
qed


section \<open>An upload ends\<close>

definition expires :: "'w upload_world \<Rightarrow> int \<Rightarrow> bool" where
  "expires W now \<longleftrightarrow> job W \<and> (case the_task W of None \<Rightarrow> False | Some u \<Rightarrow> timed_out now u \<and> unfinished u)"

text \<open>How often the timer finds a task in a run that made no progress for a minute.\<close>

fun expiries :: "(UploadSliceTask \<Rightarrow> 'w \<Rightarrow> (string option \<times> 'w) go) \<Rightarrow> 'w upload_world \<Rightarrow> upload_event list \<Rightarrow> nat" where
  "expiries fn W [] = 0"
| "expiries fn W (e # es) =
     (case e of Tick now \<Rightarrow> if expires W now then 1 else 0 | _ \<Rightarrow> 0) +
     (case upload_event_step fn W e of Ret W' \<Rightarrow> expiries fn W' es | Panic _ \<Rightarrow> 0)"

definition budget :: "'w upload_world \<Rightarrow> nat" where
  "budget W = (case the_task W of None \<Rightarrow> 0 | Some u \<Rightarrow> MAX_UPLOAD_RETRY - retryCount u)"

lemma budget_simps [simp]:
  "budget (W\<lparr>the_task := None\<rparr>) = 0" "budget (W\<lparr>job := b\<rparr>) = budget W"
  "budget (W\<lparr>the_task := Some u\<rparr>) = MAX_UPLOAD_RETRY - retryCount u"
  "budget (W\<lparr>the_task := Some u, rest := w\<rparr>) = MAX_UPLOAD_RETRY - retryCount u"
  "budget (W\<lparr>the_task := Some u, wrong_requests := ms\<rparr>) = MAX_UPLOAD_RETRY - retryCount u"
  "budget (W\<lparr>job := b, the_task := None\<rparr>) = 0"
  by (simp_all add: budget_def)

lemma failures_simps [simp]:
  "retryCount (snd (SliceFailuresToReport u)) = retryCount u" "state (snd (SliceFailuresToReport u)) = state u"
  "concurrentUploads (snd (SliceFailuresToReport u)) = concurrentUploads u"
  "lastTouch (snd (SliceFailuresToReport u)) = lastTouch u"
  by (simp_all add: SliceFailuresToReport_def Let_def)

lemma count_retry_count:
  "count_retry now u = (e, u') \<Longrightarrow> retryCount u' = (if timed_out now u \<and> unfinished u then Suc (retryCount u) else retryCount u)"
  by (auto simp: count_retry_eq Let_def split: if_splits)

lemma UploadToDestination_retry: "UploadToDestination fn u w = Ret (u', w') \<Longrightarrow> retryCount u' = retryCount u"
  by (auto simp: UploadToDestination_def go_simps split: if_splits)

lemma handler_budget:
  assumes "uploadTaskHandler fn now W = Ret (err, W')" and "world_inv ns H W"
  shows "budget W' + (case the_task W of None \<Rightarrow> 0 | Some u \<Rightarrow> if timed_out now u \<and> unfinished u then 1 else 0) \<le> budget W"
  using assms(1)
proof (cases rule: handler_cases)
  case (max_retries u0 u)
  with count_retry_count [OF max_retries(2)] world_inv_task [OF assms(2) max_retries(1)]
  show ?thesis by (simp add: budget_def task_inv_def)
next
  case (request u0 u ss failed u1 m)
  have "retryCount u1 = retryCount u" using failures_fields(3) [OF request(4)] by simp
  with request assms(2) count_retry_count [OF request(2)] world_inv_task [OF assms(2) request(1)] show ?thesis
    by (simp add: budget_def task_inv_def)
next
  case (upload u0 u u1 w)
  with UploadToDestination_retry [OF upload(5)] count_retry_count [OF upload(2)] world_inv_task [OF assms(2) upload(1)]
  show ?thesis by (simp add: budget_def task_inv_def)
next
  case (finished u0 u)
  with count_retry_count [OF finished(2)] world_inv_task [OF assms(2) finished(1)]
  show ?thesis by (simp add: budget_def task_inv_def)
next
  case (fatal u0 u)
  with count_retry_count [OF fatal(2)] world_inv_task [OF assms(2) fatal(1)]
  show ?thesis by (simp add: budget_def task_inv_def)
qed (simp add: budget_def)

lemma helper_budget:
  assumes "uploadTaskHelper fn now W = Ret W'" and "world_inv ns H W"
  shows "budget W' + (if expires W now then 1 else 0) \<le> budget W"
  using assms(1)
proof (cases rule: helper_cases)
  case goes_on
  from handler_budget [OF this assms(2)] show ?thesis by (auto simp: expires_def split: option.splits)
next
  case no_task
  then show ?thesis by (simp add: expires_def)
next
  case (ends e W1)
  from handler_budget [OF ends(1) assms(2)] ends(4) show ?thesis by (auto simp: expires_def split: option.splits)
qed

lemma replace_all_retry: "retryCount (foldl (replace_slice orig) u ss) = retryCount u"
  by (induction ss arbitrary: u) (simp_all add: replace_slice_fields)

lemma answer_budget:
  assumes "RspUploadSlicesWrong fn now a W = Ret W'" and "world_inv ns H W"
  shows "budget W' \<le> budget W"
proof (cases "the_task W")
  case None
  with assms(1) show ?thesis by (auto simp: RspUploadSlicesWrong_def split: option.splits)
next
  case (Some u)
  let ?u = "\<lambda>r. SetRspUploadFile r (UpdateSliceDestinationsForRetry (ru_Slices r) u)"
  have retry: "retryCount (?u r) = retryCount u" for r
    by (simp add: SetRspUploadFile_def UpdateSliceDestinationsForRetry_def replace_all_retry)
  have "task_inv ns H (UpdateSliceDestinationsForRetry ss u)" for ss
    using world_inv_task [OF assms(2) Some] replace_all_inv by (simp add: UpdateSliceDestinationsForRetry_def)
  then have "task_inv ns H (?u r)" for r by (simp add: task_inv_def SetRspUploadFile_def quiet_def)
  note inv = world_inv_set [OF assms(2) this]
  from answer_cases [OF assms(1) Some] show ?thesis
  proof
    assume "\<exists>m. W' = W\<lparr>the_task := Some (SetFatalError m u)\<rparr>"
    then show ?thesis using Some by (auto simp: budget_def SetFatalError_def)
  next
    assume "\<exists>r. uploadTaskHelper fn now (W\<lparr>the_task := Some (?u r)\<rparr>) = Ret W'"
    then obtain r where r: "uploadTaskHelper fn now (W\<lparr>the_task := Some (?u r)\<rparr>) = Ret W'" by blast
    from helper_budget [OF r inv] retry Some show ?thesis by (simp add: budget_def)
  qed
qed

lemma event_budget:
  assumes "upload_event_step fn W e = Ret W'" and "world_inv ns H W"
  shows "budget W' + (case e of Tick now \<Rightarrow> if expires W now then 1 else 0 | _ \<Rightarrow> 0) \<le> budget W"
proof (cases e)
  case (Tick now)
  show ?thesis
  proof (cases "job W")
    case True
    with Tick assms helper_budget show ?thesis by fastforce
  next
    case False
    with Tick assms(1) show ?thesis by (simp add: expires_def)
  qed
next
  case (Answer now a)
  with assms answer_budget [of fn now a W W' ns H] show ?thesis by simp
next
  case (Uploaded now h)
  with assms(1) show ?thesis
    by (auto simp: slice_uploaded_def SetUploadSliceStatus_def Touch_def budget_def split: option.splits)
qed (use assms in \<open>auto simp: UploadPause_def reorder_def budget_def split: option.splits if_splits\<close>)

lemma run_budget:
  "world_inv ns H W \<Longrightarrow> foldl (upload_step fn) (Ret W) es = Ret W' \<Longrightarrow> budget W' + expiries fn W es \<le> budget W"
proof (induction es arbitrary: W H)
  case (Cons e es)
  have e: "upload_step fn (Ret W) e = upload_event_step fn W e" by (simp add: upload_step_def)
  obtain W1 where W1: "upload_event_step fn W e = Ret W1"
    using Cons.prems(2) panic_stuck [of fn _ es] by (cases "upload_event_step fn W e") (simp_all add: e)
  with Cons.prems e have "foldl (upload_step fn) (Ret W1) es = Ret W'" by simp
  from Cons.IH [OF event_inv [OF Cons.prems(1) W1] this] event_budget [OF W1 Cons.prems(1)] W1 show ?case by simp
qed simp

text \<open>C38: An upload does not go on forever. In every run the timer finds an upload at most five times without
  progress for a minute while slices are missing; the fifth time the upload has been given up.\<close>

theorem upload_gives_up:
  assumes "startUploadTask fn t0 target w = Ret W0" and "foldl (upload_step fn) (Ret W0) es = Ret W"
  shows "expiries fn W0 es \<le> 5 \<and> (expiries fn W0 es = 5 \<longrightarrow> the_task W = None)"
proof -
  note inv = start_inv [OF assms(1)]
  have b: "budget W + expiries fn W0 es \<le> budget W0" by (rule run_budget [OF inv assms(2)])
  have "budget W0 \<le> 5" by (simp add: budget_def MAX_UPLOAD_RETRY_def split: option.split)
  moreover have "budget W > 0" if "the_task W = Some u" for u
    using world_inv_task [OF run_inv [OF inv assms(2)] that] that by (simp add: budget_def task_inv_def)
  ultimately show ?thesis using b by (cases "the_task W") fastforce+
qed

section \<open>Example runs\<close>

definition demo_slice :: "string \<Rightarrow> SliceHashAddr" where
  "demo_slice a = \<lparr>sl_SliceHash = ''h'', sl_SliceNumber = 1, sl_SliceSize = 3,
     sl_SliceOffset = \<lparr>SliceOffsetStart = 0, SliceOffsetEnd = 3\<rparr>,
     sl_PpInfo = \<lparr>pp_P2PAddress = a, pp_NetworkAddress = ''net''\<rparr>\<rparr>"

definition demo_rsp :: "string \<Rightarrow> RspUploadFile" where
  "demo_rsp a = \<lparr>ru_Slices = [demo_slice a], ru_FileHash = ''f'', ru_TaskId = ''t'', ru_OwnerWalletAddress = [],
     ru_SpP2PAddress = ''sp'', ru_TimeStamp = 0\<rparr>"

definition demo_upload :: "UploadSliceTask \<Rightarrow> unit \<Rightarrow> (string option \<times> unit) go" where
  "demo_upload tk w = Ret (None, w)"

definition demo_world :: "UploadFileTask \<Rightarrow> bool \<Rightarrow> slices_wrong list \<Rightarrow> unit upload_world" where
  "demo_world u j ms = \<lparr>the_task = Some u, job = j, wrong_requests = ms, rest = ()\<rparr>"

definition demo_task :: "slice_status \<Rightarrow> bool \<Rightarrow> upload_state \<Rightarrow> int \<Rightarrow> nat \<Rightarrow> int \<Rightarrow> UploadFileTask" where
  "demo_task st b s c k t = \<lparr>rspUploadFile = [0 \<mapsto> demo_rsp ''a''],
     destinations = [(''a'', \<lparr>ppInfo = sl_PpInfo (demo_slice ''a''),
       slices = [\<lparr>slice = demo_slice ''a'', Error = None, fatal = False, Status = st\<rparr>], started = b\<rparr>)],
     state = s, pause = False, concurrentUploads = c, fatalError = None, retryCount = k, lastTouch = t\<rparr>"

lemmas demo_eval = demo_world_def demo_task_def demo_slice_def demo_rsp_def demo_upload_def uploadTaskHelper_def
  uploadTaskHandler_def count_retry_eq timed_out_def unfinished_def UPLOAD_WAIT_TIMEOUT_def Second_def records_def
  to_report_def IsFinished_def IsFatal_def UploadToDestination_def MAXSLICE_def MAX_UPLOAD_RETRY_def
  uploadSlicesToDestination_def CreateUploadSliceTask_def SliceFailuresToReport_def stop_failed_def Let_def

lemma demo_start: "startUploadTask demo_upload 0 (demo_rsp ''a'') () =
    Ret (demo_world (demo_task SLICE_STATUS_STARTED True STATE_DONE 1 0 0) True [])"
  by (simp add: startUploadTask_def CreateUploadFileTask_def new_record_def demo_eval)

lemma demo_request:
  "upload_step demo_upload (Ret (demo_world (demo_task SLICE_STATUS_STARTED True STATE_DONE 1 0 0) True [])) (Tick 70000000000) =
    Ret (demo_world (demo_task SLICE_STATUS_WAITING_FOR_SP False STATE_NOT_STARTED 1 1 70000000000) True
      [\<lparr>sw_FileHash = ''f'', sw_TaskId = ''t'', sw_SpP2PAddress = ''sp'',
        sw_ExcludedDestinations = [sl_PpInfo (demo_slice ''a'')], sw_Slices = [demo_slice ''a''], sw_FailedSlices = [False]\<rparr>])"
  by (simp add: upload_step_def ReqUploadSlicesWrong_def first_response_def GetExcludedDestinations_def excluded_def demo_eval)

theorem upload_success_complete_witness:
  "\<exists>r t. number r = 1 \<and> Status r = SLICE_STATUS_FINISHED \<and> Uploaded t (sl_SliceHash (slice r)) \<in> {Uploaded 7 ''h''}"
proof -
  let ?W = "demo_world (demo_task SLICE_STATUS_FINISHED True STATE_DONE 0 0 7) True []"
  have run: "foldl (upload_step demo_upload) (Ret (demo_world (demo_task SLICE_STATUS_STARTED True STATE_DONE 1 0 0) True []))
      [Uploaded 7 ''h''] = Ret ?W"
    by (simp add: upload_step_def slice_uploaded_def SetUploadSliceStatus_def Touch_def demo_world_def demo_task_def demo_slice_def)
  have fin: "uploadTaskHandler demo_upload 8 ?W = Ret (Some UploadFinished, ?W)" by (simp add: demo_eval)
  have mem: "demo_slice ''a'' \<in> set (ru_Slices (demo_rsp ''a''))" by (simp add: demo_rsp_def)
  from upload_success_complete [OF demo_start run fin mem] show ?thesis by (auto simp: demo_slice_def)
qed


theorem upload_gives_up_witness:
  "\<exists>W0 n. startUploadTask demo_upload 0 (demo_rsp ''a'') () = Ret W0 \<and>
    expiries demo_upload W0 [Tick 70000000000] = n \<and> 0 < n \<and> n \<le> 5"
proof -
  let ?W0 = "demo_world (demo_task SLICE_STATUS_STARTED True STATE_DONE 1 0 0) True []"
  obtain W where run: "foldl (upload_step demo_upload) (Ret ?W0) [Tick 70000000000] = Ret W"
    by (simp add: demo_request)
  have "expires ?W0 70000000000"
    by (simp add: expires_def timed_out_def unfinished_def demo_world_def demo_task_def UPLOAD_WAIT_TIMEOUT_def Second_def
        records_def to_report_def)
  then have "0 < expiries demo_upload ?W0 [Tick 70000000000]" by simp
  with upload_gives_up [OF demo_start run] demo_start show ?thesis by blast
qed

section \<open>A task that is running stays so\<close>

definition stuck :: "'w \<Rightarrow> slices_wrong list \<Rightarrow> 'w upload_world \<Rightarrow> bool" where
  "stuck w ms W \<longleftrightarrow> rest W = w \<and> wrong_requests W = ms \<and> (\<forall>u. the_task W = Some u \<longrightarrow> state u = STATE_RUNNING)"

lemma count_retry_running: "state u = STATE_RUNNING \<Longrightarrow> count_retry now u = (e, u') \<Longrightarrow> state u' = STATE_RUNNING"
  by (auto simp: count_retry_eq Let_def split: if_splits)

lemma helper_stuck:
  assumes "stuck w ms W" and "uploadTaskHelper fn now W = Ret W'"
  shows "stuck w ms W'"
proof -
  have h: "rest W1 = w \<and> wrong_requests W1 = ms \<and> (err = None \<longrightarrow> stuck w ms W1)"
    if "uploadTaskHandler fn now W = Ret (err, W1)" for err W1
    using that
  proof (cases rule: handler_cases)
    case (request u0 u ss failed u1 m)
    with assms(1) count_retry_running [of u0 now None u] show ?thesis by (simp add: stuck_def)
  next
    case (upload u0 u u1 w')
    with assms(1) count_retry_running [of u0 now None u] have "state u = STATE_RUNNING" by (simp add: stuck_def)
    with upload(5) have "u1 = u" "w' = rest W" by (auto simp: UploadToDestination_def)
    with upload assms(1) \<open>state u = STATE_RUNNING\<close> show ?thesis by (simp add: stuck_def)
  qed (use assms(1) in \<open>simp_all add: stuck_def\<close>)
  from assms(2) show ?thesis
  proof (cases rule: helper_cases)
    case goes_on
    with h show ?thesis by blast
  next
    case (ends e W1)
    with h [OF ends(1)] show ?thesis by (simp add: stuck_def)
  qed (use assms(1) in simp)
qed

lemma event_stuck:
  assumes "stuck w ms W" and "upload_event_step fn W e = Ret W'"
  shows "stuck w ms W'"
proof (cases e)
  case (Tick now)
  with assms show ?thesis by (auto simp: helper_stuck split: if_splits)
next
  case (Answer now a)
  show ?thesis
  proof (cases "the_task W")
    case None
    with Answer assms show ?thesis by (auto simp: RspUploadSlicesWrong_def split: option.splits)
  next
    case (Some u)
    with assms(1) have new: "stuck w ms (W\<lparr>the_task := Some (SetRspUploadFile r (UpdateSliceDestinationsForRetry ss u))\<rparr>)"
        and ft: "stuck w ms (W\<lparr>the_task := Some (SetFatalError m u)\<rparr>)" for r ss m
      by (simp_all add: stuck_def SetRspUploadFile_def UpdateSliceDestinationsForRetry_def SetFatalError_def)
    from answer_cases [OF assms(2) [unfolded Answer upload_event_step.simps] Some] show ?thesis
    proof
      assume "\<exists>m. W' = W\<lparr>the_task := Some (SetFatalError m u)\<rparr>"
      then show ?thesis using ft by auto
    next
      assume "\<exists>r. uploadTaskHelper fn now
          (W\<lparr>the_task := Some (SetRspUploadFile r (UpdateSliceDestinationsForRetry (ru_Slices r) u))\<rparr>) = Ret W'"
      then show ?thesis using helper_stuck [OF new] by blast
    qed
  qed
next
  case (Uploaded now h)
  with assms show ?thesis
    by (auto simp: slice_uploaded_def SetUploadSliceStatus_def Touch_def stuck_def split: option.splits)
qed (use assms in \<open>auto simp: UploadPause_def reorder_def stuck_def split: option.splits if_splits\<close>)

lemma run_stuck:
  "stuck w ms W \<Longrightarrow> foldl (upload_step fn) (Ret W) es = Ret W' \<Longrightarrow> stuck w ms W'"
proof (induction es arbitrary: W)
  case (Cons e es)
  have e: "upload_step fn (Ret W) e = upload_event_step fn W e" by (simp add: upload_step_def)
  obtain W1 where W1: "upload_event_step fn W e = Ret W1"
    using Cons.prems(2) panic_stuck [of fn _ es] by (cases "upload_event_step fn W e") (simp_all add: e)
  with Cons.prems e have "foldl (upload_step fn) (Ret W1) es = Ret W'" by simp
  with Cons.IH event_stuck [OF Cons.prems(1) W1] show ?case by blast
qed simp

section \<open>Many destinations\<close>

lemma append_keys: "fst ` set (append_record s ds) = insert (address s) (fst ` set ds)"
  by (induction s ds rule: append_record.induct) auto

lemma append_distinct: "distinct (map fst ds) \<Longrightarrow> distinct (map fst (append_record s ds))"
  by (induction s ds rule: append_record.induct) (auto simp: append_keys)

lemma created_keys:
  "fst ` set (foldl (\<lambda>ds s. append_record s ds) ds ss) = fst ` set ds \<union> address ` set ss"
  "distinct (map fst ds) \<Longrightarrow> distinct (map fst (foldl (\<lambda>ds s. append_record s ds) ds ss))"
  by (induction ss arbitrary: ds) (auto simp: append_keys append_distinct)

lemma created_length:
  "length (foldl (\<lambda>ds s. append_record s ds) [] ss) = card (address ` set ss)"
  using created_keys [of "[]" ss] distinct_card [of "map fst (foldl (\<lambda>ds s. append_record s ds) [] ss)"] by simp

lemma upload_all_fresh:
  "\<forall>(a, d)\<in>set ds. \<not> started d \<Longrightarrow> upload_all fn u ds w = Ret (ds', k, w') \<Longrightarrow> k = int (length ds)"
  by (induction fn u ds w arbitrary: ds' k w' rule: upload_all.induct) (auto simp: go_simps)

lemma created_fresh: "\<forall>(a, d)\<in>set ds. \<not> started d \<Longrightarrow> \<forall>(a, d)\<in>set (foldl (\<lambda>ds s. append_record s ds) ds ss). \<not> started d"
proof (induction ss arbitrary: ds)
  case (Cons s ss)
  have "\<forall>(a, d)\<in>set (append_record s ds). \<not> started d"
    using Cons.prems by (induction s ds rule: append_record.induct) auto
  with Cons.IH show ?case by simp
qed simp

lemma created_statuses: "r \<in># recs (foldl (\<lambda>ds s. append_record s ds) [] ss) \<Longrightarrow> Status r = SLICE_STATUS_STARTED \<and> \<not> fatal r"
  by (auto simp: recs_created new_record_def)

lemma start_handler:
  assumes "ru_Slices target \<noteq> []"
  shows "uploadTaskHandler fn t0 \<lparr>the_task = Some (CreateUploadFileTask t0 target), job = False, wrong_requests = [], rest = w\<rparr> =
    go_bind (UploadToDestination fn (CreateUploadFileTask t0 target) w) (\<lambda>(u, w).
      Ret (None, \<lparr>the_task = Some u, job = False, wrong_requests = [], rest = w\<rparr>))"
proof -
  let ?u = "CreateUploadFileTask t0 target"
  have set: "set (records ?u) = new_record ` set (ru_Slices target)"
    by (simp add: set_records CreateUploadFileTask_def recs_created)
  have nt: "count_retry t0 ?u = (None, ?u)"
    by (simp add: count_retry_eq timed_out_def CreateUploadFileTask_def UPLOAD_WAIT_TIMEOUT_def Second_def)
  have nf: "\<not> IsFinished ?u" using assms set by (auto simp: IsFinished_def list_all_iff new_record_def)
  have "find fatal (records ?u) = None" using set by (auto simp: find_None_iff new_record_def)
  then have na: "IsFatal ?u = None" by (simp add: IsFatal_def CreateUploadFileTask_def)
  have "state ?u = STATE_NOT_STARTED" by (simp add: CreateUploadFileTask_def)
  then show ?thesis by (simp add: uploadTaskHandler_def nt nf na)
qed

lemma started_task:
  assumes "startUploadTask fn t0 target w = Ret W0" and "ru_Slices target \<noteq> []"
  shows "\<exists>u. the_task W0 = Some u \<and> job W0 \<and> wrong_requests W0 = [] \<and> state u = STATE_DONE \<and> unfinished u \<and> lastTouch u = t0 \<and>
    retryCount u = 0 \<and> concurrentUploads u = int (card (address ` set (ru_Slices target)))"
proof -
  let ?u = "CreateUploadFileTask t0 target"
  let ?W = "\<lparr>the_task = Some ?u, job = False, wrong_requests = [], rest = w\<rparr>"
  from assms(1) obtain W1 where h: "uploadTaskHelper fn t0 ?W = Ret W1" and W: "W0 = W1\<lparr>job := True\<rparr>"
    by (auto simp: startUploadTask_def go_bind_Ret)
  have recs: "recs (destinations ?u) = mset (map new_record (ru_Slices target))"
    by (simp add: CreateUploadFileTask_def recs_created)
  then have set: "set (records ?u) = new_record ` set (ru_Slices target)" by (simp add: set_records)
  have st: "state ?u = STATE_NOT_STARTED" "concurrentUploads ?u < MAXSLICE" "fatalError ?u = None" "lastTouch ?u = t0"
      "retryCount ?u = 0" "concurrentUploads ?u = 0"
    by (simp_all add: CreateUploadFileTask_def MAXSLICE_def)
  from h obtain u w1 where up: "UploadToDestination fn ?u w = Ret (u, w1)" and W1: "W1 = ?W\<lparr>the_task := Some u, rest := w1\<rparr>"
    by (auto simp: uploadTaskHelper_def start_handler [OF assms(2)] go_bind_Ret)
  from up st(1,2) obtain ds k where ds: "upload_all fn ?u (destinations ?u) w = Ret (ds, k, w1)"
      and u: "u = ?u\<lparr>destinations := ds, concurrentUploads := concurrentUploads ?u + k, state := STATE_DONE\<rparr>"
    by (auto simp: UploadToDestination_def go_bind_Ret)
  have k: "k = int (card (address ` set (ru_Slices target)))"
    using upload_all_fresh [OF _ ds] created_fresh [of "[]" "ru_Slices target"]
    by (simp add: CreateUploadFileTask_def created_length)
  have "unfinished u"
  proof -
    from assms(2) obtain s where "s \<in> set (ru_Slices target)" by (cases "ru_Slices target") auto
    then have "new_record s \<in> set (dest_recs (destinations ?u))" using set by (auto simp: records_def dest_recs_def)
    then obtain y where "y \<in> set (dest_recs ds)" "tried (new_record s) y"
      using list_all2_set_left [OF upload_all_tried [OF ds]] by blast
    then have "y \<in> set (records u)" "to_report y"
      by (auto simp: u records_def dest_recs_def tried_def to_report_def new_record_def setError_def)
    then show ?thesis by (auto simp: unfinished_def filter_empty_conv)
  qed
  then show ?thesis using k st by (simp add: W W1 u)
qed

lemma helper_ends_same:
  assumes "uploadTaskHandler fn now W = Ret (Some e, W1)"
  shows "rest W1 = rest W" "wrong_requests W1 = wrong_requests W"
  using assms by (cases rule: handler_cases; simp)+

lemma request_sent:
  assumes "uploadTaskHelper fn t1 W = Ret W1" and "the_task W = Some u" and "state u = STATE_DONE" "unfinished u"
    "timed_out t1 u" "retryCount u = 0"
  shows "\<exists>u1 m. W1 = W\<lparr>the_task := Some u1, wrong_requests := wrong_requests W @ [m]\<rparr> \<and> state u1 = STATE_NOT_STARTED \<and>
    concurrentUploads u1 = concurrentUploads u \<and> lastTouch u1 = t1"
proof -
  define v where "v = (snd (SliceFailuresToReport u))\<lparr>lastTouch := t1, retryCount := 1, state := STATE_PAUSED, pause := True\<rparr>"
  have cr: "count_retry t1 u = (None, v)"
    using assms(3-6) by (simp add: count_retry_eq v_def MAX_UPLOAD_RETRY_def Let_def)
  have v: "state v = STATE_PAUSED" "concurrentUploads v = concurrentUploads u" "lastTouch v = t1" by (simp_all add: v_def)
  have h: "\<exists>u1 m. err = None \<and> W' = W\<lparr>the_task := Some u1, wrong_requests := wrong_requests W @ [m]\<rparr> \<and>
      state u1 = STATE_NOT_STARTED \<and> concurrentUploads u1 = concurrentUploads u \<and> lastTouch u1 = t1"
    if "uploadTaskHandler fn t1 W = Ret (err, W')" for err W'
    using that
  proof (cases rule: handler_cases)
    case (request u0 u' ss failed u1 m)
    then have "u' = v" using assms(2) cr by simp
    with failures_fields [OF request(4)] v request show ?thesis by auto
  qed (use assms(2) cr v in auto)
  from assms(1) show ?thesis
  proof (cases rule: helper_cases)
    case goes_on
    with h [OF this] show ?thesis by simp
  qed (use assms(2) h in auto)
qed

lemma retry_blocked:
  assumes "uploadTaskHelper fn t2 W = Ret W'" and "the_task W = Some u" and "state u = STATE_NOT_STARTED"
    "50 \<le> concurrentUploads u" "\<not> timed_out t2 u"
  shows "stuck (rest W) (wrong_requests W) W'"
  using assms(1)
proof (cases rule: helper_cases)
  case goes_on
  then show ?thesis
  proof (cases rule: handler_cases)
    case (request u0 v ss failed u1 m)
    with assms(2,3,5) show ?thesis by (simp add: count_retry_eq)
  next
    case (upload u0 v u1 w)
    with assms(2,5) have "v = u" by (simp add: count_retry_eq)
    with upload(5) assms(3,4) have "u1 = u\<lparr>state := STATE_RUNNING\<rparr>" "w = rest W"
      by (auto simp: UploadToDestination_def MAXSLICE_def)
    then show ?thesis unfolding upload(7) by (simp add: stuck_def)
  qed simp_all
next
  case (ends e W1)
  with helper_ends_same [OF ends(1)] show ?thesis by (simp add: stuck_def)
qed (use assms(2) in simp)

lemma replace_all_fields:
  "state (foldl (replace_slice orig) u ss) = state u" "concurrentUploads (foldl (replace_slice orig) u ss) = concurrentUploads u"
  "lastTouch (foldl (replace_slice orig) u ss) = lastTouch u"
  by (induction ss arbitrary: u) (simp_all add: replace_slice_fields)

text \<open>C39: Many failures are not retried. When the slices of a file go to fifty or more nodes and none of them is
  confirmed within a minute, the upload asks the SP for new destinations; after the answer it neither
  uploads a slice again nor asks again, whatever happens.\<close>

theorem many_failures_not_retried:
  assumes "startUploadTask fn t0 target w = Ret W0" and "50 \<le> card (address ` set (ru_Slices target))"
    and "t1 - t0 > UPLOAD_WAIT_TIMEOUT * Second" and "t2 - t1 \<le> UPLOAD_WAIT_TIMEOUT * Second"
    and "ru_Slices r \<noteq> []"
    and "foldl (upload_step fn) (Ret W0) [Tick t1, Answer t2 \<lparr>wa_failed = None, wa_RspUploadFile = Some r\<rparr>] = Ret W2"
    and "foldl (upload_step fn) (Ret W2) es = Ret W"
  shows "rest W = rest W0 \<and> length (wrong_requests W) = 1"
proof -
  have ne: "ru_Slices target \<noteq> []" using assms(2) by auto
  from started_task [OF assms(1) this] obtain u where u: "the_task W0 = Some u" "job W0" "wrong_requests W0 = []"
      "state u = STATE_DONE" "unfinished u" "lastTouch u = t0" "retryCount u = 0"
      "concurrentUploads u = int (card (address ` set (ru_Slices target)))" by blast
  obtain W1 where W1: "uploadTaskHelper fn t1 W0 = Ret W1"
      and ans: "RspUploadSlicesWrong fn t2 \<lparr>wa_failed = None, wa_RspUploadFile = Some r\<rparr> W1 = Ret W2"
    using assms(6) u(2) by (auto simp: upload_step_def go_bind_Ret)
  have "timed_out t1 u" using assms(3) u(6) by (simp add: timed_out_def)
  from request_sent [OF W1 u(1,4,5) this u(7)] obtain u1 m where
    u1: "W1 = W0\<lparr>the_task := Some u1, wrong_requests := wrong_requests W0 @ [m]\<rparr>" "state u1 = STATE_NOT_STARTED"
      "concurrentUploads u1 = concurrentUploads u" "lastTouch u1 = t1" by blast
  define u2 where "u2 = SetRspUploadFile r (UpdateSliceDestinationsForRetry (ru_Slices r) u1)"
  have u2: "state u2 = STATE_NOT_STARTED" "concurrentUploads u2 = concurrentUploads u" "lastTouch u2 = t1"
    by (simp_all add: u2_def SetRspUploadFile_def UpdateSliceDestinationsForRetry_def replace_all_fields u1)
  have h: "uploadTaskHelper fn t2 (W1\<lparr>the_task := Some u2\<rparr>) = Ret W2"
    using ans assms(5) by (simp add: RspUploadSlicesWrong_def u1(1) u2_def)
  have "50 \<le> concurrentUploads u2" using u2 u(8) assms(2) by simp
  moreover have "\<not> timed_out t2 u2" using u2 assms(4) by (simp add: timed_out_def)
  ultimately have "stuck (rest W0) [m] W2"
    using retry_blocked [OF h _ u2(1)] by (simp add: u1(1) u(3))
  from run_stuck [OF this assms(7)] show ?thesis by (simp add: stuck_def)
qed

section \<open>Runs that do not panic\<close>

lemma upload_slices_returns: "(\<And>tk w. returns (fn tk w)) \<Longrightarrow> returns (upload_slices fn u rs w)"
proof (induction rs arbitrary: w)
  case (Cons r rs)
  obtain err w1 where fn: "fn (CreateUploadSliceTask r u) w = Ret (err, w1)" using Cons.prems by (metis returns_iff surj_pair)
  have IH: "\<exists>x. upload_slices fn u rs w = Ret x" for w using Cons by (simp add: returns_iff)
  obtain x1 x2 where x: "upload_slices fn u rs w = Ret (x1, x2)" using IH by (metis surj_pair)
  obtain y1 y2 where y: "upload_slices fn u rs w1 = Ret (y1, y2)" using IH by (metis surj_pair)
  show ?case using fn x y by (auto split: option.split)
qed simp

lemma upload_all_returns: "(\<And>tk w. returns (fn tk w)) \<Longrightarrow> returns (upload_all fn u ds w)"
proof (induction ds arbitrary: w)
  case (Cons x ds)
  obtain a d where x: "x = (a, d)" by (cases x)
  have IH: "\<exists>ds' k w'. upload_all fn u ds w = Ret (ds', k, w')" for w using Cons by (metis returns_iff prod_cases3)
  have "returns (uploadSlicesToDestination fn u (slices d) w)"
    using upload_slices_returns [of fn, OF Cons.prems] by (simp add: uploadSlicesToDestination_def)
  then obtain rs w1 where rs: "uploadSlicesToDestination fn u (slices d) w = Ret (rs, w1)" by (metis returns_iff surj_pair)
  obtain ds1 k1 v1 where 1: "upload_all fn u ds w = Ret (ds1, k1, v1)" using IH by blast
  obtain ds2 k2 v2 where 2: "upload_all fn u ds w1 = Ret (ds2, k2, v2)" using IH by blast
  show ?case using rs 1 2 by (simp add: x)
qed simp

lemma UploadToDestination_returns:
  assumes "\<And>tk w. returns (fn tk w)"
  shows "returns (UploadToDestination fn u w)"
proof -
  obtain ds k v where "upload_all fn u (destinations u) w = Ret (ds, k, v)"
    using upload_all_returns [of fn, OF assms] by (metis returns_iff prod_cases3)
  then show ?thesis by (simp add: UploadToDestination_def)
qed

lemma handler_returns:
  assumes "\<And>tk w. returns (fn tk w)" and "world_inv ns H W"
  shows "returns (uploadTaskHandler fn now W)"
proof (cases "the_task W")
  case None
  then show ?thesis by (simp add: uploadTaskHandler_def)
next
  case (Some u0)
  obtain e u where cr: "count_retry now u0 = (e, u)" by fastforce
  show ?thesis
  proof (cases e)
    case None
    with cr world_inv_task [OF assms(2) Some] have inv: "task_inv ns H u" by (auto intro: count_retry_inv)
    obtain ss failed u1 where f:
      "SliceFailuresToReport (u\<lparr>state := STATE_NOT_STARTED, pause := False\<rparr>) = ((ss, failed), u1)" by (metis surj_pair)
    have "rspUploadFile u1 0 \<noteq> None" using failures_fields(5) [OF f] inv by (simp add: task_inv_def)
    then obtain m where m: "ReqUploadSlicesWrong u1 ss failed = Ret m"
      by (auto simp: ReqUploadSlicesWrong_def first_response_def)
    obtain v w where v: "UploadToDestination fn u (rest W) = Ret (v, w)"
      using UploadToDestination_returns [of fn, OF assms(1)] by (metis returns_iff surj_pair)
    show ?thesis by (simp add: uploadTaskHandler_def Some cr None f m v)
  qed (simp add: uploadTaskHandler_def Some cr)
qed

text \<open>Unless an answer of the SP lacks the response, only the upload of a slice can panic.\<close>

lemma event_returns:
  assumes "\<And>tk w. returns (fn tk w)" and "world_inv ns H W" and "the_task W \<noteq> None \<longrightarrow> job W"
    and "\<And>now a. e = Answer now a \<Longrightarrow> wa_RspUploadFile a \<noteq> None"
  shows "returns (upload_event_step fn W e)"
proof -
  have helper: "returns (uploadTaskHelper fn now V)" if V: "world_inv ns H V" "the_task V \<noteq> None \<longrightarrow> job V" for now V
  proof -
    obtain err V1 where h: "uploadTaskHandler fn now V = Ret (err, V1)"
      using handler_returns [of fn, OF assms(1) V(1)] by (metis returns_iff surj_pair)
    then have "the_task V1 \<noteq> None \<longrightarrow> job V1" using V(2) by (cases rule: handler_cases) simp_all
    then have "returns (StopRepeatedUploadTaskJob V1)" by (simp add: StopRepeatedUploadTaskJob_def)
    then obtain V2 where "StopRepeatedUploadTaskJob V1 = Ret V2" by (auto simp: returns_iff)
    then show ?thesis by (simp add: uploadTaskHelper_def h split: option.split upload_error.split)
  qed
  show ?thesis
  proof (cases e)
    case (Tick now)
    with helper [OF assms(2,3)] show ?thesis by simp
  next
    case (Answer now a)
    then obtain r where r: "wa_RspUploadFile a = Some r" using assms(4) by blast
    show ?thesis
    proof (cases "the_task W")
      case (Some u)
      have "task_inv ns H (UpdateSliceDestinationsForRetry ss u)" for ss
        using world_inv_task [OF assms(2) Some] replace_all_inv by (simp add: UpdateSliceDestinationsForRetry_def)
      then have "task_inv ns H (SetRspUploadFile r (UpdateSliceDestinationsForRetry ss u))" for ss
        by (simp add: task_inv_def SetRspUploadFile_def quiet_def)
      note inv = world_inv_set [OF assms(2) this]
      have "returns (uploadTaskHelper fn now (W\<lparr>the_task := Some (SetRspUploadFile r (UpdateSliceDestinationsForRetry ss u))\<rparr>))" for ss
        by (rule helper [OF inv]) (use assms(3) Some in simp)
      then show ?thesis by (simp add: Answer RspUploadSlicesWrong_def r Some split: option.split)
    qed (simp add: Answer RspUploadSlicesWrong_def r)
  qed simp_all
qed

definition demo_file :: RspUploadFile where
  "demo_file = (demo_rsp ''a'')\<lparr>ru_Slices := map (\<lambda>i. (demo_slice (replicate i CHR ''a''))\<lparr>sl_SliceNumber := word_of_nat (Suc i)\<rparr>) [0..<50]\<rparr>"

lemma demo_file_addresses: "card (address ` set (ru_Slices demo_file)) = 50"
proof -
  have "address ` set (ru_Slices demo_file) = (\<lambda>i. replicate i CHR ''a'') ` {0..<50}"
    by (auto simp: demo_file_def demo_slice_def image_image)
  moreover have "inj_on (\<lambda>i. replicate i CHR ''a'') {0..<50}" by (auto simp: inj_on_def)
  ultimately show ?thesis by (simp add: card_image)
qed

theorem many_failures_not_retried_witness:
  "\<exists>W0 W2. startUploadTask demo_upload 0 demo_file () = Ret W0 \<and>
    foldl (upload_step demo_upload) (Ret W0)
      [Tick 70000000000, Answer 80000000000 \<lparr>wa_failed = None, wa_RspUploadFile = Some (demo_rsp ''b'')\<rparr>] = Ret W2 \<and>
    length (wrong_requests W2) = 1"
proof -
  let ?a = "\<lparr>wa_failed = None, wa_RspUploadFile = Some (demo_rsp ''b'')\<rparr>"
  have fn: "returns (demo_upload tk w)" for tk w by (simp add: demo_upload_def)
  have ne: "ru_Slices demo_file \<noteq> []" by (simp add: demo_file_def)
  obtain u w where "UploadToDestination demo_upload (CreateUploadFileTask 0 demo_file) () = Ret (u, w)"
    using UploadToDestination_returns [of demo_upload, OF fn] by (metis returns_iff surj_pair)
  then obtain W0 where W0: "startUploadTask demo_upload 0 demo_file () = Ret W0"
    by (simp add: startUploadTask_def uploadTaskHelper_def start_handler [OF ne])
  from started_task [OF W0 ne] obtain u0 where u0: "the_task W0 = Some u0" "job W0" "state u0 = STATE_DONE" "unfinished u0"
    "lastTouch u0 = 0" "retryCount u0 = 0" by blast
  have "returns (upload_event_step demo_upload W0 (Tick 70000000000))"
    by (rule event_returns [OF fn start_inv [OF W0]]) (simp_all add: u0)
  then obtain W1 where W1: "upload_event_step demo_upload W0 (Tick 70000000000) = Ret W1" by (auto simp: returns_iff)
  then have h1: "uploadTaskHelper demo_upload 70000000000 W0 = Ret W1" using u0(2) by simp
  have "timed_out 70000000000 u0" by (simp add: timed_out_def u0 UPLOAD_WAIT_TIMEOUT_def Second_def)
  from request_sent [OF h1 u0(1,3,4) this u0(6)] have "job W1" using u0(2) by auto
  then have "returns (upload_event_step demo_upload W1 (Answer 80000000000 ?a))"
    by (intro event_returns [OF fn event_inv [OF start_inv [OF W0] W1]]) auto
  then obtain W2 where W2: "upload_event_step demo_upload W1 (Answer 80000000000 ?a) = Ret W2" by (auto simp: returns_iff)
  have run: "foldl (upload_step demo_upload) (Ret W0) [Tick 70000000000, Answer 80000000000 ?a] = Ret W2"
    using W1 W2 by (simp add: upload_step_def del: upload_event_step.simps)
  have "length (wrong_requests W2) = 1"
    using many_failures_not_retried [OF W0 _ _ _ _ run, of "[]" W2]
    by (simp add: demo_file_addresses UPLOAD_WAIT_TIMEOUT_def Second_def demo_rsp_def)
  with W0 run show ?thesis by blast
qed

text \<open>A paused upload loses its task but not its timer, which then runs forever.\<close>

theorem paused_job_never_stops:
  assumes "job W"
  shows "foldl (upload_step fn) (Ret W) (UserPause # map Tick ts) = Ret (UploadPause W) \<and> job (UploadPause W)"
proof -
  have tick: "upload_step fn (Ret (UploadPause W)) (Tick t) = Ret (UploadPause W)" for t
    using assms by (simp add: upload_step_def UploadPause_def uploadTaskHelper_def uploadTaskHandler_def
        StopRepeatedUploadTaskJob_def)
  have "foldl (upload_step fn) (Ret (UploadPause W)) (map Tick ts) = Ret (UploadPause W)"
    by (induction ts) (simp_all add: tick)
  then show ?thesis using assms by (simp add: upload_step_def UploadPause_def)
qed

end
