(* ===== verification/Spec2Isabelle.thy ===== *)
theory Spec2Isabelle
  imports Msg_Registry Client_Conn Verification Network_Props Dec_Coins_Props Hash_Ring Transfer_Props
    Upload_Props
begin

text \<open>
  Verification of the storage network node \<open>stratosnet/sds\<close>.

  The program. A network of resource nodes (PP) stores the slices of files; meta nodes (SP) tell them
  what to do. Nodes talk over TCP connections that carry framed, encrypted and signed messages
  (\<open>framework\<close>). A node (\<open>pp\<close>) verifies an incoming message, hands it to the handler of its type and
  matches responses with the requests it sent. A state machine takes it from start-up through
  registration to mining. Files are uploaded slice by slice to nodes that an SP names; nodes pass slices
  on to each other when an SP asks for a backup, and verify what they received. Payments use coins of
  the chain (\<open>tx-client\<close>).

  How the code is modelled. Each Go function is one HOL function with the source's name, suffixed or
  prefixed where names clash. A struct is a record, machine integers are words of their width, a
  pointer that may be \<open>nil\<close> is an option, and an \<open>error\<close> result is a value. A call that can panic
  returns \<open>'a go\<close> (theory \<open>Prelude\<close>), so that every index out of range and every nil dereference on
  the modelled paths is a branch of the model. Time is explicit: a clock is a list of readings or a
  counter that a step advances. State shared between goroutines is changed by atomic steps, the ones the
  locks of the code make atomic, and the statements quantify over all sequences of steps.

  Theories, in the order in which they build on each other:

  \<^item> \<open>Prelude\<close>: Go outcomes, big-endian bytes, generic lemmas, and the interfaces that the components
    share. \<open>fixed_width\<close> is an encoding of fixed length with an inverse, \<open>guarded_system\<close> and
    \<open>invariant_system\<close> are systems of steps that keep an invariant along every run.
  \<^item> \<open>Msg_Types\<close>, \<open>Msg_Registry\<close>: the message ids and types of \<open>framework/msg/header/header.go\<close>, their
    registration and lookup, and the request of a response.
  \<^item> \<open>Wire\<close>: the byte conversions of \<open>framework/utils/tools.go\<close>, the message head, the signature block
    and the assembly of a packet (\<open>framework/msg\<close>). The encodings are instances of \<open>fixed_width\<close>.
  \<^item> \<open>Framing\<close>: \<open>Pack\<close>, \<open>Unpack\<close> and the first message of a connection (\<open>framework/core/utils.go\<close>).
  \<^item> \<open>Server_Conn\<close>, \<open>Client_Conn\<close>: the read and write loops of \<open>framework/core/conn.go\<close> and
    \<open>framework/client/cf/conn.go\<close>. A connection is the list of bytes not yet read; each iteration of a
    loop takes some of them, so the loops are total functions with a termination proof.
  \<^item> \<open>Transport\<close>, \<open>Conn_Safety\<close>, \<open>Conn_Props\<close>: what one loop writes the other dispatches, and what
    \<open>readLoop\<close> guarantees for arbitrary bytes.
  \<^item> \<open>Auto_Clean_Map\<close>, \<open>Cost_Time\<close>: the maps of \<open>framework/utils/auto_clean_map.go\<close> whose entries
    expire, and the counters of sent packets kept in them. Both kinds of map are instances of the
    interface \<open>kv_store\<close>. \<open>AutoCleanMap\<close> is refined to an abstract expiring entry, and modelled a
    second time with finer steps, in which a goroutine can be overtaken.
  \<^item> \<open>Snowflake\<close>, \<open>Requests\<close>: ids, request ids, contexts, handler registration, the table of sent
    requests and \<open>SendMessage\<close> (\<open>framework/utils/snowflake.go\<close>, \<open>framework/core/codec.go\<close>,
    \<open>framework/core/remote_req_id.go\<close>, \<open>pp/p2pserver\<close>).
  \<^item> \<open>Verification\<close>: the verifiers of \<open>pp/event/verification.go\<close> and their dispatch.
  \<^item> \<open>Fsm\<close>, \<open>Network\<close>, \<open>Network_Props\<close>: the table-driven machine of \<open>framework/utils/fsm.go\<close>, the
    life cycle of a node in \<open>pp/network\<close> and the handlers of \<open>pp/event\<close> that raise its events.
  \<^item> \<open>Coins\<close>, \<open>Coins_Props\<close>, \<open>Dec_Coins\<close>, \<open>Dec_Coins_Props\<close>: coins, decimal coins, units and the
    parsing of amounts (\<open>tx-client/types\<close>).
  \<^item> \<open>Weighted_Random\<close>, \<open>Hash_Ring\<close>: random selection and the ring of storage nodes
    (\<open>framework/utils/random.go\<close>, \<open>framework/utils/hashring\<close>). Nodes of the ring are shared objects, so
    they live in a store.
  \<^item> \<open>Slice_Store\<close>: slices on disk (\<open>pp/file\<close>). Which system calls fail is an argument.
  \<^item> \<open>Slice_Transfer\<close>, \<open>Transfer_Props\<close>: transfer and verification of slices between nodes
    (\<open>pp/task/transfer_task.go\<close>, \<open>pp/task/verify_task.go\<close> and their handlers in \<open>pp/event\<close>).
  \<^item> \<open>Upload_Task\<close>, \<open>Upload_Props\<close>: the upload of a file in progress (\<open>pp/task/upload_task.go\<close>) with its
    timer, retries and the answers of the SP.

  What is shown.

  \<^item> Connections: messages arrive complete and in order, between any combination of client and server
    ends; nothing reaches a handler without a valid signature; every byte read is accounted for; the
    encodings are inverted by their decodings.
  \<^item> Requests: ids of a worker increase strictly for every clock; a response finds its request within
    the life time of its entry, and never a request that was not sent; what the verifiers accept.
  \<^item> Life cycle: in every run a node that registers, reconnects or waits for its SP list has a job
    waiting that goes on; it is not active unless told so; delays are bounded.
  \<^item> Coins: addition, subtraction and comparison are pointwise on valid sets; truncation loses nothing.
  \<^item> Ring: the list of online nodes and the positions recorded in the nodes agree after every sequence
    of calls; a random node is online and not excluded; selection is proportional to the weights.
  \<^item> Slices: the packets of a slice, in any order, leave the slice on the receiver's disk; success is
    reported only for content with the right hash.
  \<^item> Uploads: success means that every slice was confirmed; an upload that makes no progress is given up.
  \<^item> A number of theorems describe behaviour that the code does not intend, for example a connection that
    loses its synchronisation after a bad signature, request ids that repeat, a maintenance that never
    ends, or uploads to many failing nodes that are not retried.

  Parameters. Code outside the repository, and cryptography, is an argument of the definitions that use
  it: AES-GCM, ed25519 and the digests (\<open>gcm_laws\<close> states that opening inverts sealing and the length of
  the tag), protobuf and bech32, the integer and decimal libraries of the chain (\<open>fits\<close>, \<open>dec_ops\<close>,
  \<open>dec_laws\<close>), \<open>sort.Sort\<close>, \<open>math/rand\<close> and \<open>float64\<close> (\<open>rand_env\<close>; the theorem on proportional
  selection is about \<open>exact_env\<close>, arithmetic without rounding), the clock, the iteration order of maps
  and the failures of the operating system.

  Loops and bounds. No definition uses fuel. Loops over data are recursive with a termination proof. The
  loop that draws random numbers until it finds a new one may run forever, so it is a partial function
  into options. Waiting for the clock in \<open>nextid\<close> consumes clock readings; that it returns once the clock
  has moved on is a theorem of its own.

  Not modelled.

  \<^item> The life of the goroutines around the loops: accepting, dialling, the handshake, reconnecting,
    closing, the worker pool, the buffer pool and the rate limiter. They consist of network I/O and
    joins of goroutines; the state they share with the loops appears as parameters of the loops.
  \<^item> Downloads: the tables of \<open>pp/task/download_task.go\<close> and their handlers, apart from the cost
    counters, and the timeouts of download requests. They write to files, video segments and RPC
    channels from several goroutines.
  \<^item> The sending and storing of a single uploaded slice, and the slicing of the file. An upload sees
    them as events that confirm or fail a slice.
  \<^item> Handlers for sharing, deleting, paying and deposits, which pass a result to the RPC layer.
  \<^item> Cryptography, RLP and the JSON-RPC library, which are vendored code, and generated protobuf code.
  \<^item> The relayer, the gRPC and transaction clients, databases, caches, HTTP and RPC front ends, consoles,
    metrics, configuration, commands and examples: I/O and composition of external services.
  \<^item> Logging everywhere, and results that are only shown to a user of the RPC interface.
\<close>

end
